theory Spec2Isabelle
  imports Main "HOL-Library.Sublist"
begin

section \<open>Task state machine (abstract\_task.cpp)\<close>

text \<open>
  The states of a task. The enum itself is declared in abstract\_task.hpp; the six
  names are the ones the switch of \<open>_try_transition_to\<close> and \<open>is_scheduled\<close> use.
\<close>

datatype TaskState = Created | Scheduled | Enqueued | AssignedToWorker | Started | Done

text \<open>
  \<open>Assert\<close> and \<open>Fail\<close> end the caller with an error; \<open>DebugAssert\<close> is the same
  check, compiled into debug builds. All three are branches of the model.
\<close>

datatype error =
    IllegalStateTransition
  | NotScheduledBeforeExecute
  | UnexpectedTargetState
  | DependencyAfterSchedule
  | DebugAssertFailed
  | UnknownPredicateCondition
  | EveryPartitionEmpty
  | BadAccess
  | LengthError
  | DanglingReference

text \<open>
  \<open>_try_transition_to\<close>: the state is exchanged first (\<open>_state.exchange(new_state)\<close>),
  so the state after the call is always \<open>new_state\<close>; then the previous state is
  checked. The result is the state after the call and either the failed assertion
  or the returned flag.
\<close>

definition try_transition_to :: "TaskState \<Rightarrow> TaskState \<Rightarrow> TaskState \<times> (error + bool)" where
  "try_transition_to state new_state =
     (let previous_state = state in
      (new_state,
       case new_state of
         Scheduled \<Rightarrow>
           if previous_state = Created then Inr True else Inl IllegalStateTransition
       | Enqueued \<Rightarrow>
           if previous_state = Enqueued then Inr False
           else if previous_state = Scheduled then Inr True else Inl IllegalStateTransition
       | AssignedToWorker \<Rightarrow>
           if previous_state = AssignedToWorker then Inr False
           else if previous_state = Enqueued then Inr True else Inl IllegalStateTransition
       | Started \<Rightarrow>
           if previous_state = Scheduled \<or> previous_state = AssignedToWorker then Inr True
           else Inl NotScheduledBeforeExecute
       | Done \<Rightarrow>
           if previous_state = Started then Inr True else Inl IllegalStateTransition
       | Created \<Rightarrow> Inl UnexpectedTargetState))"

text \<open>
  The life of one task: a sequence of requested target states, applied in order to the
  task's state. The run ends at the first failed assertion. Otherwise it returns the
  states the task entered (a call that returns false enters no state).
\<close>

fun run_transitions :: "TaskState \<Rightarrow> TaskState list \<Rightarrow> error + TaskState list" where
  "run_transitions state [] = Inr []"
| "run_transitions state (new_state # rest) =
     (case try_transition_to state new_state of
        (_, Inl e) \<Rightarrow> Inl e
      | (state', Inr entered) \<Rightarrow>
          (case run_transitions state' rest of
             Inl e \<Rightarrow> Inl e
           | Inr states \<Rightarrow> Inr (if entered then state' # states else states)))"

text \<open>The edges of the transition graph, as the specification draws it.\<close>

definition legal_transition :: "TaskState \<Rightarrow> TaskState \<Rightarrow> bool" where
  "legal_transition a b \<longleftrightarrow>
     (a, b) \<in> {(Created, Scheduled), (Scheduled, Enqueued), (Enqueued, AssignedToWorker),
               (AssignedToWorker, Started), (Scheduled, Started), (Started, Done)}"

definition idempotent_reentry :: "TaskState \<Rightarrow> TaskState \<Rightarrow> bool" where
  "idempotent_reentry a b \<longleftrightarrow> a = b \<and> (b = Enqueued \<or> b = AssignedToWorker)"

fun legal_path :: "TaskState \<Rightarrow> TaskState list \<Rightarrow> bool" where
  "legal_path s [] = True"
| "legal_path s (t # ts) = (legal_transition s t \<and> legal_path t ts)"

definition full_life_queued :: "TaskState list" where
  "full_life_queued = [Created, Scheduled, Enqueued, AssignedToWorker, Started, Done]"

definition full_life_direct :: "TaskState list" where
  "full_life_direct = [Created, Scheduled, Started, Done]"

subsection \<open>Tasks and their dependencies\<close>

text \<open>
  The fields of \<open>AbstractTask\<close> that \<open>set_as_predecessor_of\<close> reads and writes. Tasks
  are shared objects, so they live in a store indexed by task; \<open>_successors\<close> and
  \<open>_predecessors\<close> hold the indices of the tasks they point to.
\<close>

record Task =
  state :: TaskState
  pending_predecessors :: nat
  successors :: "nat list"
  predecessors :: "nat list"

definition is_scheduled :: "Task \<Rightarrow> bool" where
  "is_scheduled t \<longleftrightarrow>
     state t = Scheduled \<or> state t = AssignedToWorker \<or> state t = Started"

definition is_ready :: "Task \<Rightarrow> bool" where
  "is_ready t \<longleftrightarrow> pending_predecessors t = 0"

text \<open>
  \<open>this->set_as_predecessor_of(successor)\<close> on the store: the assertion on
  \<open>is_scheduled\<close> of this task, then the three updates in the order of the source.
\<close>

definition set_as_predecessor_of :: "(nat \<Rightarrow> Task) \<Rightarrow> nat \<Rightarrow> nat \<Rightarrow> error + (nat \<Rightarrow> Task)" where
  "set_as_predecessor_of tasks this successor =
     (if is_scheduled (tasks this) then Inl DependencyAfterSchedule
      else
        let tasks1 = tasks(successor :=
               (tasks successor)\<lparr>pending_predecessors := pending_predecessors (tasks successor) + 1\<rparr>);
            tasks2 = tasks1(this :=
               (tasks1 this)\<lparr>successors := successors (tasks1 this) @ [successor]\<rparr>);
            tasks3 = tasks2(successor :=
               (tasks2 successor)\<lparr>predecessors := predecessors (tasks2 successor) @ [this]\<rparr>)
        in Inr tasks3)"

definition new_task :: Task where
  "new_task = \<lparr>state = Created, pending_predecessors = 0, successors = [], predecessors = []\<rparr>"

section \<open>Join operators: shared types\<close>

text \<open>
  \<open>JoinMode\<close> and \<open>PredicateCondition\<close> are declared in types.hpp. The modes are the
  seven the operators name. Of the predicate conditions the joins name six; the
  remaining constructors stand for the conditions a join never accepts.
\<close>

datatype JoinMode = Inner | Left | Right | Outer | Cross | Semi | Anti

datatype PredicateCondition =
    Equals | NotEquals | LessThan | LessThanEquals | GreaterThan | GreaterThanEquals
  | Between | In | NotIn | Like | NotLike | IsNull | IsNotNull

type_synonym ColumnID = nat
type_synonym ColumnIDPair = "ColumnID \<times> ColumnID"

record JoinPredicate =
  column_id_pair :: ColumnIDPair
  predicate_condition :: PredicateCondition

section \<open>Hash join: input swapping (JoinHash::\_on\_execute)\<close>

datatype InputSide = InputLeft | InputRight

text \<open>What \<open>JoinHash::_on_execute\<close> hands to the constructor of \<open>JoinHashImpl\<close>.\<close>

record JoinHashImplArgs =
  build_operator :: InputSide
  probe_operator :: InputSide
  impl_mode :: JoinMode
  adjusted_column_ids :: ColumnIDPair
  impl_predicate_condition :: PredicateCondition
  inputs_swapped :: bool
  impl_additional_join_predicates :: "JoinPredicate list"

text \<open>
  \<open>flip_predicate_condition\<close> is declared outside the sources at hand; it is a
  parameter. \<open>left_row_count\<close> and \<open>right_row_count\<close> are \<open>row_count()\<close> of the
  outputs of the two input operators.
\<close>

definition JoinHash_on_execute ::
  "(PredicateCondition \<Rightarrow> PredicateCondition) \<Rightarrow> JoinMode \<Rightarrow> ColumnIDPair \<Rightarrow>
   PredicateCondition \<Rightarrow> JoinPredicate list \<Rightarrow> nat \<Rightarrow> nat \<Rightarrow> JoinHashImplArgs" where
  "JoinHash_on_execute flip_predicate_condition mode column_ids pred_condition
       additional_join_predicates left_row_count right_row_count =
     (let swapped0 = (mode = Left \<or> mode = Anti \<or> mode = Semi);
          swapped = (if \<not> swapped0 \<and> left_row_count > right_row_count then True else swapped0);
          (build_op, probe_op, build_column_id, probe_column_id) =
            (if swapped then (InputRight, InputLeft, snd column_ids, fst column_ids)
             else (InputLeft, InputRight, fst column_ids, snd column_ids));
          additional =
            (if swapped then
               map (\<lambda>pred. \<lparr>column_id_pair = (snd (column_id_pair pred), fst (column_id_pair pred)),
                             predicate_condition = flip_predicate_condition (predicate_condition pred)\<rparr>)
                   additional_join_predicates
             else additional_join_predicates)
      in \<lparr>build_operator = build_op, probe_operator = probe_op, impl_mode = mode,
          adjusted_column_ids = (build_column_id, probe_column_id),
          impl_predicate_condition = pred_condition, inputs_swapped = swapped,
          impl_additional_join_predicates = additional\<rparr>)"

definition swap_predicate ::
  "(PredicateCondition \<Rightarrow> PredicateCondition) \<Rightarrow> JoinPredicate \<Rightarrow> JoinPredicate" where
  "swap_predicate flip pred =
     \<lparr>column_id_pair = (snd (column_id_pair pred), fst (column_id_pair pred)),
      predicate_condition = flip (predicate_condition pred)\<rparr>"

text \<open>
  The usual table of \<open>flip_predicate_condition\<close>, used only to run the model on
  concrete inputs.
\<close>

fun flip_example :: "PredicateCondition \<Rightarrow> PredicateCondition" where
  "flip_example LessThan = GreaterThan"
| "flip_example LessThanEquals = GreaterThanEquals"
| "flip_example GreaterThan = LessThan"
| "flip_example GreaterThanEquals = LessThanEquals"
| "flip_example c = c"

section \<open>Sort-merge join (join\_sort\_merge.cpp)\<close>

subsection \<open>Row ids and materialized tables\<close>

text \<open>
  \<open>RowID\<close>, \<open>NULL_ROW_ID\<close> and \<open>MaterializedValue\<close> are declared in types.hpp and
  in the column materializer. Modelled from the spec: a row id is a chunk id with a
  chunk offset, \<open>NULL_ROW_ID\<close> is the reserved row id that marks outer-join padding,
  and a materialized value is a value with the row id it was read from.
\<close>

record RowID =
  chunk_id :: nat
  chunk_offset :: nat

definition INVALID_CHUNK_ID :: nat where
  "INVALID_CHUNK_ID = 4294967295"

definition INVALID_CHUNK_OFFSET :: nat where
  "INVALID_CHUNK_OFFSET = 4294967295"

definition NULL_ROW_ID :: RowID where
  "NULL_ROW_ID = \<lparr>chunk_id = INVALID_CHUNK_ID, chunk_offset = INVALID_CHUNK_OFFSET\<rparr>"

definition is_null :: "RowID \<Rightarrow> bool" where
  "is_null row \<longleftrightarrow> chunk_offset row = INVALID_CHUNK_OFFSET"

type_synonym PosList = "RowID list"

type_synonym 'a MaterializedValue = "'a \<times> RowID"
type_synonym 'a MaterializedSegment = "'a MaterializedValue list"
type_synonym 'a MaterializedSegmentList = "'a MaterializedSegment list"

abbreviation value_of :: "'a MaterializedValue \<Rightarrow> 'a" where
  "value_of \<equiv> fst"

abbreviation row_id_of :: "'a MaterializedValue \<Rightarrow> RowID" where
  "row_id_of \<equiv> snd"

record TablePosition =
  cluster :: nat
  index :: nat

record TableRange =
  range_start :: TablePosition
  range_end :: TablePosition

definition TablePosition_to :: "TablePosition \<Rightarrow> TablePosition \<Rightarrow> TableRange" where
  "TablePosition_to this position = \<lparr>range_start = this, range_end = position\<rparr>"

definition TableRange3 :: "nat \<Rightarrow> nat \<Rightarrow> nat \<Rightarrow> TableRange" where
  "TableRange3 c start_index end_index =
     \<lparr>range_start = \<lparr>cluster = c, index = start_index\<rparr>,
      range_end = \<lparr>cluster = c, index = end_index\<rparr>\<rparr>"

text \<open>
  \<open>TableRange::for_every_row_id\<close>: the row ids the action is called with, in the order
  of the calls. Indexing is unchecked, as in the source.
\<close>

definition for_every_row_id :: "'a MaterializedSegmentList \<Rightarrow> TableRange \<Rightarrow> RowID list" where
  "for_every_row_id table rng =
     concat (map (\<lambda>c.
        let start_index = (if c = cluster (range_start rng) then index (range_start rng) else 0);
            end_index = (if c = cluster (range_end rng) then index (range_end rng)
                         else length (table ! c))
        in map (\<lambda>i. row_id_of (table ! c ! i)) [start_index..<end_index])
      [cluster (range_start rng)..<Suc (cluster (range_end rng))])"

subsection \<open>The implementation object and its output\<close>

text \<open>
  The members of \<open>JoinSortMergeImpl\<close>. \<open>left_column\<close> is the join column of the left
  input table, chunk by chunk (\<open>None\<close> is NULL): the segment accessors of the anti join
  read it.
\<close>

record 'a JoinSortMergeImpl =
  sorted_left_table :: "'a MaterializedSegmentList"
  sorted_right_table :: "'a MaterializedSegmentList"
  null_rows_left :: PosList
  null_rows_right :: PosList
  left_column :: "'a option list list"
  sm_op :: PredicateCondition
  sm_mode :: JoinMode
  cluster_count :: nat
  end_of_left_table :: TablePosition
  end_of_right_table :: TablePosition

record JoinOutput =
  output_pos_lists_left :: "PosList list"
  output_pos_lists_right :: "PosList list"

definition push_back_left :: "nat \<Rightarrow> RowID \<Rightarrow> JoinOutput \<Rightarrow> JoinOutput" where
  "push_back_left c row out =
     out\<lparr>output_pos_lists_left :=
           (output_pos_lists_left out)[c := output_pos_lists_left out ! c @ [row]]\<rparr>"

definition push_back_right :: "nat \<Rightarrow> RowID \<Rightarrow> JoinOutput \<Rightarrow> JoinOutput" where
  "push_back_right c row out =
     out\<lparr>output_pos_lists_right :=
           (output_pos_lists_right out)[c := output_pos_lists_right out ! c @ [row]]\<rparr>"

definition emit_combination :: "nat \<Rightarrow> RowID \<Rightarrow> RowID \<Rightarrow> JoinOutput \<Rightarrow> JoinOutput" where
  "emit_combination output_cluster left right out =
     push_back_right output_cluster right (push_back_left output_cluster left out)"

definition emit_all_combinations ::
  "'a JoinSortMergeImpl \<Rightarrow> nat \<Rightarrow> TableRange \<Rightarrow> TableRange \<Rightarrow> JoinOutput \<Rightarrow> JoinOutput" where
  "emit_all_combinations impl output_cluster left_range right_range out =
     (if sm_mode impl \<noteq> Semi \<and> sm_mode impl \<noteq> Anti then
        fold (\<lambda>left_row_id.
                fold (\<lambda>right_row_id. emit_combination output_cluster left_row_id right_row_id)
                     (for_every_row_id (sorted_right_table impl) right_range))
             (for_every_row_id (sorted_left_table impl) left_range) out
      else
        fold (\<lambda>left_row_id. push_back_left output_cluster left_row_id)
             (for_every_row_id (sorted_left_table impl) left_range) out)"

definition emit_right_null_combinations ::
  "'a JoinSortMergeImpl \<Rightarrow> nat \<Rightarrow> TableRange \<Rightarrow> JoinOutput \<Rightarrow> JoinOutput" where
  "emit_right_null_combinations impl output_cluster left_range out =
     fold (\<lambda>left_row_id. emit_combination output_cluster left_row_id NULL_ROW_ID)
          (for_every_row_id (sorted_left_table impl) left_range) out"

definition emit_left_null_combinations ::
  "'a JoinSortMergeImpl \<Rightarrow> nat \<Rightarrow> TableRange \<Rightarrow> JoinOutput \<Rightarrow> JoinOutput" where
  "emit_left_null_combinations impl output_cluster right_range out =
     fold (\<lambda>right_row_id. emit_combination output_cluster NULL_ROW_ID right_row_id)
          (for_every_row_id (sorted_right_table impl) right_range) out"

subsection \<open>Joining two runs\<close>

datatype CompareResult = Less | Greater | Equal

definition compare :: "'a::linorder \<Rightarrow> 'a \<Rightarrow> CompareResult" where
  "compare left right =
     (if left < right then Less else if left = right then Equal else Greater)"

text \<open>
  \<open>_join_runs\<close>: the switch over the predicate condition, one branch per \<open>case\<close>
  label in the order of the source. The \<open>default\<close> branch throws; it is the only
  way the function fails.
\<close>

definition join_runs ::
  "'a JoinSortMergeImpl \<Rightarrow> TableRange \<Rightarrow> TableRange \<Rightarrow> CompareResult \<Rightarrow> JoinOutput
   \<Rightarrow> error + JoinOutput" where
  "join_runs impl left_run right_run compare_result out =
     (let cluster_number = cluster (range_start left_run);
          end_left = end_of_left_table impl;
          end_right = end_of_right_table impl
      in
        if sm_op impl = Equals then
          (if compare_result = Equal then
             Inr (emit_all_combinations impl cluster_number left_run right_run out)
           else if compare_result = Less then
             (if sm_mode impl = Left \<or> sm_mode impl = Outer
              then Inr (emit_right_null_combinations impl cluster_number left_run out)
              else Inr out)
           else
             (if sm_mode impl = Right \<or> sm_mode impl = Outer
              then Inr (emit_left_null_combinations impl cluster_number right_run out)
              else Inr out))
        else if sm_op impl = NotEquals then
          (if compare_result = Greater then
             Inr (emit_all_combinations impl cluster_number
                    (TablePosition_to (range_start left_run) end_left) right_run out)
           else if compare_result = Equal then
             Inr (emit_all_combinations impl cluster_number left_run
                    (TablePosition_to (range_end right_run) end_right)
                    (emit_all_combinations impl cluster_number
                       (TablePosition_to (range_end left_run) end_left) right_run out))
           else
             Inr (emit_all_combinations impl cluster_number left_run
                    (TablePosition_to (range_start right_run) end_right) out))
        else if sm_op impl = GreaterThan then
          (if compare_result = Greater then
             Inr (emit_all_combinations impl cluster_number
                    (TablePosition_to (range_start left_run) end_left) right_run out)
           else if compare_result = Equal then
             Inr (emit_all_combinations impl cluster_number
                    (TablePosition_to (range_end left_run) end_left) right_run out)
           else Inr out)
        else if sm_op impl = GreaterThanEquals then
          (if compare_result = Greater \<or> compare_result = Equal then
             Inr (emit_all_combinations impl cluster_number
                    (TablePosition_to (range_start left_run) end_left) right_run out)
           else Inr out)
        else if sm_op impl = LessThan then
          (if compare_result = Less then
             Inr (emit_all_combinations impl cluster_number left_run
                    (TablePosition_to (range_start right_run) end_right) out)
           else if compare_result = Equal then
             Inr (emit_all_combinations impl cluster_number left_run
                    (TablePosition_to (range_end right_run) end_right) out)
           else Inr out)
        else if sm_op impl = LessThanEquals then
          (if compare_result = Less \<or> compare_result = Equal then
             Inr (emit_all_combinations impl cluster_number left_run
                    (TablePosition_to (range_start right_run) end_right) out)
           else Inr out)
        else Inl UnknownPredicateCondition)"

subsection \<open>Runs and the merge of one cluster\<close>

text \<open>
  \<open>_run_length\<close>. \<open>std::upper_bound\<close> returns the first position after
  \<open>start_index\<close> whose value is greater than the value at \<open>start_index\<close>; the run
  is what lies before it.
\<close>

definition run_length :: "nat \<Rightarrow> ('a::linorder) MaterializedSegment \<Rightarrow> nat" where
  "run_length start_index values =
     (if start_index \<ge> length values then 0
      else length (takeWhile (\<lambda>b. \<not> value_of (values ! start_index) < value_of b)
                             (drop start_index values)))"

definition run_is_current :: "('a::linorder) MaterializedSegment \<Rightarrow> nat \<Rightarrow> nat \<Rightarrow> bool" where
  "run_is_current values run_start run_end \<longleftrightarrow> run_end = run_start + run_length run_start values"

text \<open>
  The body of the \<open>while\<close> loop of \<open>_join_cluster\<close>, on the loop's five variables:
  the starts and ends of the two current runs and the output. It joins the two runs and
  advances to the next run on the smaller side, or on both sides if the runs are equal.
\<close>

definition join_cluster_body ::
  "('a::linorder) JoinSortMergeImpl \<Rightarrow> nat \<Rightarrow> nat \<Rightarrow> nat \<Rightarrow> nat \<Rightarrow> nat \<Rightarrow> JoinOutput
   \<Rightarrow> error + (nat \<times> nat \<times> nat \<times> nat \<times> JoinOutput)" where
  "join_cluster_body impl cluster_number left_run_start right_run_start left_run_end right_run_end out =
     (let left_cluster = sorted_left_table impl ! cluster_number;
          right_cluster = sorted_right_table impl ! cluster_number;
          left_value = value_of (left_cluster ! left_run_start);
          right_value = value_of (right_cluster ! right_run_start);
          compare_result = compare left_value right_value;
          left_run = TableRange3 cluster_number left_run_start left_run_end;
          right_run = TableRange3 cluster_number right_run_start right_run_end
      in case join_runs impl left_run right_run compare_result out of
           Inl e \<Rightarrow> Inl e
         | Inr out' \<Rightarrow>
             if compare_result = Equal then
               Inr (left_run_end, right_run_end,
                    left_run_end + run_length left_run_end left_cluster,
                    right_run_end + run_length right_run_end right_cluster, out')
             else if compare_result = Less then
               Inr (left_run_end, right_run_start,
                    left_run_end + run_length left_run_end left_cluster, right_run_end, out')
             else
               Inr (left_run_start, right_run_end,
                    left_run_end, right_run_end + run_length right_run_end right_cluster, out'))"

text \<open>
  The loop itself. It returns the two run starts and the output at the exit of the loop.
\<close>

function join_cluster_loop ::
  "('a::linorder) JoinSortMergeImpl \<Rightarrow> nat \<Rightarrow> nat \<Rightarrow> nat \<Rightarrow> nat \<Rightarrow> nat \<Rightarrow> JoinOutput
   \<Rightarrow> error + (nat \<times> nat \<times> JoinOutput)" where
  "join_cluster_loop impl cluster_number left_run_start right_run_start left_run_end right_run_end out =
     (if left_run_start < length (sorted_left_table impl ! cluster_number)
         \<and> right_run_start < length (sorted_right_table impl ! cluster_number)
      then
        (case join_cluster_body impl cluster_number left_run_start right_run_start
                left_run_end right_run_end out of
           Inl e \<Rightarrow> Inl e
         | Inr (left_run_start', right_run_start', left_run_end', right_run_end', out') \<Rightarrow>
             join_cluster_loop impl cluster_number left_run_start' right_run_start'
               left_run_end' right_run_end' out')
      else Inr (left_run_start, right_run_start, out))"
  by pat_completeness auto
termination
proof -
  have run_length_pos: "0 < run_length i xs"
    if "i < length xs" for i and xs :: "'a MaterializedSegment"
    using that by (cases "drop i xs")
      (auto simp: run_length_def hd_drop_conv_nth nth_via_drop)
  show ?thesis
  proof (relation "measures
    [\<lambda>(impl, c, ls, rs, le, re, out).
        (if run_is_current (sorted_left_table impl ! c) ls le then 0 else 1)
      + (if run_is_current (sorted_right_table impl ! c) rs re then 0 else 1),
     \<lambda>(impl, c, ls, rs, le, re, out).
        (length (sorted_left_table impl ! c) - ls) + (length (sorted_right_table impl ! c) - rs)]",
    goal_cases)
    case 1
    then show ?case by simp
  next
    case (2 impl c ls rs le re out result ls' x rs' y le' z re' out')
    then show ?case
      using run_length_pos [of ls "sorted_left_table impl ! c"]
            run_length_pos [of rs "sorted_right_table impl ! c"]
      by (auto simp: run_is_current_def join_cluster_body_def Let_def
               split: sum.splits if_splits)
  qed
qed

subsection \<open>The anti join short cut\<close>

text \<open>
  What a segment accessor of the left input returns for a row id: the value, or nothing
  for NULL. An access outside the table has no value either.
\<close>

definition accessor_access :: "'a option list list \<Rightarrow> RowID \<Rightarrow> 'a option" where
  "accessor_access col row =
     (if chunk_id row < length col \<and> chunk_offset row < length (col ! chunk_id row)
      then col ! chunk_id row ! chunk_offset row else None)"

text \<open>
  How the loop of \<open>_remove_row_ids_from_materialized_segment\<close> reads the value of the
  current match: \<open>const auto& semi_join_value = accessor->access(offset).value()\<close>.
  \<open>access\<close> returns the optional by value (the accessor header is not among the
  sources; the call applies \<open>.value()\<close> to what it returns), so \<open>.value()\<close> is applied
  to a temporary: on an empty optional it throws, and otherwise the reference that is
  bound to its result refers into the temporary, which is destroyed at the end of the
  statement. Every later use of \<open>semi_join_value\<close> reads through this dangling
  reference and has no defined result; the model stops there with the error
  \<open>DanglingReference\<close>.
\<close>

definition read_semi_join_value :: "'a option list list \<Rightarrow> RowID \<Rightarrow> error + 'a" where
  "read_semi_join_value col m =
     (case accessor_access col m of
        None \<Rightarrow> Inl BadAccess
      | Some semi_join_value \<Rightarrow> Inl DanglingReference)"

text \<open>
  The \<open>while\<close> loop of \<open>_remove_row_ids_from_materialized_segment\<close>: the rest of the
  input segment, the rest of the matches, and the position list built so far. Inside
  the loop the matches are never exhausted (the loop is left as soon as they are). The
  three branches compare the input value with the value read for the current match.
\<close>

fun anti_merge_loop ::
  "('a::linorder) option list list \<Rightarrow> 'a MaterializedSegment \<Rightarrow> PosList \<Rightarrow> PosList
   \<Rightarrow> error + PosList" where
  "anti_merge_loop col [] matches pos_list = Inr pos_list"
| "anti_merge_loop col (input # rest) [] pos_list = Inl BadAccess"
| "anti_merge_loop col (input # rest) (m # matches) pos_list =
     (case read_semi_join_value col m of
        Inl e \<Rightarrow> Inl e
      | Inr semi_join_value \<Rightarrow>
          if value_of input = semi_join_value then
            (if matches = [] then Inr (pos_list @ map row_id_of rest)
             else anti_merge_loop col rest matches pos_list)
          else if value_of input < semi_join_value then
            anti_merge_loop col rest (m # matches) (pos_list @ [row_id_of input])
          else Inr (pos_list @ map row_id_of (input # rest)))"

text \<open>
  \<open>_remove_row_ids_from_materialized_segment\<close>. The \<open>reserve\<close> of
  \<open>input_segment->size() - matches->size()\<close> entries is an unsigned subtraction: with
  more matches than input rows it asks for more than a vector can hold and throws.
\<close>

definition remove_row_ids_from_materialized_segment ::
  "('a::linorder) option list list \<Rightarrow> PosList \<Rightarrow> 'a MaterializedSegment \<Rightarrow> error + PosList" where
  "remove_row_ids_from_materialized_segment col matches input_segment =
     (if length matches > length input_segment then Inl LengthError
      else if matches = [] then Inr (map row_id_of input_segment)
      else anti_merge_loop col input_segment matches [])"

subsection \<open>One cluster\<close>

definition join_cluster ::
  "('a::linorder) JoinSortMergeImpl \<Rightarrow> nat \<Rightarrow> JoinOutput \<Rightarrow> error + JoinOutput" where
  "join_cluster impl cluster_number out =
     (let left_cluster = sorted_left_table impl ! cluster_number;
          right_cluster = sorted_right_table impl ! cluster_number;
          left_run_end = 0 + run_length 0 left_cluster;
          right_run_end = 0 + run_length 0 right_cluster;
          left_size = length left_cluster;
          right_size = length right_cluster
      in case join_cluster_loop impl cluster_number 0 0 left_run_end right_run_end out of
           Inl e \<Rightarrow> Inl e
         | Inr (left_run_start, right_run_start, out1) \<Rightarrow>
             (let right_rest = TableRange3 cluster_number right_run_start right_size;
                  left_rest = TableRange3 cluster_number left_run_start left_size
              in case (if left_run_start < left_size
                       then join_runs impl left_rest right_rest Less out1
                       else if right_run_start < right_size
                       then join_runs impl left_rest right_rest Greater out1
                       else Inr out1) of
                   Inl e \<Rightarrow> Inl e
                 | Inr out2 \<Rightarrow>
                     if sm_mode impl = Anti then
                       (case remove_row_ids_from_materialized_segment (left_column impl)
                               (output_pos_lists_left out2 ! cluster_number) left_cluster of
                          Inl e \<Rightarrow> Inl e
                        | Inr pos_list \<Rightarrow>
                            Inr (out2\<lparr>output_pos_lists_left :=
                                   (output_pos_lists_left out2)[cluster_number := pos_list]\<rparr>))
                     else Inr out2))"

subsection \<open>Outer joins with a non-equality predicate\<close>

definition end_of_table :: "'a MaterializedSegmentList \<Rightarrow> error + TablePosition" where
  "end_of_table table =
     (if table = [] then Inl DebugAssertFailed
      else let last_cluster = length table - 1
           in Inr \<lparr>cluster = last_cluster, index = length (table ! last_cluster)\<rparr>)"

definition table_min_value ::
  "'a JoinSortMergeImpl \<Rightarrow> 'a MaterializedSegmentList \<Rightarrow> error + 'a" where
  "table_min_value impl sorted_table =
     (if sm_op impl = Equals then Inl DebugAssertFailed
      else if sorted_table = [] then Inl DebugAssertFailed
      else case find (\<lambda>part. part \<noteq> []) sorted_table of
             Some part \<Rightarrow> Inr (value_of (part ! 0))
           | None \<Rightarrow> Inl EveryPartitionEmpty)"

definition table_max_value ::
  "'a JoinSortMergeImpl \<Rightarrow> 'a MaterializedSegmentList \<Rightarrow> error + 'a" where
  "table_max_value impl sorted_table =
     (if sm_op impl = Equals then Inl DebugAssertFailed
      else if sorted_table = [] then Inl DebugAssertFailed
      else case find (\<lambda>partition_id. sorted_table ! partition_id \<noteq> [])
                     (rev [0..<length sorted_table]) of
             Some partition_id \<Rightarrow> Inr (value_of (last (sorted_table ! partition_id)))
           | None \<Rightarrow> Inl EveryPartitionEmpty)"

text \<open>
  \<open>_first_value_that_satisfies\<close> and its reverse, as recursions over the partition ids
  in the order the loops visit them. The reverse loops count an unsigned index down
  until it wraps around, which visits \<open>size - 1, ..., 0\<close>.
\<close>

fun first_satisfying_in ::
  "'a MaterializedSegmentList \<Rightarrow> ('a \<Rightarrow> bool) \<Rightarrow> nat list \<Rightarrow> TablePosition option" where
  "first_satisfying_in sorted_table condition [] = None"
| "first_satisfying_in sorted_table condition (partition_id # ids) =
     (let part = sorted_table ! partition_id
      in if part \<noteq> [] \<and> condition (value_of (last part)) then
           (case find (\<lambda>i. condition (value_of (part ! i))) [0..<length part] of
              Some i \<Rightarrow> Some \<lparr>cluster = partition_id, index = i\<rparr>
            | None \<Rightarrow> first_satisfying_in sorted_table condition ids)
         else first_satisfying_in sorted_table condition ids)"

definition first_value_that_satisfies ::
  "'a MaterializedSegmentList \<Rightarrow> ('a \<Rightarrow> bool) \<Rightarrow> TablePosition option" where
  "first_value_that_satisfies sorted_table condition =
     first_satisfying_in sorted_table condition [0..<length sorted_table]"

fun first_satisfying_reverse_in ::
  "'a MaterializedSegmentList \<Rightarrow> ('a \<Rightarrow> bool) \<Rightarrow> nat list \<Rightarrow> TablePosition option" where
  "first_satisfying_reverse_in sorted_table condition [] = None"
| "first_satisfying_reverse_in sorted_table condition (partition_id # ids) =
     (let part = sorted_table ! partition_id
      in if part \<noteq> [] \<and> condition (value_of (part ! 0)) then
           (case find (\<lambda>i. condition (value_of (part ! i))) (rev [0..<length part]) of
              Some i \<Rightarrow> Some \<lparr>cluster = partition_id, index = i + 1\<rparr>
            | None \<Rightarrow> first_satisfying_reverse_in sorted_table condition ids)
         else first_satisfying_reverse_in sorted_table condition ids)"

definition first_value_that_satisfies_reverse ::
  "'a MaterializedSegmentList \<Rightarrow> ('a \<Rightarrow> bool) \<Rightarrow> TablePosition option" where
  "first_value_that_satisfies_reverse sorted_table condition =
     first_satisfying_reverse_in sorted_table condition (rev [0..<length sorted_table])"

definition table_begin :: TablePosition where
  "table_begin = \<lparr>cluster = 0, index = 0\<rparr>"

definition left_outer_non_equi_join ::
  "('a::linorder) JoinSortMergeImpl \<Rightarrow> JoinOutput \<Rightarrow> error + JoinOutput" where
  "left_outer_non_equi_join impl out =
     (case table_min_value impl (sorted_left_table impl) of
        Inl e \<Rightarrow> Inl e
      | Inr left_min_value \<Rightarrow>
     (case table_max_value impl (sorted_left_table impl) of
        Inl e \<Rightarrow> Inl e
      | Inr left_max_value \<Rightarrow>
     (case end_of_table (sorted_right_table impl) of
        Inl e \<Rightarrow> Inl e
      | Inr end_of_right \<Rightarrow>
          if sm_op impl = LessThan then
            (case first_value_that_satisfies (sorted_right_table impl) (\<lambda>v. v > left_min_value) of
               Some result \<Rightarrow>
                 Inr (emit_left_null_combinations impl 0 (TablePosition_to table_begin result) out)
             | None \<Rightarrow> Inr out)
          else if sm_op impl = LessThanEquals then
            (case first_value_that_satisfies (sorted_right_table impl) (\<lambda>v. v \<ge> left_min_value) of
               Some result \<Rightarrow>
                 Inr (emit_left_null_combinations impl 0 (TablePosition_to table_begin result) out)
             | None \<Rightarrow> Inr out)
          else if sm_op impl = GreaterThan then
            (case first_value_that_satisfies_reverse (sorted_right_table impl)
                    (\<lambda>v. v < left_max_value) of
               Some result \<Rightarrow>
                 Inr (emit_left_null_combinations impl 0 (TablePosition_to result end_of_right) out)
             | None \<Rightarrow> Inr out)
          else if sm_op impl = GreaterThanEquals then
            (case first_value_that_satisfies_reverse (sorted_right_table impl)
                    (\<lambda>v. v \<le> left_max_value) of
               Some result \<Rightarrow>
                 Inr (emit_left_null_combinations impl 0 (TablePosition_to result end_of_right) out)
             | None \<Rightarrow> Inr out)
          else Inr out)))"

definition right_outer_non_equi_join ::
  "('a::linorder) JoinSortMergeImpl \<Rightarrow> JoinOutput \<Rightarrow> error + JoinOutput" where
  "right_outer_non_equi_join impl out =
     (case table_min_value impl (sorted_right_table impl) of
        Inl e \<Rightarrow> Inl e
      | Inr right_min_value \<Rightarrow>
     (case table_max_value impl (sorted_right_table impl) of
        Inl e \<Rightarrow> Inl e
      | Inr right_max_value \<Rightarrow>
     (case end_of_table (sorted_left_table impl) of
        Inl e \<Rightarrow> Inl e
      | Inr end_of_left \<Rightarrow>
          if sm_op impl = LessThan then
            (case first_value_that_satisfies_reverse (sorted_left_table impl)
                    (\<lambda>v. v < right_max_value) of
               Some result \<Rightarrow>
                 Inr (emit_right_null_combinations impl 0 (TablePosition_to result end_of_left) out)
             | None \<Rightarrow> Inr out)
          else if sm_op impl = LessThanEquals then
            (case first_value_that_satisfies_reverse (sorted_left_table impl)
                    (\<lambda>v. v \<le> right_max_value) of
               Some result \<Rightarrow>
                 Inr (emit_right_null_combinations impl 0 (TablePosition_to result end_of_left) out)
             | None \<Rightarrow> Inr out)
          else if sm_op impl = GreaterThan then
            (case first_value_that_satisfies (sorted_left_table impl) (\<lambda>v. v > right_min_value) of
               Some result \<Rightarrow>
                 Inr (emit_right_null_combinations impl 0 (TablePosition_to table_begin result) out)
             | None \<Rightarrow> Inr out)
          else if sm_op impl = GreaterThanEquals then
            (case first_value_that_satisfies (sorted_left_table impl) (\<lambda>v. v \<ge> right_min_value) of
               Some result \<Rightarrow>
                 Inr (emit_right_null_combinations impl 0 (TablePosition_to table_begin result) out)
             | None \<Rightarrow> Inr out)
          else Inr out)))"

subsection \<open>All clusters\<close>

text \<open>
  The loop of \<open>_perform_join\<close> over the clusters. Each job writes the output lists of
  its own cluster only, so the jobs are run here one after the other, in the order in
  which they are scheduled.
\<close>

fun perform_join_clusters ::
  "('a::linorder) JoinSortMergeImpl \<Rightarrow> nat list \<Rightarrow> JoinOutput \<Rightarrow> error + JoinOutput" where
  "perform_join_clusters impl [] out = Inr out"
| "perform_join_clusters impl (cluster_number # rest) out =
     (let out0 = out\<lparr>output_pos_lists_left := (output_pos_lists_left out)[cluster_number := []],
                     output_pos_lists_right := (output_pos_lists_right out)[cluster_number := []]\<rparr>
      in if (sm_mode impl = Inner \<or> sm_mode impl = Semi) \<and> sm_op impl = Equals
            \<and> (sorted_left_table impl ! cluster_number = []
                \<or> sorted_right_table impl ! cluster_number = [])
         then perform_join_clusters impl rest out0
         else (case join_cluster impl cluster_number out0 of
                 Inl e \<Rightarrow> Inl e
               | Inr out1 \<Rightarrow> perform_join_clusters impl rest out1))"

definition perform_join ::
  "('a::linorder) JoinSortMergeImpl \<Rightarrow> JoinOutput \<Rightarrow> error + JoinOutput" where
  "perform_join impl out =
     (case perform_join_clusters impl [0..<cluster_count impl] out of
        Inl e \<Rightarrow> Inl e
      | Inr out1 \<Rightarrow>
          (case (if (sm_mode impl = Left \<or> sm_mode impl = Outer) \<and> sm_op impl \<noteq> Equals
                 then left_outer_non_equi_join impl out1 else Inr out1) of
             Inl e \<Rightarrow> Inl e
           | Inr out2 \<Rightarrow>
               if (sm_mode impl = Right \<or> sm_mode impl = Outer) \<and> sm_op impl \<noteq> Equals
               then right_outer_non_equi_join impl out2 else Inr out2))"

subsection \<open>The operator\<close>

text \<open>
  The constructor of \<open>JoinSortMerge\<close> validates its parameters; the input operators are
  pointers and may be null (\<open>None\<close>).
\<close>

definition JoinSortMerge_new ::
  "'t option \<Rightarrow> 't option \<Rightarrow> JoinMode \<Rightarrow> PredicateCondition \<Rightarrow> error + unit" where
  "JoinSortMerge_new left right mode op =
     (if mode = Cross then Inl DebugAssertFailed
      else if \<not> ((mode \<noteq> Semi \<and> mode \<noteq> Anti) \<or> op = Equals) then Inl DebugAssertFailed
      else if left = None then Inl DebugAssertFailed
      else if right = None then Inl DebugAssertFailed
      else if \<not> (op = Equals \<or> op = LessThan \<or> op = GreaterThan \<or> op = LessThanEquals
                \<or> op = GreaterThanEquals \<or> op = NotEquals) then Inl DebugAssertFailed
      else if \<not> (op \<noteq> NotEquals \<or> mode = Inner) then Inl DebugAssertFailed
      else Inr ())"

text \<open>What \<open>RadixClusterSort::execute\<close> returns; the clusterer itself is in radix\_cluster\_sort.hpp.\<close>

record 'a RadixClusterOutput =
  clusters_left :: "'a MaterializedSegmentList"
  clusters_right :: "'a MaterializedSegmentList"
  output_null_rows_left :: PosList
  output_null_rows_right :: PosList

text \<open>
  \<open>JoinSortMergeImpl::_on_execute\<close> up to the output position lists, from the result of
  the clusterer. The number of clusters is fixed by the constructor from the row counts;
  it is a parameter here. The constructor sizes the two vectors of output lists to it.
\<close>

definition JoinSortMergeImpl_on_execute ::
  "PredicateCondition \<Rightarrow> JoinMode \<Rightarrow> nat \<Rightarrow> ('a::linorder) option list list
   \<Rightarrow> 'a RadixClusterOutput \<Rightarrow> error + JoinOutput" where
  "JoinSortMergeImpl_on_execute op mode n_clusters left_col sort_output =
     (let include_null_left = (mode = Left \<or> mode = Outer);
          include_null_right = (mode = Right \<or> mode = Outer)
      in case end_of_table (clusters_left sort_output) of
           Inl e \<Rightarrow> Inl e
         | Inr end_left \<Rightarrow>
      (case end_of_table (clusters_right sort_output) of
           Inl e \<Rightarrow> Inl e
         | Inr end_right \<Rightarrow>
      (let impl = \<lparr>sorted_left_table = clusters_left sort_output,
                   sorted_right_table = clusters_right sort_output,
                   null_rows_left = output_null_rows_left sort_output,
                   null_rows_right = output_null_rows_right sort_output,
                   left_column = left_col, sm_op = op, sm_mode = mode,
                   cluster_count = n_clusters,
                   end_of_left_table = end_left, end_of_right_table = end_right\<rparr>;
           out0 = \<lparr>output_pos_lists_left = replicate n_clusters [],
                   output_pos_lists_right = replicate n_clusters []\<rparr>
       in case perform_join impl out0 of
            Inl e \<Rightarrow> Inl e
          | Inr out \<Rightarrow>
              if include_null_left \<or> include_null_right then
                (let null_out_left =
                       (if include_null_left then null_rows_left impl else [])
                       @ (if include_null_right
                          then map (\<lambda>_. NULL_ROW_ID) (null_rows_right impl) else []);
                     null_out_right =
                       (if include_null_left
                        then map (\<lambda>_. NULL_ROW_ID) (null_rows_left impl) else [])
                       @ (if include_null_right then null_rows_right impl else [])
                 in Inr (out\<lparr>output_pos_lists_left := output_pos_lists_left out @ [null_out_left],
                              output_pos_lists_right := output_pos_lists_right out @ [null_out_right]\<rparr>))
              else Inr out)))"

subsection \<open>The merge table of the predicate \<open>>\<close>\<close>

text \<open>
  One row of the specification's table of run-based merging: what is emitted for a pair
  of current runs and which side advances. \<open>L\<close> and \<open>R\<close> are the current runs,
  \<open>L_from_start\<close> is the left table from the start of the left run to its end,
  \<open>L_after\<close> the left table from the end of the left run to its end.
\<close>

datatype Emission = EmitNothing | Emit_L_from_start_x_R | Emit_L_after_x_R

datatype Advance = AdvanceLeft | AdvanceRight | AdvanceBoth

definition emit_pairs :: "nat \<Rightarrow> (RowID \<times> RowID) list \<Rightarrow> JoinOutput \<Rightarrow> JoinOutput" where
  "emit_pairs c pairs out =
     out\<lparr>output_pos_lists_left :=
           (output_pos_lists_left out)[c := output_pos_lists_left out ! c @ map fst pairs],
         output_pos_lists_right :=
           (output_pos_lists_right out)[c := output_pos_lists_right out ! c @ map snd pairs]\<rparr>"

definition emission_pairs ::
  "'a JoinSortMergeImpl \<Rightarrow> nat \<Rightarrow> nat \<Rightarrow> nat \<Rightarrow> nat \<Rightarrow> nat \<Rightarrow> Emission \<Rightarrow> (RowID \<times> RowID) list" where
  "emission_pairs impl c ls rs le re e =
     (let R = for_every_row_id (sorted_right_table impl) (TableRange3 c rs re);
          position = (\<lambda>i. \<lparr>cluster = c, index = i\<rparr>)
      in case e of
           EmitNothing \<Rightarrow> []
         | Emit_L_from_start_x_R \<Rightarrow>
             List.product (for_every_row_id (sorted_left_table impl)
                             (TablePosition_to (position ls) (end_of_left_table impl))) R
         | Emit_L_after_x_R \<Rightarrow>
             List.product (for_every_row_id (sorted_left_table impl)
                             (TablePosition_to (position le) (end_of_left_table impl))) R)"

definition advance_runs ::
  "('a::linorder) JoinSortMergeImpl \<Rightarrow> nat \<Rightarrow> nat \<Rightarrow> nat \<Rightarrow> nat \<Rightarrow> nat \<Rightarrow> Advance
   \<Rightarrow> nat \<times> nat \<times> nat \<times> nat" where
  "advance_runs impl c ls rs le re a =
     (let next_le = le + run_length le (sorted_left_table impl ! c);
          next_re = re + run_length re (sorted_right_table impl ! c)
      in case a of
           AdvanceLeft \<Rightarrow> (le, rs, next_le, re)
         | AdvanceRight \<Rightarrow> (ls, re, le, next_re)
         | AdvanceBoth \<Rightarrow> (le, re, next_le, next_re))"

definition apply_table_row ::
  "('a::linorder) JoinSortMergeImpl \<Rightarrow> nat \<Rightarrow> nat \<Rightarrow> nat \<Rightarrow> nat \<Rightarrow> nat \<Rightarrow> JoinOutput
   \<Rightarrow> Emission \<times> Advance \<Rightarrow> nat \<times> nat \<times> nat \<times> nat \<times> JoinOutput" where
  "apply_table_row impl c ls rs le re out row =
     (case advance_runs impl c ls rs le re (snd row) of
        (ls', rs', le', re') \<Rightarrow>
          (ls', rs', le', re', emit_pairs c (emission_pairs impl c ls rs le re (fst row)) out))"

text \<open>The row of the predicate \<open>>\<close> as the specification's table gives it.\<close>

fun spec_row_GreaterThan :: "CompareResult \<Rightarrow> Emission \<times> Advance" where
  "spec_row_GreaterThan Equal = (Emit_L_from_start_x_R, AdvanceLeft)"
| "spec_row_GreaterThan Less = (EmitNothing, AdvanceRight)"
| "spec_row_GreaterThan Greater = (Emit_L_from_start_x_R, AdvanceLeft)"

text \<open>The row of the predicate \<open>>\<close> as \<open>_join_runs\<close> and \<open>_join_cluster\<close> compute it.\<close>

fun merge_row_GreaterThan :: "CompareResult \<Rightarrow> Emission \<times> Advance" where
  "merge_row_GreaterThan Equal = (Emit_L_after_x_R, AdvanceBoth)"
| "merge_row_GreaterThan Less = (EmitNothing, AdvanceLeft)"
| "merge_row_GreaterThan Greater = (Emit_L_from_start_x_R, AdvanceRight)"

definition row_id :: "nat \<Rightarrow> nat \<Rightarrow> RowID" where
  "row_id c i = \<lparr>chunk_id = c, chunk_offset = i\<rparr>"

section \<open>Tables and segments\<close>

text \<open>
  The storage classes are declared in the storage directory. Modelled from the spec: a
  table is of type Data or References and is a sequence of chunks with one segment per
  column; a segment holds values (\<open>None\<close> is NULL) or is a reference segment with a
  referenced table, a referenced column id and a position list.
\<close>

datatype TableType = Data | References

datatype 'a Segment =
    ValueSegment "'a option list"
  | ReferenceSegment (referenced_table: "'a Table") (referenced_column_id: ColumnID)
      (pos_list: PosList)
and 'a Table =
    Table (table_type: TableType) (column_count: nat) (chunks: "'a Segment list list")

definition chunk_count :: "'a Table \<Rightarrow> nat" where
  "chunk_count t = length (chunks t)"

text \<open>
  \<open>Table::create_dummy_table\<close> (storage/table.cpp) makes an empty data table with the
  given column definitions.
\<close>

definition create_dummy_table :: "'a Table \<Rightarrow> 'a Table" where
  "create_dummy_table input_table = Table Data (column_count input_table) []"

subsection \<open>Output segments of the sort-merge join\<close>

text \<open>
  \<open>_dereference_pos_list\<close>. The dynamic cast of a segment that is no reference segment
  yields a null pointer, and reading its position list fails.
\<close>

definition dereference_pos_list :: "'a Table \<Rightarrow> ColumnID \<Rightarrow> PosList \<Rightarrow> error + PosList" where
  "dereference_pos_list input_table column_id pos_list0 =
     (case those (map (\<lambda>chunk. case chunk ! column_id of
                                   ReferenceSegment _ _ pl \<Rightarrow> Some pl
                                 | ValueSegment _ \<Rightarrow> None)
                      (chunks input_table)) of
        None \<Rightarrow> Inl BadAccess
      | Some input_pos_lists \<Rightarrow>
          Inr (map (\<lambda>row. if is_null row then NULL_ROW_ID
                          else input_pos_lists ! chunk_id row ! chunk_offset row) pos_list0))"

text \<open>\<open>_add_output_segments\<close>: the loop over the column ids that are still to be written.\<close>

fun add_output_segments_columns ::
  "'a Table \<Rightarrow> PosList \<Rightarrow> ColumnID list \<Rightarrow> 'a Segment list \<Rightarrow> error + 'a Segment list" where
  "add_output_segments_columns input_table pos_list0 [] output_segments = Inr output_segments"
| "add_output_segments_columns input_table pos_list0 (column_id # rest) output_segments =
     (if table_type input_table = References then
        (case dereference_pos_list input_table column_id pos_list0 of
           Inl e \<Rightarrow> Inl e
         | Inr new_pos_list \<Rightarrow>
             if chunk_count input_table > 0 then
               (case chunks input_table ! 0 ! column_id of
                  ReferenceSegment ref_table ref_column_id _ \<Rightarrow>
                    add_output_segments_columns input_table pos_list0 rest
                      (output_segments @ [ReferenceSegment ref_table ref_column_id new_pos_list])
                | ValueSegment _ \<Rightarrow> Inl BadAccess)
             else
               add_output_segments_columns input_table pos_list0 rest
                 (output_segments
                  @ [ReferenceSegment (create_dummy_table input_table) column_id pos_list0]))
      else
        add_output_segments_columns input_table pos_list0 rest
          (output_segments @ [ReferenceSegment input_table column_id pos_list0]))"

definition add_output_segments ::
  "'a Segment list \<Rightarrow> 'a Table \<Rightarrow> PosList \<Rightarrow> error + 'a Segment list" where
  "add_output_segments output_segments input_table pos_list0 =
     add_output_segments_columns input_table pos_list0 [0..<column_count input_table]
       output_segments"

text \<open>
  The output chunks of \<open>JoinSortMergeImpl::_on_execute\<close>: one chunk per output position
  list, the segments of the left input followed, except in a semi or anti join, by those
  of the right input.
\<close>

definition write_output_chunk ::
  "JoinMode \<Rightarrow> 'a Table \<Rightarrow> 'a Table \<Rightarrow> JoinOutput \<Rightarrow> nat \<Rightarrow> error + 'a Segment list" where
  "write_output_chunk mode input_table_left input_table_right out pos_list_id =
     (case add_output_segments [] input_table_left (output_pos_lists_left out ! pos_list_id) of
        Inl e \<Rightarrow> Inl e
      | Inr output_segments \<Rightarrow>
          if mode \<noteq> Semi \<and> mode \<noteq> Anti then
            add_output_segments output_segments input_table_right
              (output_pos_lists_right out ! pos_list_id)
          else Inr output_segments)"

fun write_output_chunks ::
  "JoinMode \<Rightarrow> 'a Table \<Rightarrow> 'a Table \<Rightarrow> JoinOutput \<Rightarrow> nat list \<Rightarrow> error + 'a Segment list list" where
  "write_output_chunks mode input_table_left input_table_right out [] = Inr []"
| "write_output_chunks mode input_table_left input_table_right out (pos_list_id # rest) =
     (case write_output_chunk mode input_table_left input_table_right out pos_list_id of
        Inl e \<Rightarrow> Inl e
      | Inr chunk \<Rightarrow>
          (case write_output_chunks mode input_table_left input_table_right out rest of
             Inl e \<Rightarrow> Inl e
           | Inr result_chunks \<Rightarrow> Inr (chunk # result_chunks)))"

definition result_chunks_of ::
  "JoinMode \<Rightarrow> 'a Table \<Rightarrow> 'a Table \<Rightarrow> JoinOutput \<Rightarrow> error + 'a Segment list list" where
  "result_chunks_of mode input_table_left input_table_right out =
     write_output_chunks mode input_table_left input_table_right out
       [0..<length (output_pos_lists_left out)]"

text \<open>
  The invariant of the data model on an input table: a table of type References holds
  reference segments only, one per column in every chunk, and each of them references a
  data table.
\<close>

definition references_data_table :: "'a Segment \<Rightarrow> bool" where
  "references_data_table seg \<longleftrightarrow>
     (case seg of ReferenceSegment t _ _ \<Rightarrow> table_type t = Data | ValueSegment _ \<Rightarrow> False)"

definition valid_input_table :: "'a Table \<Rightarrow> bool" where
  "valid_input_table t \<longleftrightarrow>
     (table_type t = References \<longrightarrow>
        (\<forall>chunk \<in> set (chunks t).
           length chunk = column_count t \<and> (\<forall>seg \<in> set chunk. references_data_table seg)))"

section \<open>Hash join: additional predicates\<close>

text \<open>
  \<open>BaseSegment::operator[]\<close> returns an \<open>AllTypeVariant\<close>; the operator is a parameter
  (\<open>segment_at\<close>). Modelled from the spec: two variants compare equal under strict
  equality, that is, NULL equals nothing, not even NULL.
\<close>

type_synonym 'a AllTypeVariant = "'a option"

definition variant_equal :: "'a AllTypeVariant \<Rightarrow> 'a AllTypeVariant \<Rightarrow> bool" where
  "variant_equal a b = (case (a, b) of (Some x, Some y) \<Rightarrow> x = y | _ \<Rightarrow> False)"

text \<open>
  \<open>_apply_additional_join_predicates\<close>, the filter of two position lists after the
  probe. First its inner loop over the predicates, for one pair of rows; it stops at the
  first predicate that fails.
\<close>

fun row_pair_satisfies_predicates ::
  "('a Segment \<Rightarrow> nat \<Rightarrow> 'a AllTypeVariant) \<Rightarrow> 'a Table \<Rightarrow> RowID \<Rightarrow> 'a Table \<Rightarrow> RowID
   \<Rightarrow> JoinPredicate list \<Rightarrow> error + bool" where
  "row_pair_satisfies_predicates segment_at left left_row_id right right_row_id [] = Inr True"
| "row_pair_satisfies_predicates segment_at left left_row_id right right_row_id (pred # rest) =
     (if predicate_condition pred \<noteq> Equals then Inl DebugAssertFailed
      else
        let left_segment = chunks left ! chunk_id left_row_id ! fst (column_id_pair pred);
            right_segment = chunks right ! chunk_id right_row_id ! snd (column_id_pair pred)
        in if \<not> variant_equal (segment_at left_segment (chunk_offset left_row_id))
                               (segment_at right_segment (chunk_offset right_row_id))
           then Inr False
           else row_pair_satisfies_predicates segment_at left left_row_id right right_row_id rest)"

text \<open>The outer loop over the row indices, with the two selections built so far.\<close>

fun verify_rows ::
  "('a Segment \<Rightarrow> nat \<Rightarrow> 'a AllTypeVariant) \<Rightarrow> 'a Table \<Rightarrow> PosList \<Rightarrow> 'a Table \<Rightarrow> PosList
   \<Rightarrow> JoinPredicate list \<Rightarrow> nat list \<Rightarrow> PosList \<Rightarrow> PosList \<Rightarrow> error + (PosList \<times> PosList)" where
  "verify_rows segment_at left left_rows right right_rows preds [] left_selection right_selection =
     Inr (left_selection, right_selection)"
| "verify_rows segment_at left left_rows right right_rows preds (row_idx # rest)
       left_selection right_selection =
     (let left_row_id = left_rows ! row_idx;
          right_row_id = right_rows ! row_idx
      in case row_pair_satisfies_predicates segment_at left left_row_id right right_row_id preds of
           Inl e \<Rightarrow> Inl e
         | Inr satisfied \<Rightarrow>
             if satisfied then
               verify_rows segment_at left left_rows right right_rows preds rest
                 (left_selection @ [left_row_id]) (right_selection @ [right_row_id])
             else
               verify_rows segment_at left left_rows right right_rows preds rest
                 left_selection right_selection)"

definition apply_additional_join_predicates ::
  "('a Segment \<Rightarrow> nat \<Rightarrow> 'a AllTypeVariant) \<Rightarrow> 'a Table \<Rightarrow> PosList \<Rightarrow> 'a Table \<Rightarrow> PosList
   \<Rightarrow> JoinPredicate list \<Rightarrow> error + (PosList \<times> PosList)" where
  "apply_additional_join_predicates segment_at left left_rows_to_verify right right_rows_to_verify
       join_predicates =
     (if length left_rows_to_verify \<noteq> length right_rows_to_verify then Inl DebugAssertFailed
      else if join_predicates = [] then Inr (left_rows_to_verify, right_rows_to_verify)
      else verify_rows segment_at left left_rows_to_verify right right_rows_to_verify
             join_predicates [0..<length left_rows_to_verify] [] [])"

text \<open>
  The call of \<open>_apply_additional_join_predicates\<close> in \<open>JoinHashImpl::_on_execute\<close> is
  commented out: the operator hands the join mode, the two input tables and the
  additional predicates to \<open>probe\<close> and \<open>probe_semi_anti\<close> (join\_hash\_steps.hpp), which
  are not among the sources.

  Modelled from the spec: the primary hash match. The hash table of a partition holds the
  build rows (the build side never retains NULL keys), and each probe key is looked up
  in it; a match of the keys is a candidate pair of a build row and a probe row, and a
  NULL key matches nothing.
\<close>

definition candidate_pairs ::
  "('k option \<times> RowID) list \<Rightarrow> 'k option \<times> RowID \<Rightarrow> (RowID \<times> RowID) list" where
  "candidate_pairs hashtable probe_row =
     map (\<lambda>build_row. (snd build_row, snd probe_row))
         (filter (\<lambda>build_row. variant_equal (fst build_row) (fst probe_row)) hashtable)"

definition primary_hash_match ::
  "('k option \<times> RowID) list \<Rightarrow> ('k option \<times> RowID) list \<Rightarrow> (RowID \<times> RowID) list" where
  "primary_hash_match hashtable radix_right =
     concat (map (candidate_pairs hashtable) radix_right)"

text \<open>
  Modelled from the spec: a candidate pair survives iff all additional predicates pass,
  and a predicate passes iff the two column values it cites, of the build row in the left
  table and of the probe row in the right table, compare equal under strict equality.
\<close>

definition predicates_hold ::
  "('a Segment \<Rightarrow> nat \<Rightarrow> 'a AllTypeVariant) \<Rightarrow> 'a Table \<Rightarrow> 'a Table \<Rightarrow> JoinPredicate list
   \<Rightarrow> RowID \<times> RowID \<Rightarrow> bool" where
  "predicates_hold segment_at left right join_predicates pair \<longleftrightarrow>
     (\<forall>pred \<in> set join_predicates.
        variant_equal
          (segment_at (chunks left ! chunk_id (fst pair) ! fst (column_id_pair pred))
                      (chunk_offset (fst pair)))
          (segment_at (chunks right ! chunk_id (snd pair) ! snd (column_id_pair pred))
                      (chunk_offset (snd pair))))"

definition surviving_pairs ::
  "('a Segment \<Rightarrow> nat \<Rightarrow> 'a AllTypeVariant) \<Rightarrow> ('k option \<times> RowID) list \<Rightarrow> 'a Table \<Rightarrow> 'a Table
   \<Rightarrow> JoinPredicate list \<Rightarrow> 'k option \<times> RowID \<Rightarrow> (RowID \<times> RowID) list" where
  "surviving_pairs segment_at hashtable left right join_predicates probe_row =
     filter (predicates_hold segment_at left right join_predicates)
            (candidate_pairs hashtable probe_row)"

text \<open>
  Modelled from the spec: \<open>probe\<close> for one partition, in the modes that emit pairs.
  A pair of a build row and a probe row is emitted for every match, that is, for every
  candidate pair that survives the additional predicates. In the outer modes a probe row
  without a match is emitted with \<open>NULL_ROW_ID\<close> on the build side, and in mode Outer a
  build row without a match is emitted with \<open>NULL_ROW_ID\<close> on the probe side. An
  additional predicate other than an equality is a contract violation. The result is the
  pair of the left (build) and the right (probe) position list.
\<close>

definition probe ::
  "('a Segment \<Rightarrow> nat \<Rightarrow> 'a AllTypeVariant) \<Rightarrow> ('k option \<times> RowID) list
   \<Rightarrow> ('k option \<times> RowID) list \<Rightarrow> JoinMode \<Rightarrow> 'a Table \<Rightarrow> 'a Table \<Rightarrow> JoinPredicate list
   \<Rightarrow> error + (PosList \<times> PosList)" where
  "probe segment_at radix_right hashtable mode left right additional_join_predicates =
     (if \<exists>pred \<in> set additional_join_predicates. predicate_condition pred \<noteq> Equals
      then Inl DebugAssertFailed
      else
        let matches = surviving_pairs segment_at hashtable left right additional_join_predicates;
            outer = (mode = Left \<or> mode = Right \<or> mode = Outer);
            emitted = concat (map (\<lambda>probe_row.
                                if matches probe_row = [] \<and> outer
                                then [(NULL_ROW_ID, snd probe_row)]
                                else matches probe_row)
                              radix_right);
            unmatched_build =
              (if mode = Outer
               then map (\<lambda>build_row. (snd build_row, NULL_ROW_ID))
                        (filter (\<lambda>build_row. \<forall>probe_row \<in> set radix_right.
                                   (snd build_row, snd probe_row) \<notin> set (matches probe_row))
                                hashtable)
               else []);
            pairs = emitted @ unmatched_build
        in Inr (map fst pairs, map snd pairs))"

text \<open>
  Modelled from the spec: \<open>probe_semi_anti\<close> for one partition. A semi join emits a
  probe row once if any match exists, an anti join emits it iff no match exists (a NULL
  key matches nothing and thus qualifies); a match is a candidate pair that survives the
  additional predicates. The result is the right (probe) position list.
\<close>

definition probe_semi_anti ::
  "('a Segment \<Rightarrow> nat \<Rightarrow> 'a AllTypeVariant) \<Rightarrow> ('k option \<times> RowID) list
   \<Rightarrow> ('k option \<times> RowID) list \<Rightarrow> JoinMode \<Rightarrow> 'a Table \<Rightarrow> 'a Table \<Rightarrow> JoinPredicate list
   \<Rightarrow> error + PosList" where
  "probe_semi_anti segment_at radix_right hashtable mode left right additional_join_predicates =
     (if \<exists>pred \<in> set additional_join_predicates. predicate_condition pred \<noteq> Equals
      then Inl DebugAssertFailed
      else
        let matches = surviving_pairs segment_at hashtable left right additional_join_predicates
        in Inr (map snd (filter (\<lambda>probe_row. (matches probe_row \<noteq> []) = (mode = Semi))
                                radix_right)))"

text \<open>
  The probe phase of \<open>JoinHashImpl::_on_execute\<close> for one partition: a semi or anti join
  calls \<open>probe_semi_anti\<close>, which fills the right position list only, and every other
  mode calls \<open>probe\<close>. (The two calls of \<open>probe\<close> in the source differ in a template
  parameter that says whether the materialization kept the NULL keys of the probe side;
  the materialized rows are parameters here.)
\<close>

definition JoinHashImpl_probe_phase ::
  "('a Segment \<Rightarrow> nat \<Rightarrow> 'a AllTypeVariant) \<Rightarrow> ('k option \<times> RowID) list
   \<Rightarrow> ('k option \<times> RowID) list \<Rightarrow> JoinMode \<Rightarrow> 'a Table \<Rightarrow> 'a Table \<Rightarrow> JoinPredicate list
   \<Rightarrow> error + (PosList \<times> PosList)" where
  "JoinHashImpl_probe_phase segment_at radix_right hashtable mode left_in_table right_in_table
       additional_join_predicates =
     (if mode = Semi \<or> mode = Anti then
        (case probe_semi_anti segment_at radix_right hashtable mode left_in_table right_in_table
                additional_join_predicates of
           Inl e \<Rightarrow> Inl e
         | Inr right_pos_list \<Rightarrow> Inr ([], right_pos_list))
      else probe segment_at radix_right hashtable mode left_in_table right_in_table
             additional_join_predicates)"

text \<open>A segment access for running the model: value segments only.\<close>

fun value_segment_at :: "'a Segment \<Rightarrow> nat \<Rightarrow> 'a AllTypeVariant" where
  "value_segment_at (ValueSegment vs) i = vs ! i"
| "value_segment_at (ReferenceSegment t c pl) i = None"

section \<open>Hash join: output assembly (JoinHashImpl::\_on\_execute)\<close>

text \<open>
  Modelled from the spec: \<open>write_output_segments\<close> (join\_hash\_steps.hpp) converts a
  position list into one reference segment per column of the input table and, if the
  input is already a reference table, dereferences the position list against the
  underlying data table; the sort-merge join uses the same reference-segment assembly.
\<close>

definition write_output_segments ::
  "'a Segment list \<Rightarrow> 'a Table \<Rightarrow> PosList \<Rightarrow> error + 'a Segment list" where
  "write_output_segments output_segments input_table pos_list0 =
     add_output_segments output_segments input_table pos_list0"

text \<open>
  The loop of \<open>JoinHashImpl::_on_execute\<close> over the partitions, after the probe phase:
  a partition whose two position lists are empty is skipped; the columns of the inputs
  are written in their original order, and a semi or anti join writes the probe side
  only.
\<close>

definition hash_output_chunk ::
  "bool \<Rightarrow> JoinMode \<Rightarrow> 'a Table \<Rightarrow> 'a Table \<Rightarrow> PosList \<Rightarrow> PosList \<Rightarrow> error + 'a Segment list" where
  "hash_output_chunk swapped mode left_in_table right_in_table left right =
     (let only_output_right_input = (swapped \<and> (mode = Semi \<or> mode = Anti))
      in if swapped then
           (case write_output_segments [] right_in_table right of
              Inl e \<Rightarrow> Inl e
            | Inr output_segments \<Rightarrow>
                if \<not> only_output_right_input
                then write_output_segments output_segments left_in_table left
                else Inr output_segments)
         else
           (case write_output_segments [] left_in_table left of
              Inl e \<Rightarrow> Inl e
            | Inr output_segments \<Rightarrow> write_output_segments output_segments right_in_table right))"

fun hash_output_chunks ::
  "bool \<Rightarrow> JoinMode \<Rightarrow> 'a Table \<Rightarrow> 'a Table \<Rightarrow> PosList list \<Rightarrow> PosList list \<Rightarrow> nat list
   \<Rightarrow> error + 'a Segment list list" where
  "hash_output_chunks swapped mode left_in_table right_in_table left_pos_lists right_pos_lists [] =
     Inr []"
| "hash_output_chunks swapped mode left_in_table right_in_table left_pos_lists right_pos_lists
       (partition_id # rest) =
     (let left = left_pos_lists ! partition_id;
          right = right_pos_lists ! partition_id
      in if left = [] \<and> right = [] then
           hash_output_chunks swapped mode left_in_table right_in_table
             left_pos_lists right_pos_lists rest
         else
           (case hash_output_chunk swapped mode left_in_table right_in_table left right of
              Inl e \<Rightarrow> Inl e
            | Inr chunk \<Rightarrow>
                (case hash_output_chunks swapped mode left_in_table right_in_table
                        left_pos_lists right_pos_lists rest of
                   Inl e \<Rightarrow> Inl e
                 | Inr output_chunks \<Rightarrow> Inr (chunk # output_chunks))))"

definition hash_join_output ::
  "bool \<Rightarrow> JoinMode \<Rightarrow> 'a Table \<Rightarrow> 'a Table \<Rightarrow> PosList list \<Rightarrow> PosList list
   \<Rightarrow> error + 'a Segment list list" where
  "hash_join_output swapped mode left_in_table right_in_table left_pos_lists right_pos_lists =
     hash_output_chunks swapped mode left_in_table right_in_table left_pos_lists right_pos_lists
       [0..<length left_pos_lists]"

text \<open>The position lists of one column of a reference table, chunk by chunk.\<close>

definition input_pos_lists_of :: "'a Table \<Rightarrow> ColumnID \<Rightarrow> PosList list" where
  "input_pos_lists_of input_table column_id =
     map (\<lambda>chunk. pos_list (chunk ! column_id)) (chunks input_table)"

definition dereferenced :: "'a Table \<Rightarrow> ColumnID \<Rightarrow> PosList \<Rightarrow> PosList" where
  "dereferenced input_table column_id pos_list0 =
     map (\<lambda>row. if is_null row then NULL_ROW_ID
                 else input_pos_lists_of input_table column_id ! chunk_id row ! chunk_offset row)
         pos_list0"

text \<open>The segment that \<open>_add_output_segments\<close> writes for one column.\<close>

definition output_segment_of :: "'a Table \<Rightarrow> PosList \<Rightarrow> ColumnID \<Rightarrow> 'a Segment" where
  "output_segment_of t pl column_id =
     (if table_type t = References then
        (if chunks t \<noteq> [] then
           ReferenceSegment (referenced_table (chunks t ! 0 ! column_id))
             (referenced_column_id (chunks t ! 0 ! column_id)) (dereferenced t column_id pl)
         else ReferenceSegment (create_dummy_table t) column_id pl)
      else ReferenceSegment t column_id pl)"

text \<open>A data table of two columns and a reference table over it, for running the model.\<close>

definition example_data_table :: "nat Table" where
  "example_data_table =
     Table Data 2 [[ValueSegment [Some 10, Some 20], ValueSegment [Some 1, None]]]"

definition example_reference_table :: "nat Table" where
  "example_reference_table =
     Table References 2
       [[ReferenceSegment example_data_table 0 [row_id 0 1, row_id 0 0],
         ReferenceSegment example_data_table 1 [row_id 0 1, row_id 0 0]]]"

text \<open>Two data tables of two columns and the keys of their first columns.\<close>

definition example_build_table :: "nat Table" where
  "example_build_table =
     Table Data 2 [[ValueSegment [Some 1, Some 1, Some 2], ValueSegment [Some 7, None, Some 9]]]"

definition example_probe_table :: "nat Table" where
  "example_probe_table =
     Table Data 2 [[ValueSegment [Some 1, Some 2, None], ValueSegment [Some 7, Some 8, None]],
                   [ValueSegment [Some 1], ValueSegment [None]]]"

definition example_build_rows :: "(nat option \<times> RowID) list" where
  "example_build_rows = [(Some 1, row_id 0 0), (Some 1, row_id 0 1), (Some 2, row_id 0 2)]"

definition example_probe_rows :: "(nat option \<times> RowID) list" where
  "example_probe_rows =
     [(Some 1, row_id 0 0), (Some 2, row_id 0 1), (None, row_id 0 2), (Some 1, row_id 1 0)]"

section \<open>Join partners\<close>

text \<open>When a pair of join values satisfies the predicate condition of the join.\<close>

fun predicate_holds :: "PredicateCondition \<Rightarrow> ('a::linorder) \<Rightarrow> 'a \<Rightarrow> bool" where
  "predicate_holds Equals a b = (a = b)"
| "predicate_holds NotEquals a b = (a \<noteq> b)"
| "predicate_holds LessThan a b = (a < b)"
| "predicate_holds LessThanEquals a b = (a \<le> b)"
| "predicate_holds GreaterThan a b = (a > b)"
| "predicate_holds GreaterThanEquals a b = (a \<ge> b)"
| "predicate_holds _ a b = False"

definition rows_of :: "'a MaterializedSegmentList \<Rightarrow> 'a MaterializedValue set" where
  "rows_of table = (\<Union>c \<in> {..<length table}. set (table ! c))"

text \<open>
  Two entries of the output position lists are join partners if one of them is the
  padding \<open>NULL_ROW_ID\<close>, or if they are the row ids of a materialized left row and a
  materialized right row whose values satisfy the predicate.
\<close>

definition join_partner ::
  "PredicateCondition \<Rightarrow> ('a::linorder) MaterializedSegmentList \<Rightarrow> 'a MaterializedSegmentList
   \<Rightarrow> RowID \<Rightarrow> RowID \<Rightarrow> bool" where
  "join_partner op left_table right_table l r \<longleftrightarrow>
     l = NULL_ROW_ID \<or> r = NULL_ROW_ID
     \<or> (\<exists>lv rv. (lv, l) \<in> rows_of left_table \<and> (rv, r) \<in> rows_of right_table
                \<and> predicate_holds op lv rv)"

text \<open>
  What the merge relies on in the result of the clusterer: both sides have
  \<open>n\<close> clusters, every cluster is sorted by value, and for a predicate other than
  equality the clusters are ranges of values in ascending order, with the same bounds
  on both sides.
\<close>

definition clustered ::
  "PredicateCondition \<Rightarrow> nat \<Rightarrow> ('a::linorder) MaterializedSegmentList \<Rightarrow> 'a MaterializedSegmentList
   \<Rightarrow> bool" where
  "clustered op n left_table right_table \<longleftrightarrow>
     length left_table = n \<and> length right_table = n
     \<and> (\<forall>c < n. sorted (map value_of (left_table ! c)) \<and> sorted (map value_of (right_table ! c)))
     \<and> (op \<noteq> Equals \<longrightarrow>
          (\<forall>c c'. c < c' \<and> c' < n \<longrightarrow>
             (\<forall>x \<in> set (left_table ! c) \<union> set (right_table ! c).
              \<forall>y \<in> set (left_table ! c') \<union> set (right_table ! c'). value_of x < value_of y)))"

definition well_clustered :: "('a::linorder) JoinSortMergeImpl \<Rightarrow> bool" where
  "well_clustered impl \<longleftrightarrow>
     clustered (sm_op impl) (cluster_count impl) (sorted_left_table impl) (sorted_right_table impl)
     \<and> end_of_table (sorted_left_table impl) = Inr (end_of_left_table impl)
     \<and> end_of_table (sorted_right_table impl) = Inr (end_of_right_table impl)"

text \<open>
  The output position lists are aligned under a relation \<open>P\<close>: there are as many left
  lists as right lists, and each left list has the length of its right list and is
  related to it entry by entry.
\<close>

definition aligned :: "(RowID \<Rightarrow> RowID \<Rightarrow> bool) \<Rightarrow> JoinOutput \<Rightarrow> bool" where
  "aligned P out \<longleftrightarrow>
     length (output_pos_lists_left out) = length (output_pos_lists_right out)
     \<and> (\<forall>c < length (output_pos_lists_left out).
          list_all2 P (output_pos_lists_left out ! c) (output_pos_lists_right out ! c))"

text \<open>
  The pairs that \<open>_join_runs\<close> emits, in the order in which it emits them, in a mode
  that emits pairs.
\<close>

definition join_runs_pairs ::
  "'a JoinSortMergeImpl \<Rightarrow> TableRange \<Rightarrow> TableRange \<Rightarrow> CompareResult \<Rightarrow> (RowID \<times> RowID) list" where
  "join_runs_pairs impl left_run right_run compare_result =
     (let L = for_every_row_id (sorted_left_table impl);
          R = for_every_row_id (sorted_right_table impl);
          left_from_start = TablePosition_to (range_start left_run) (end_of_left_table impl);
          left_after = TablePosition_to (range_end left_run) (end_of_left_table impl);
          right_from_start = TablePosition_to (range_start right_run) (end_of_right_table impl);
          right_after = TablePosition_to (range_end right_run) (end_of_right_table impl)
      in
        if sm_op impl = Equals then
          (if compare_result = Equal then List.product (L left_run) (R right_run)
           else if compare_result = Less then
             (if sm_mode impl = Left \<or> sm_mode impl = Outer
              then map (\<lambda>l. (l, NULL_ROW_ID)) (L left_run) else [])
           else
             (if sm_mode impl = Right \<or> sm_mode impl = Outer
              then map (Pair NULL_ROW_ID) (R right_run) else []))
        else if sm_op impl = NotEquals then
          (if compare_result = Greater then List.product (L left_from_start) (R right_run)
           else if compare_result = Equal then
             List.product (L left_after) (R right_run) @ List.product (L left_run) (R right_after)
           else List.product (L left_run) (R right_from_start))
        else if sm_op impl = GreaterThan then
          (if compare_result = Greater then List.product (L left_from_start) (R right_run)
           else if compare_result = Equal then List.product (L left_after) (R right_run)
           else [])
        else if sm_op impl = GreaterThanEquals then
          (if compare_result = Greater \<or> compare_result = Equal
           then List.product (L left_from_start) (R right_run) else [])
        else if sm_op impl = LessThan then
          (if compare_result = Less then List.product (L left_run) (R right_from_start)
           else if compare_result = Equal then List.product (L left_run) (R right_after)
           else [])
        else if sm_op impl = LessThanEquals then
          (if compare_result = Less \<or> compare_result = Equal
           then List.product (L left_run) (R right_from_start) else [])
        else [])"

definition partner_if_clustered :: "('a::linorder) JoinSortMergeImpl \<Rightarrow> RowID \<Rightarrow> RowID \<Rightarrow> bool" where
  "partner_if_clustered impl l r \<longleftrightarrow>
     (well_clustered impl \<longrightarrow>
        join_partner (sm_op impl) (sorted_left_table impl) (sorted_right_table impl) l r)"

section \<open>Small inputs for running the model\<close>

text \<open>The materialization of a column of one chunk without NULLs, already sorted.\<close>

definition single_chunk :: "'a list \<Rightarrow> 'a MaterializedSegment" where
  "single_chunk vs = map (\<lambda>i. (vs ! i, row_id 0 i)) [0..<length vs]"

definition one_cluster_output :: "nat list \<Rightarrow> nat list \<Rightarrow> nat RadixClusterOutput" where
  "one_cluster_output ls rs =
     \<lparr>clusters_left = [single_chunk ls], clusters_right = [single_chunk rs],
      output_null_rows_left = [], output_null_rows_right = []\<rparr>"

definition one_cluster_impl ::
  "PredicateCondition \<Rightarrow> JoinMode \<Rightarrow> nat list \<Rightarrow> nat list \<Rightarrow> nat JoinSortMergeImpl" where
  "one_cluster_impl op mode ls rs =
     \<lparr>sorted_left_table = [single_chunk ls], sorted_right_table = [single_chunk rs],
      null_rows_left = [], null_rows_right = [], left_column = [map Some ls],
      sm_op = op, sm_mode = mode, cluster_count = 1,
      end_of_left_table = \<lparr>cluster = 0, index = length ls\<rparr>,
      end_of_right_table = \<lparr>cluster = 0, index = length rs\<rparr>\<rparr>"

definition empty_output :: "nat \<Rightarrow> JoinOutput" where
  "empty_output n =
     \<lparr>output_pos_lists_left = replicate n [], output_pos_lists_right = replicate n []\<rparr>"

section \<open>Theorems\<close>

subsection \<open>Task state machine\<close>

lemma try_transition_to_state: "fst (try_transition_to s n) = n"
  by (simp add: try_transition_to_def)

lemma try_transition_to_entered:
  "try_transition_to s n = (s', Inr True) \<Longrightarrow> s' = n \<and> legal_transition s n"
  by (cases n; cases s) (simp_all add: try_transition_to_def legal_transition_def)

lemma try_transition_to_refused:
  "try_transition_to s n = (s', Inr False) \<Longrightarrow> s' = s \<and> idempotent_reentry s n"
  by (cases n; cases s) (simp_all add: try_transition_to_def idempotent_reentry_def)

lemma run_transitions_legal_path:
  "run_transitions s reqs = Inr states \<Longrightarrow> legal_path s states"
proof (induction reqs arbitrary: s states)
  case Nil
  then show ?case by simp
next
  case (Cons n rest)
  obtain s' res where step: "try_transition_to s n = (s', res)"
    by (cases "try_transition_to s n")
  from Cons.prems step obtain entered tl where
    res: "res = Inr entered" and
    tl: "run_transitions s' rest = Inr tl" and
    states: "states = (if entered then s' # tl else tl)"
    by (auto split: sum.splits)
  have path: "legal_path s' tl"
    using Cons.IH [OF tl] .
  show ?case
  proof (cases entered)
    case True
    with step res have "try_transition_to s n = (s', Inr True)" by simp
    then have "s' = n \<and> legal_transition s n"
      by (rule try_transition_to_entered)
    with path states True show ?thesis by simp
  next
    case False
    with step res have "try_transition_to s n = (s', Inr False)" by simp
    then have "s' = s \<and> idempotent_reentry s n"
      by (rule try_transition_to_refused)
    with path states False show ?thesis by simp
  qed
qed

lemma legal_path_from_Done: "legal_path Done ts \<Longrightarrow> ts = []"
  by (cases ts) (simp_all add: legal_transition_def)

lemma legal_path_from_Started: "legal_path Started ts \<Longrightarrow> ts = [] \<or> ts = [Done]"
  by (cases ts) (auto simp: legal_transition_def dest: legal_path_from_Done)

lemma legal_path_from_AssignedToWorker:
  "legal_path AssignedToWorker ts \<Longrightarrow> prefix ts [Started, Done]"
  by (cases ts) (auto simp: legal_transition_def dest: legal_path_from_Started)

lemma legal_path_from_Enqueued:
  "legal_path Enqueued ts \<Longrightarrow> prefix ts [AssignedToWorker, Started, Done]"
  by (cases ts) (auto simp: legal_transition_def dest: legal_path_from_AssignedToWorker)

lemma legal_path_from_Scheduled:
  "legal_path Scheduled ts \<Longrightarrow>
     prefix ts [Enqueued, AssignedToWorker, Started, Done] \<or> prefix ts [Started, Done]"
  by (cases ts)
     (auto simp: legal_transition_def dest: legal_path_from_Enqueued legal_path_from_Started)

lemma legal_path_from_Created:
  "legal_path Created ts \<Longrightarrow>
     prefix (Created # ts) full_life_queued \<or> prefix (Created # ts) full_life_direct"
  by (cases ts)
     (auto simp: legal_transition_def full_life_queued_def full_life_direct_def
           dest: legal_path_from_Scheduled)

text \<open>
  C6. The states a task enters, starting from \<open>Created\<close> and as long as no assertion
  fails, form a prefix of Created, Scheduled, Enqueued, AssignedToWorker, Started, Done
  or of Created, Scheduled, Started, Done. A request for \<open>Enqueued\<close> in state
  \<open>Enqueued\<close>, or for \<open>AssignedToWorker\<close> in state \<open>AssignedToWorker\<close>, returns
  false and leaves the state as it is. Every request along an edge of the graph returns
  true, and every other request fails an assertion.
\<close>

theorem task_state_machine:
  "(run_transitions Created reqs = Inr states \<longrightarrow>
      prefix (Created # states) full_life_queued \<or> prefix (Created # states) full_life_direct)
   \<and> try_transition_to Enqueued Enqueued = (Enqueued, Inr False)
   \<and> try_transition_to AssignedToWorker AssignedToWorker = (AssignedToWorker, Inr False)
   \<and> (legal_transition s n \<longrightarrow> try_transition_to s n = (n, Inr True))
   \<and> (\<not> legal_transition s n \<and> \<not> idempotent_reentry s n \<longrightarrow>
        (\<exists>e. snd (try_transition_to s n) = Inl e))"
proof (intro conjI impI)
  assume "run_transitions Created reqs = Inr states"
  then show "prefix (Created # states) full_life_queued \<or> prefix (Created # states) full_life_direct"
    by (rule legal_path_from_Created [OF run_transitions_legal_path])
next
  show "try_transition_to Enqueued Enqueued = (Enqueued, Inr False)"
    by (simp add: try_transition_to_def)
next
  show "try_transition_to AssignedToWorker AssignedToWorker = (AssignedToWorker, Inr False)"
    by (simp add: try_transition_to_def)
next
  assume "legal_transition s n"
  then show "try_transition_to s n = (n, Inr True)"
    by (cases n; cases s) (simp_all add: try_transition_to_def legal_transition_def)
next
  assume "\<not> legal_transition s n \<and> \<not> idempotent_reentry s n"
  then show "\<exists>e. snd (try_transition_to s n) = Inl e"
    by (cases n; cases s)
       (simp_all add: try_transition_to_def legal_transition_def idempotent_reentry_def)
qed

theorem task_state_machine_witness:
  "run_transitions Created [Scheduled, Enqueued, Enqueued, AssignedToWorker, Started, Done]
     = Inr [Scheduled, Enqueued, AssignedToWorker, Started, Done]
   \<and> prefix (Created # [Scheduled, Enqueued, AssignedToWorker, Started, Done]) full_life_queued
   \<and> legal_transition Scheduled Started
   \<and> try_transition_to Scheduled Started = (Started, Inr True)
   \<and> \<not> legal_transition Enqueued Started \<and> \<not> idempotent_reentry Enqueued Started
   \<and> (\<exists>e. snd (try_transition_to Enqueued Started) = Inl e)"
  using task_state_machine
    [of "[Scheduled, Enqueued, Enqueued, AssignedToWorker, Started, Done]"
        "[Scheduled, Enqueued, AssignedToWorker, Started, Done]" Scheduled Started]
    task_state_machine [of "[]" "[]" Enqueued Started]
  by (simp add: try_transition_to_def legal_transition_def idempotent_reentry_def
        full_life_queued_def)

subsection \<open>Dependencies after scheduling\<close>

text \<open>
  C7 asks that \<open>set_as_predecessor_of\<close> fails for a task in any state after
  \<open>Created\<close>. \<open>is_scheduled\<close> names only Scheduled, AssignedToWorker and Started, so a
  task that is Enqueued (or Done) passes the assertion: the dependency is recorded and
  the successor's counter of pending predecessors is raised.
\<close>

theorem set_as_predecessor_of_enqueued_accepted:
  "\<exists>tasks'. set_as_predecessor_of ((\<lambda>_. new_task)(0 := new_task\<lparr>state := Enqueued\<rparr>)) 0 1 = Inr tasks'
      \<and> pending_predecessors (tasks' 1) = 1 \<and> successors (tasks' 0) = [1]
      \<and> predecessors (tasks' 1) = [0]"
  by (simp add: set_as_predecessor_of_def is_scheduled_def new_task_def Let_def)

subsection \<open>Hash join: input swapping\<close>

text \<open>
  C3. The inputs of a hash join are swapped in modes Left, Semi and Anti, and otherwise
  exactly when the left input has more rows than the right one. When they are swapped
  the build side is the right input, the probe side the left input, the primary column
  pair is exchanged, and every additional predicate has its column pair exchanged and
  its condition flipped by \<open>flip_predicate_condition\<close>; when they are not, all of these
  are passed on as given. The primary predicate condition is passed on unchanged in
  both cases.
\<close>

theorem hash_join_input_swapping:
  "inputs_swapped (JoinHash_on_execute flip mode column_ids cond preds l r)
      = (mode = Left \<or> mode = Semi \<or> mode = Anti \<or> l > r)
   \<and> impl_predicate_condition (JoinHash_on_execute flip mode column_ids cond preds l r) = cond
   \<and> (inputs_swapped (JoinHash_on_execute flip mode column_ids cond preds l r) \<longrightarrow>
        build_operator (JoinHash_on_execute flip mode column_ids cond preds l r) = InputRight
        \<and> probe_operator (JoinHash_on_execute flip mode column_ids cond preds l r) = InputLeft
        \<and> adjusted_column_ids (JoinHash_on_execute flip mode column_ids cond preds l r)
            = (snd column_ids, fst column_ids)
        \<and> impl_additional_join_predicates (JoinHash_on_execute flip mode column_ids cond preds l r)
            = map (swap_predicate flip) preds)
   \<and> (\<not> inputs_swapped (JoinHash_on_execute flip mode column_ids cond preds l r) \<longrightarrow>
        build_operator (JoinHash_on_execute flip mode column_ids cond preds l r) = InputLeft
        \<and> probe_operator (JoinHash_on_execute flip mode column_ids cond preds l r) = InputRight
        \<and> adjusted_column_ids (JoinHash_on_execute flip mode column_ids cond preds l r) = column_ids
        \<and> impl_additional_join_predicates (JoinHash_on_execute flip mode column_ids cond preds l r)
            = preds)"
  unfolding JoinHash_on_execute_def swap_predicate_def
  by (auto simp: Let_def split: if_splits)

theorem hash_join_input_swapping_witness:
  "inputs_swapped (JoinHash_on_execute flip_example Inner (0, 1) Equals
       [\<lparr>column_id_pair = (2, 3), predicate_condition = LessThan\<rparr>] 5 3)
   \<and> impl_additional_join_predicates (JoinHash_on_execute flip_example Inner (0, 1) Equals
       [\<lparr>column_id_pair = (2, 3), predicate_condition = LessThan\<rparr>] 5 3)
       = [\<lparr>column_id_pair = (3, 2), predicate_condition = GreaterThan\<rparr>]
   \<and> \<not> inputs_swapped (JoinHash_on_execute flip_example Right (0, 1) Equals
       [\<lparr>column_id_pair = (2, 3), predicate_condition = LessThan\<rparr>] 3 5)
   \<and> impl_additional_join_predicates (JoinHash_on_execute flip_example Right (0, 1) Equals
       [\<lparr>column_id_pair = (2, 3), predicate_condition = LessThan\<rparr>] 3 5)
       = [\<lparr>column_id_pair = (2, 3), predicate_condition = LessThan\<rparr>]"
  using hash_join_input_swapping
    [of flip_example Inner "(0, 1)" Equals
        "[\<lparr>column_id_pair = (2, 3), predicate_condition = LessThan\<rparr>]" 5 3]
    hash_join_input_swapping
    [of flip_example Right "(0, 1)" Equals
        "[\<lparr>column_id_pair = (2, 3), predicate_condition = LessThan\<rparr>]" 3 5]
  by (simp add: swap_predicate_def)

subsection \<open>Emitting pairs\<close>

lemma emit_pairs_Nil [simp]: "emit_pairs c [] out = out"
  by (simp add: emit_pairs_def)

lemma emit_pairs_append:
  "emit_pairs c (ps @ qs) out = emit_pairs c qs (emit_pairs c ps out)"
  by (cases "c < length (output_pos_lists_left out)"; cases "c < length (output_pos_lists_right out)")
     (simp_all add: emit_pairs_def list_update_beyond)

lemma emit_combination_pairs: "emit_combination c l r out = emit_pairs c [(l, r)] out"
  by (simp add: emit_combination_def push_back_left_def push_back_right_def emit_pairs_def)

lemma fold_emit_right:
  "fold (\<lambda>r. emit_combination c l r) rs out = emit_pairs c (map (Pair l) rs) out"
proof (induction rs arbitrary: out)
  case Nil
  then show ?case by simp
next
  case (Cons r rs)
  have "emit_pairs c (map (Pair l) (r # rs)) out
          = emit_pairs c (map (Pair l) rs) (emit_pairs c [(l, r)] out)"
    using emit_pairs_append [of c "[(l, r)]" "map (Pair l) rs" out] by simp
  with Cons show ?case by (simp add: emit_combination_pairs)
qed

lemma fold_emit_left:
  "fold (\<lambda>l. emit_combination c l r) ls out = emit_pairs c (map (\<lambda>l. (l, r)) ls) out"
proof (induction ls arbitrary: out)
  case Nil
  then show ?case by simp
next
  case (Cons l ls)
  have "emit_pairs c (map (\<lambda>l. (l, r)) (l # ls)) out
          = emit_pairs c (map (\<lambda>l. (l, r)) ls) (emit_pairs c [(l, r)] out)"
    using emit_pairs_append [of c "[(l, r)]" "map (\<lambda>l. (l, r)) ls" out] by simp
  with Cons show ?case by (simp add: emit_combination_pairs)
qed

lemma fold_emit_product:
  "fold (\<lambda>l. fold (\<lambda>r. emit_combination c l r) rs) ls out = emit_pairs c (List.product ls rs) out"
proof (induction ls arbitrary: out)
  case Nil
  then show ?case by simp
next
  case (Cons l ls)
  then show ?case by (simp add: fold_emit_right emit_pairs_append)
qed

lemma emit_all_combinations_pairs:
  "sm_mode impl \<noteq> Semi \<Longrightarrow> sm_mode impl \<noteq> Anti \<Longrightarrow>
   emit_all_combinations impl c lr rr out
     = emit_pairs c (List.product (for_every_row_id (sorted_left_table impl) lr)
                                  (for_every_row_id (sorted_right_table impl) rr)) out"
  by (simp add: emit_all_combinations_def fold_emit_product)

lemma emit_right_null_combinations_pairs:
  "emit_right_null_combinations impl c lr out
     = emit_pairs c (map (\<lambda>l. (l, NULL_ROW_ID)) (for_every_row_id (sorted_left_table impl) lr)) out"
  by (simp add: emit_right_null_combinations_def fold_emit_left)

lemma emit_left_null_combinations_pairs:
  "emit_left_null_combinations impl c rr out
     = emit_pairs c (map (Pair NULL_ROW_ID) (for_every_row_id (sorted_right_table impl) rr)) out"
  by (simp add: emit_left_null_combinations_def fold_emit_right)

subsection \<open>The merge step of the predicate \<open>>\<close>\<close>

lemmas run_model =
  one_cluster_impl_def one_cluster_output_def single_chunk_def empty_output_def row_id_def
  JoinSortMergeImpl_on_execute_def end_of_table_def perform_join_def join_cluster_def
  join_cluster_body_def join_runs_def run_length_def compare_def TableRange3_def
  TablePosition_to_def emit_all_combinations_def emit_left_null_combinations_def
  emit_right_null_combinations_def emit_combination_def push_back_left_def
  push_back_right_def for_every_row_id_def left_outer_non_equi_join_def
  right_outer_non_equi_join_def table_min_value_def table_max_value_def
  first_value_that_satisfies_def first_value_that_satisfies_reverse_def table_begin_def
  apply_table_row_def advance_runs_def emission_pairs_def emit_pairs_def
  remove_row_ids_from_materialized_segment_def accessor_access_def Let_def upt_rec

text \<open>
  C2, as the specification's table states it, fails in each of its three cells: for
  equal runs the merge emits \<open>L_after \<times> R\<close> (here nothing) and advances both runs, for
  a smaller left run it advances the left run, and for a greater left run it emits
  \<open>L_from_start \<times> R\<close> and advances the right run.
\<close>

theorem merge_GreaterThan_spec_row_counterexample:
  "join_cluster_body (one_cluster_impl GreaterThan Inner [1] [1]) 0 0 0 1 1 (empty_output 1)
     \<noteq> Inr (apply_table_row (one_cluster_impl GreaterThan Inner [1] [1]) 0 0 0 1 1 (empty_output 1)
              (spec_row_GreaterThan (compare (1::nat) 1)))
   \<and> join_cluster_body (one_cluster_impl GreaterThan Inner [1] [2]) 0 0 0 1 1 (empty_output 1)
     \<noteq> Inr (apply_table_row (one_cluster_impl GreaterThan Inner [1] [2]) 0 0 0 1 1 (empty_output 1)
              (spec_row_GreaterThan (compare (1::nat) 2)))
   \<and> join_cluster_body (one_cluster_impl GreaterThan Inner [2] [1]) 0 0 0 1 1 (empty_output 1)
     \<noteq> Inr (apply_table_row (one_cluster_impl GreaterThan Inner [2] [1]) 0 0 0 1 1 (empty_output 1)
              (spec_row_GreaterThan (compare (2::nat) 1)))"
  by (simp add: run_model)

text \<open>
  C2, amended. In a sort-merge join with predicate \<open>>\<close> (in a mode that emits pairs),
  one step of the merge on the current runs does the following. If the runs compare
  Equal it emits \<open>L_after \<times> R\<close> and advances both runs; if Less it emits nothing and
  advances the left run; if Greater it emits \<open>L_from_start \<times> R\<close> and advances the right
  run.
\<close>

theorem merge_GreaterThan_step:
  assumes "sm_op impl = GreaterThan" and "sm_mode impl \<noteq> Semi" and "sm_mode impl \<noteq> Anti"
  shows "join_cluster_body impl c ls rs le re out =
           Inr (apply_table_row impl c ls rs le re out
                  (merge_row_GreaterThan
                     (compare (value_of (sorted_left_table impl ! c ! ls))
                              (value_of (sorted_right_table impl ! c ! rs)))))"
proof (cases "compare (value_of (sorted_left_table impl ! c ! ls))
                      (value_of (sorted_right_table impl ! c ! rs))")
  case Less
  with assms show ?thesis
    by (simp add: join_cluster_body_def join_runs_def apply_table_row_def advance_runs_def
        emission_pairs_def Let_def)
next
  case Greater
  with assms show ?thesis
    by (simp add: join_cluster_body_def join_runs_def apply_table_row_def advance_runs_def
        emission_pairs_def Let_def emit_all_combinations_pairs TableRange3_def TablePosition_to_def)
next
  case Equal
  with assms show ?thesis
    by (simp add: join_cluster_body_def join_runs_def apply_table_row_def advance_runs_def
        emission_pairs_def Let_def emit_all_combinations_pairs TableRange3_def TablePosition_to_def)
qed

theorem merge_GreaterThan_step_witness:
  "sm_op (one_cluster_impl GreaterThan Inner [2, 5] [1]) = GreaterThan
   \<and> join_cluster_body (one_cluster_impl GreaterThan Inner [2, 5] [1]) 0 0 0 1 1 (empty_output 1)
     = Inr (0, 1, 1, 1,
            \<lparr>output_pos_lists_left = [[row_id 0 0, row_id 0 1]],
             output_pos_lists_right = [[row_id 0 0, row_id 0 0]]\<rparr>)"
  using merge_GreaterThan_step
    [of "one_cluster_impl GreaterThan Inner [2, 5] [1]" 0 0 0 1 1 "empty_output 1"]
  by (simp add: run_model)

subsection \<open>Supported combinations of mode and predicate\<close>

lemma join_runs_total:
  assumes "sm_op impl \<in> {Equals, NotEquals, LessThan, LessThanEquals, GreaterThan, GreaterThanEquals}"
  shows "\<exists>out'. join_runs impl lr rr cr out = Inr out'"
  using assms by (auto simp: join_runs_def Let_def)

lemma join_cluster_body_total:
  assumes "sm_op impl \<in> {Equals, NotEquals, LessThan, LessThanEquals, GreaterThan, GreaterThanEquals}"
  shows "\<exists>st. join_cluster_body impl c ls rs le re out = Inr st"
proof -
  obtain out' where
    "join_runs impl (TableRange3 c ls le) (TableRange3 c rs re)
       (compare (value_of (sorted_left_table impl ! c ! ls))
                (value_of (sorted_right_table impl ! c ! rs))) out = Inr out'"
    using join_runs_total [OF assms] by blast
  then show ?thesis
    by (simp add: join_cluster_body_def Let_def)
qed

lemma join_cluster_loop_total:
  assumes "sm_op impl \<in> {Equals, NotEquals, LessThan, LessThanEquals, GreaterThan, GreaterThanEquals}"
  shows "\<exists>st. join_cluster_loop impl c ls rs le re out = Inr st"
  using assms
proof (induction impl c ls rs le re out rule: join_cluster_loop.induct)
  case (1 impl c ls rs le re out)
  show ?case
  proof (cases "ls < length (sorted_left_table impl ! c) \<and> rs < length (sorted_right_table impl ! c)")
    case False
    then show ?thesis by auto
  next
    case True
    obtain ls' rs' le' re' out' where
      body: "join_cluster_body impl c ls rs le re out = Inr (ls', rs', le', re', out')"
      using join_cluster_body_total [OF "1.prems", of c ls rs le re out]
      by (metis prod_cases5)
    have "\<exists>st. join_cluster_loop impl c ls' rs' le' re' out' = Inr st"
      using "1.IH" [OF True body refl refl refl refl "1.prems"] .
    with True body show ?thesis by simp
  qed
qed

lemma join_cluster_total:
  assumes "sm_op impl \<in> {Equals, NotEquals, LessThan, LessThanEquals, GreaterThan, GreaterThanEquals}"
    and "sm_mode impl \<noteq> Anti"
  shows "\<exists>out'. join_cluster impl c out = Inr out'"
proof -
  obtain ls rs out1 where
    loop: "join_cluster_loop impl c 0 0 (0 + run_length 0 (sorted_left_table impl ! c))
             (0 + run_length 0 (sorted_right_table impl ! c)) out = Inr (ls, rs, out1)"
    using join_cluster_loop_total [OF assms(1)] by (metis prod_cases3)
  obtain out2 where
    "(if ls < length (sorted_left_table impl ! c)
      then join_runs impl (TableRange3 c ls (length (sorted_left_table impl ! c)))
             (TableRange3 c rs (length (sorted_right_table impl ! c))) Less out1
      else if rs < length (sorted_right_table impl ! c)
      then join_runs impl (TableRange3 c ls (length (sorted_left_table impl ! c)))
             (TableRange3 c rs (length (sorted_right_table impl ! c))) Greater out1
      else Inr out1) = Inr out2"
    using join_runs_total [OF assms(1)] by (metis (full_types))
  with loop assms(2) show ?thesis
    by (simp add: join_cluster_def Let_def)
qed

lemma perform_join_clusters_total:
  assumes "sm_op impl \<in> {Equals, NotEquals, LessThan, LessThanEquals, GreaterThan, GreaterThanEquals}"
    and "sm_mode impl \<noteq> Anti"
  shows "\<exists>out'. perform_join_clusters impl cs out = Inr out'"
proof (induction cs arbitrary: out)
  case Nil
  then show ?case by simp
next
  case (Cons c cs)
  let ?out0 = "out\<lparr>output_pos_lists_left := (output_pos_lists_left out)[c := []],
                    output_pos_lists_right := (output_pos_lists_right out)[c := []]\<rparr>"
  obtain out1 where "join_cluster impl c ?out0 = Inr out1"
    using join_cluster_total [OF assms] by blast
  then show ?case
    using Cons.IH [of out1] Cons.IH [of ?out0] by (simp add: Let_def)
qed

lemma table_min_value_total:
  assumes "sm_op impl \<noteq> Equals" and "\<exists>p \<in> set t. p \<noteq> []"
  shows "\<exists>v. table_min_value impl t = Inr v"
proof -
  from assms(2) have "t \<noteq> []" by auto
  moreover from assms(2) have "find (\<lambda>p. p \<noteq> []) t \<noteq> None"
    by (auto simp: find_None_iff)
  ultimately show ?thesis
    using assms(1) by (auto simp: table_min_value_def)
qed

lemma table_max_value_total:
  assumes "sm_op impl \<noteq> Equals" and "\<exists>p \<in> set t. p \<noteq> []"
  shows "\<exists>v. table_max_value impl t = Inr v"
proof -
  from assms(2) have "t \<noteq> []" by auto
  moreover from assms(2) obtain i where "i < length t" "t ! i \<noteq> []"
    by (auto simp: in_set_conv_nth)
  then have "find (\<lambda>i. t ! i \<noteq> []) (rev [0..<length t]) \<noteq> None"
    by (auto simp: find_None_iff)
  ultimately show ?thesis
    using assms(1) by (auto simp: table_max_value_def)
qed

lemma end_of_table_total: "t \<noteq> [] \<Longrightarrow> \<exists>p. end_of_table t = Inr p"
  by (simp add: end_of_table_def Let_def)

lemma left_outer_non_equi_join_total:
  assumes "sm_op impl \<noteq> Equals" and "\<exists>p \<in> set (sorted_left_table impl). p \<noteq> []"
    and "sorted_right_table impl \<noteq> []"
  shows "\<exists>out'. left_outer_non_equi_join impl out = Inr out'"
proof -
  obtain lo where lo: "table_min_value impl (sorted_left_table impl) = Inr lo"
    using table_min_value_total [OF assms(1,2)] by blast
  obtain hi where hi: "table_max_value impl (sorted_left_table impl) = Inr hi"
    using table_max_value_total [OF assms(1,2)] by blast
  obtain e where e: "end_of_table (sorted_right_table impl) = Inr e"
    using end_of_table_total [OF assms(3)] by blast
  show ?thesis
    by (simp add: left_outer_non_equi_join_def lo hi e split: option.split)
qed

lemma right_outer_non_equi_join_total:
  assumes "sm_op impl \<noteq> Equals" and "\<exists>p \<in> set (sorted_right_table impl). p \<noteq> []"
    and "sorted_left_table impl \<noteq> []"
  shows "\<exists>out'. right_outer_non_equi_join impl out = Inr out'"
proof -
  obtain lo where lo: "table_min_value impl (sorted_right_table impl) = Inr lo"
    using table_min_value_total [OF assms(1,2)] by blast
  obtain hi where hi: "table_max_value impl (sorted_right_table impl) = Inr hi"
    using table_max_value_total [OF assms(1,2)] by blast
  obtain e where e: "end_of_table (sorted_left_table impl) = Inr e"
    using end_of_table_total [OF assms(3)] by blast
  show ?thesis
    by (simp add: right_outer_non_equi_join_def lo hi e split: option.split)
qed

lemma perform_join_total:
  assumes "sm_op impl \<in> {NotEquals, LessThan, LessThanEquals, GreaterThan, GreaterThanEquals}"
    and "sm_mode impl \<noteq> Anti"
    and "\<exists>p \<in> set (sorted_left_table impl). p \<noteq> []"
    and "\<exists>p \<in> set (sorted_right_table impl). p \<noteq> []"
  shows "\<exists>out'. perform_join impl out = Inr out'"
proof -
  have six: "sm_op impl \<in> {Equals, NotEquals, LessThan, LessThanEquals, GreaterThan, GreaterThanEquals}"
    and ne: "sm_op impl \<noteq> Equals"
    using assms(1) by auto
  from assms(3,4) have nonempty: "sorted_left_table impl \<noteq> []" "sorted_right_table impl \<noteq> []"
    by auto
  obtain out1 where out1: "perform_join_clusters impl [0..<cluster_count impl] out = Inr out1"
    using perform_join_clusters_total [OF six assms(2)] by blast
  obtain out2 where out2:
    "(if (sm_mode impl = Left \<or> sm_mode impl = Outer) \<and> sm_op impl \<noteq> Equals
      then left_outer_non_equi_join impl out1 else Inr out1) = Inr out2"
    using left_outer_non_equi_join_total [OF ne assms(3) nonempty(2), of out1]
    by (metis (full_types))
  obtain out3 where
    "(if (sm_mode impl = Right \<or> sm_mode impl = Outer) \<and> sm_op impl \<noteq> Equals
      then right_outer_non_equi_join impl out2 else Inr out2) = Inr out3"
    using right_outer_non_equi_join_total [OF ne assms(4) nonempty(1), of out2]
    by (metis (full_types))
  with out1 out2 show ?thesis
    by (simp add: perform_join_def)
qed

text \<open>
  C5, as stated, fails: a full Outer join with the predicate \<open><\<close> passes every check
  of the constructor, and its execution returns the joined position lists.
\<close>

theorem outer_non_equi_counterexample:
  "\<not> ((\<exists>e. JoinSortMerge_new (Some ()) (Some ()) Outer LessThan = Inl e)
      \<or> (\<exists>e. JoinSortMergeImpl_on_execute LessThan Outer 1 [[Some 1, Some 3]]
                (one_cluster_output [1, 3] [2, 4]) = Inl e))"
  by (simp add: JoinSortMerge_new_def run_model)

text \<open>
  C5, amended. The constructor of the sort-merge join accepts exactly these
  combinations (anything else is a contract violation): the mode is not Cross, both
  inputs are given, the predicate condition is one of \<open>=\<close>, \<open>\<noteq>\<close>, \<open><\<close>, \<open>\<le>\<close>, \<open>>\<close>,
  \<open>\<ge>\<close>, Semi and Anti come with \<open>=\<close> only, and \<open>\<noteq>\<close> comes with Inner only. A full
  Outer join is therefore accepted with \<open><\<close>, \<open>\<le>\<close>, \<open>>\<close> and \<open>\<ge>\<close> as well as with
  \<open>=\<close>, and its execution completes whenever each clustered input has a row.
\<close>

theorem sort_merge_supported_combinations:
  "(JoinSortMerge_new left right mode op = Inr () \<longleftrightarrow>
      left \<noteq> None \<and> right \<noteq> None \<and> mode \<noteq> Cross
      \<and> (mode = Semi \<or> mode = Anti \<longrightarrow> op = Equals)
      \<and> op \<in> {Equals, NotEquals, LessThan, LessThanEquals, GreaterThan, GreaterThanEquals}
      \<and> (op = NotEquals \<longrightarrow> mode = Inner))
   \<and> (JoinSortMerge_new left right mode op \<noteq> Inr () \<longrightarrow>
        JoinSortMerge_new left right mode op = Inl DebugAssertFailed)
   \<and> (op \<in> {LessThan, LessThanEquals, GreaterThan, GreaterThanEquals}
        \<and> (\<exists>p \<in> set (clusters_left so). p \<noteq> []) \<and> (\<exists>p \<in> set (clusters_right so). p \<noteq> [])
        \<longrightarrow> JoinSortMerge_new (Some l) (Some r) Outer op = Inr ()
            \<and> (\<exists>out. JoinSortMergeImpl_on_execute op Outer n col so = Inr out))"
proof (intro conjI impI)
  show "JoinSortMerge_new left right mode op = Inr () \<longleftrightarrow>
      left \<noteq> None \<and> right \<noteq> None \<and> mode \<noteq> Cross
      \<and> (mode = Semi \<or> mode = Anti \<longrightarrow> op = Equals)
      \<and> op \<in> {Equals, NotEquals, LessThan, LessThanEquals, GreaterThan, GreaterThanEquals}
      \<and> (op = NotEquals \<longrightarrow> mode = Inner)"
    by (auto simp: JoinSortMerge_new_def)
next
  assume "JoinSortMerge_new left right mode op \<noteq> Inr ()"
  then show "JoinSortMerge_new left right mode op = Inl DebugAssertFailed"
    by (auto simp: JoinSortMerge_new_def split: if_splits)
next
  assume a: "op \<in> {LessThan, LessThanEquals, GreaterThan, GreaterThanEquals}
        \<and> (\<exists>p \<in> set (clusters_left so). p \<noteq> []) \<and> (\<exists>p \<in> set (clusters_right so). p \<noteq> [])"
  then show "JoinSortMerge_new (Some l) (Some r) Outer op = Inr ()"
    by (auto simp: JoinSortMerge_new_def)
  from a have nonempty: "clusters_left so \<noteq> []" "clusters_right so \<noteq> []"
    by auto
  obtain el where el: "end_of_table (clusters_left so) = Inr el"
    using end_of_table_total [OF nonempty(1)] by blast
  obtain er where er: "end_of_table (clusters_right so) = Inr er"
    using end_of_table_total [OF nonempty(2)] by blast
  let ?impl = "\<lparr>sorted_left_table = clusters_left so,
                   sorted_right_table = clusters_right so,
                   null_rows_left = output_null_rows_left so,
                   null_rows_right = output_null_rows_right so,
                   left_column = col, sm_op = op, sm_mode = Outer,
                   cluster_count = n,
                   end_of_left_table = el, end_of_right_table = er\<rparr>"
  have "\<exists>out'. perform_join ?impl
          \<lparr>output_pos_lists_left = replicate n [], output_pos_lists_right = replicate n []\<rparr> = Inr out'"
    by (rule perform_join_total) (use a in auto)
  then show "\<exists>out. JoinSortMergeImpl_on_execute op Outer n col so = Inr out"
    by (auto simp: JoinSortMergeImpl_on_execute_def el er Let_def)
qed

theorem sort_merge_supported_combinations_witness:
  "JoinSortMerge_new (Some ()) (Some ()) Outer GreaterThan = Inr ()
   \<and> (\<exists>out. JoinSortMergeImpl_on_execute GreaterThan Outer 1 [[Some 1, Some 3]]
               (one_cluster_output [1, 3] [2, 4]) = Inr out)
   \<and> JoinSortMerge_new (Some ()) (Some ()) Semi LessThan = Inl DebugAssertFailed
   \<and> JoinSortMerge_new (Some ()) (Some ()) Left NotEquals = Inl DebugAssertFailed"
  using sort_merge_supported_combinations
    [where left = "Some ()" and right = "Some ()" and mode = Outer and op = GreaterThan
       and so = "one_cluster_output [1, 3] [2, 4]" and l = "()" and r = "()" and n = 1
       and col = "[[Some 1, Some 3]]"]
    sort_merge_supported_combinations
    [where left = "Some ()" and right = "Some ()" and mode = Semi and op = LessThan
       and so = "one_cluster_output [1, 3] [2, 4]" and l = "()" and r = "()" and n = 1
       and col = "[[Some 1, Some 3]]"]
    sort_merge_supported_combinations
    [where left = "Some ()" and right = "Some ()" and mode = Left and op = NotEquals
       and so = "one_cluster_output [1, 3] [2, 4]" and l = "()" and r = "()" and n = 1
       and col = "[[Some 1, Some 3]]"]
  by (simp add: one_cluster_output_def single_chunk_def)


subsection \<open>Output segments reference data tables\<close>

lemma those_map_Some:
  "(\<And>x. x \<in> set xs \<Longrightarrow> f x = Some (g x)) \<Longrightarrow> those (map f xs) = Some (map g xs)"
  by (induction xs) simp_all

lemma reference_segment_cases:
  assumes "references_data_table seg"
  obtains t c pl where "seg = ReferenceSegment t c pl" and "table_type t = Data"
  using assms by (cases seg) (simp_all add: references_data_table_def)

lemma dereference_pos_list_valid:
  assumes "valid_input_table t" and "table_type t = References" and "column_id < column_count t"
  shows "dereference_pos_list t column_id pl = Inr (dereferenced t column_id pl)"
proof -
  have "(case chunk ! column_id of ReferenceSegment _ _ p \<Rightarrow> Some p | ValueSegment _ \<Rightarrow> None)
          = Some (pos_list (chunk ! column_id))"
    if "chunk \<in> set (chunks t)" for chunk
  proof -
    from assms that have "chunk ! column_id \<in> set chunk" and "\<forall>seg \<in> set chunk. references_data_table seg"
      by (auto simp: valid_input_table_def)
    then have "references_data_table (chunk ! column_id)" by blast
    then show ?thesis by (rule reference_segment_cases) simp
  qed
  then have "those (map (\<lambda>chunk. case chunk ! column_id of
                                   ReferenceSegment _ _ p \<Rightarrow> Some p | ValueSegment _ \<Rightarrow> None)
                        (chunks t))
               = Some (input_pos_lists_of t column_id)"
    unfolding input_pos_lists_of_def by (rule those_map_Some)
  then show ?thesis
    by (simp add: dereference_pos_list_def dereferenced_def)
qed

lemma output_segment_of_references_data_table:
  assumes "valid_input_table t" and "column_id < column_count t"
  shows "references_data_table (output_segment_of t pl column_id)"
proof (cases "table_type t")
  case Data
  then show ?thesis
    by (simp add: output_segment_of_def references_data_table_def)
next
  case References
  show ?thesis
  proof (cases "chunks t")
    case Nil
    with References show ?thesis
      by (simp add: output_segment_of_def references_data_table_def create_dummy_table_def)
  next
    case (Cons chunk rest)
    with assms References have "chunk ! column_id \<in> set chunk"
      and "\<forall>seg \<in> set chunk. references_data_table seg"
      by (auto simp: valid_input_table_def)
    then have "references_data_table (chunk ! column_id)" by blast
    then show ?thesis
      using References Cons
      by (elim reference_segment_cases)
         (simp add: output_segment_of_def references_data_table_def)
  qed
qed

lemma add_output_segments_columns_valid:
  assumes "valid_input_table t" and "\<forall>column_id \<in> set cols. column_id < column_count t"
  shows "add_output_segments_columns t pl cols segs = Inr (segs @ map (output_segment_of t pl) cols)"
  using assms(2)
proof (induction cols arbitrary: segs)
  case Nil
  then show ?case by simp
next
  case (Cons column_id cols)
  then have lt: "column_id < column_count t" and rest: "\<forall>c \<in> set cols. c < column_count t"
    by simp_all
  note IH = Cons.IH [OF rest]
  show ?case
  proof (cases "table_type t")
    case Data
    then show ?thesis
      by (simp add: IH output_segment_of_def)
  next
    case References
    note deref = dereference_pos_list_valid [OF assms(1) References lt]
    show ?thesis
    proof (cases "chunks t")
      case Nil
      with References show ?thesis
        by (simp add: IH deref output_segment_of_def chunk_count_def)
    next
      case (Cons chunk more)
      with assms(1) References lt have "chunk ! column_id \<in> set chunk"
        and "\<forall>seg \<in> set chunk. references_data_table seg"
        by (auto simp: valid_input_table_def)
      then have "references_data_table (chunk ! column_id)" by blast
      then show ?thesis
        using References Cons
        by (elim reference_segment_cases)
           (simp add: IH deref output_segment_of_def chunk_count_def)
    qed
  qed
qed

lemma add_output_segments_valid:
  assumes "valid_input_table t"
  shows "add_output_segments segs t pl
           = Inr (segs @ map (output_segment_of t pl) [0..<column_count t])"
  unfolding add_output_segments_def
  by (rule add_output_segments_columns_valid [OF assms]) simp

lemma output_segments_reference_data_tables:
  assumes "valid_input_table t"
  shows "\<forall>seg \<in> set (map (output_segment_of t pl) [0..<column_count t]). references_data_table seg"
  using output_segment_of_references_data_table [OF assms] by auto

lemma write_output_chunk_valid:
  assumes "valid_input_table l" and "valid_input_table r"
  shows "\<exists>chunk. write_output_chunk mode l r out i = Inr chunk
            \<and> (\<forall>seg \<in> set chunk. references_data_table seg)"
  using output_segments_reference_data_tables [OF assms(1)]
        output_segments_reference_data_tables [OF assms(2)]
  by (auto simp: write_output_chunk_def add_output_segments_valid [OF assms(1)]
        add_output_segments_valid [OF assms(2)])

lemma write_output_chunks_valid:
  assumes "valid_input_table l" and "valid_input_table r"
  shows "\<exists>cs. write_output_chunks mode l r out ids = Inr cs \<and> length cs = length ids
            \<and> (\<forall>chunk \<in> set cs. \<forall>seg \<in> set chunk. references_data_table seg)"
proof (induction ids)
  case Nil
  then show ?case by simp
next
  case (Cons i ids)
  obtain chunk where "write_output_chunk mode l r out i = Inr chunk"
    and "\<forall>seg \<in> set chunk. references_data_table seg"
    using write_output_chunk_valid [OF assms] by blast
  moreover obtain cs where "write_output_chunks mode l r out ids = Inr cs"
    and "length cs = length ids"
    and "\<forall>chunk \<in> set cs. \<forall>seg \<in> set chunk. references_data_table seg"
    using Cons.IH by blast
  ultimately show ?case by simp
qed

lemma hash_output_chunk_valid:
  assumes "valid_input_table l" and "valid_input_table r"
  shows "\<exists>chunk. hash_output_chunk swapped mode l r lp rp = Inr chunk
            \<and> (\<forall>seg \<in> set chunk. references_data_table seg)"
  using output_segments_reference_data_tables [OF assms(1)]
        output_segments_reference_data_tables [OF assms(2)]
  by (auto simp: hash_output_chunk_def write_output_segments_def Let_def
        add_output_segments_valid [OF assms(1)] add_output_segments_valid [OF assms(2)])

lemma hash_output_chunks_valid:
  assumes "valid_input_table l" and "valid_input_table r"
  shows "\<exists>cs. hash_output_chunks swapped mode l r lps rps ids = Inr cs
            \<and> (\<forall>chunk \<in> set cs. \<forall>seg \<in> set chunk. references_data_table seg)"
proof (induction ids)
  case Nil
  then show ?case by simp
next
  case (Cons i ids)
  obtain chunk where "hash_output_chunk swapped mode l r (lps ! i) (rps ! i) = Inr chunk"
    and "\<forall>seg \<in> set chunk. references_data_table seg"
    using hash_output_chunk_valid [OF assms] by blast
  moreover obtain cs where "hash_output_chunks swapped mode l r lps rps ids = Inr cs"
    and "\<forall>chunk \<in> set cs. \<forall>seg \<in> set chunk. references_data_table seg"
    using Cons.IH by blast
  ultimately show ?case by (simp add: Let_def)
qed

text \<open>
  C9. If the two input tables satisfy the invariant of the data model (a table of type
  References holds reference segments to data tables), then the output chunks of the
  sort-merge join are written without failure, one chunk per output position list, and
  every segment of every chunk is a reference segment that references a data table;
  the same holds for the chunks that the hash join assembles. For an input table of
  type References the position list of an output segment is the given position list
  dereferenced against the position lists of the input's column, entry by entry, with
  \<open>NULL_ROW_ID\<close> kept, and the referenced table and column are those of the input's own
  reference segment.
\<close>

theorem join_output_references_data_tables:
  assumes "valid_input_table left_table" and "valid_input_table right_table"
  shows "(\<exists>cs. result_chunks_of mode left_table right_table out = Inr cs
             \<and> length cs = length (output_pos_lists_left out)
             \<and> (\<forall>chunk \<in> set cs. \<forall>seg \<in> set chunk. references_data_table seg))
       \<and> (\<exists>cs. hash_join_output swapped mode left_table right_table lps rps = Inr cs
             \<and> (\<forall>chunk \<in> set cs. \<forall>seg \<in> set chunk. references_data_table seg))
       \<and> add_output_segments [] left_table pl
           = Inr (map (output_segment_of left_table pl) [0..<column_count left_table])
       \<and> (table_type left_table = References \<and> chunks left_table \<noteq> [] \<longrightarrow>
            (\<forall>column_id < column_count left_table.
               output_segment_of left_table pl column_id
                 = ReferenceSegment
                     (referenced_table (chunks left_table ! 0 ! column_id))
                     (referenced_column_id (chunks left_table ! 0 ! column_id))
                     (dereferenced left_table column_id pl)))"
proof (intro conjI)
  show "\<exists>cs. result_chunks_of mode left_table right_table out = Inr cs
             \<and> length cs = length (output_pos_lists_left out)
             \<and> (\<forall>chunk \<in> set cs. \<forall>seg \<in> set chunk. references_data_table seg)"
    using write_output_chunks_valid [OF assms, of mode out "[0..<length (output_pos_lists_left out)]"]
    by (simp add: result_chunks_of_def)
  show "\<exists>cs. hash_join_output swapped mode left_table right_table lps rps = Inr cs
             \<and> (\<forall>chunk \<in> set cs. \<forall>seg \<in> set chunk. references_data_table seg)"
    unfolding hash_join_output_def by (rule hash_output_chunks_valid [OF assms])
  show "add_output_segments [] left_table pl
           = Inr (map (output_segment_of left_table pl) [0..<column_count left_table])"
    using add_output_segments_valid [OF assms(1), of "[]" pl] by simp
  show "table_type left_table = References \<and> chunks left_table \<noteq> [] \<longrightarrow>
            (\<forall>column_id < column_count left_table.
               output_segment_of left_table pl column_id
                 = ReferenceSegment
                     (referenced_table (chunks left_table ! 0 ! column_id))
                     (referenced_column_id (chunks left_table ! 0 ! column_id))
                     (dereferenced left_table column_id pl))"
    by (simp add: output_segment_of_def)
qed

theorem join_output_references_data_tables_witness:
  "valid_input_table example_reference_table \<and> valid_input_table example_data_table
   \<and> result_chunks_of Left example_reference_table example_data_table
        \<lparr>output_pos_lists_left = [[row_id 0 0, row_id 0 1]],
         output_pos_lists_right = [[row_id 0 1, NULL_ROW_ID]]\<rparr>
     = Inr [[ReferenceSegment example_data_table 0 [row_id 0 1, row_id 0 0],
             ReferenceSegment example_data_table 1 [row_id 0 1, row_id 0 0],
             ReferenceSegment example_data_table 0 [row_id 0 1, NULL_ROW_ID],
             ReferenceSegment example_data_table 1 [row_id 0 1, NULL_ROW_ID]]]
   \<and> add_output_segments [] example_reference_table [NULL_ROW_ID, row_id 0 0]
     = Inr [ReferenceSegment example_data_table 0 [NULL_ROW_ID, row_id 0 1],
            ReferenceSegment example_data_table 1 [NULL_ROW_ID, row_id 0 1]]"
proof -
  have v1: "valid_input_table example_reference_table"
    by (simp add: valid_input_table_def example_reference_table_def example_data_table_def
        references_data_table_def)
  have v2: "valid_input_table example_data_table"
    by (simp add: valid_input_table_def example_data_table_def)
  have nn: "\<not> is_null (row_id 0 0)" "\<not> is_null (row_id 0 1)"
    "\<not> is_null (row_id 0 (Suc 0))" "is_null NULL_ROW_ID"
    by (simp_all add: is_null_def row_id_def NULL_ROW_ID_def INVALID_CHUNK_OFFSET_def)
  have sel: "chunk_id (row_id c i) = c" "chunk_offset (row_id c i) = i" for c i
    by (simp_all add: row_id_def)
  have ref: "table_type example_reference_table = References"
    "column_count example_reference_table = 2"
    "chunks example_reference_table
       = [[ReferenceSegment example_data_table 0 [row_id 0 1, row_id 0 0],
           ReferenceSegment example_data_table 1 [row_id 0 1, row_id 0 0]]]"
    by (simp_all add: example_reference_table_def)
  have dat: "table_type example_data_table = Data" "column_count example_data_table = 2"
    by (simp_all add: example_data_table_def)
  note inst = join_output_references_data_tables [OF v1 v2]
  have "add_output_segments [] example_reference_table [NULL_ROW_ID, row_id 0 0]
     = Inr [ReferenceSegment example_data_table 0 [NULL_ROW_ID, row_id 0 1],
            ReferenceSegment example_data_table 1 [NULL_ROW_ID, row_id 0 1]]"
    using inst [of Left "empty_output 1" False "[]" "[]" "[NULL_ROW_ID, row_id 0 0]"]
    by (simp add: ref output_segment_of_def dereferenced_def
        input_pos_lists_of_def nn sel upt_rec)
  moreover have "result_chunks_of Left example_reference_table example_data_table
        \<lparr>output_pos_lists_left = [[row_id 0 0, row_id 0 1]],
         output_pos_lists_right = [[row_id 0 1, NULL_ROW_ID]]\<rparr>
     = Inr [[ReferenceSegment example_data_table 0 [row_id 0 1, row_id 0 0],
             ReferenceSegment example_data_table 1 [row_id 0 1, row_id 0 0],
             ReferenceSegment example_data_table 0 [row_id 0 1, NULL_ROW_ID],
             ReferenceSegment example_data_table 1 [row_id 0 1, NULL_ROW_ID]]]"
    by (simp add: result_chunks_of_def write_output_chunk_def
        add_output_segments_valid [OF v1] add_output_segments_valid [OF v2]
        output_segment_of_def dereferenced_def input_pos_lists_of_def nn sel upt_rec
        ref dat)
  ultimately show ?thesis using v1 v2 by simp
qed

subsection \<open>Hash join: the filter of the additional predicates\<close>

lemma row_pair_satisfies_predicates_Equals:
  assumes "\<forall>pred \<in> set preds. predicate_condition pred = Equals"
  shows "row_pair_satisfies_predicates segment_at left l right r preds
           = Inr (predicates_hold segment_at left right preds (l, r))"
  using assms by (induction preds) (simp_all add: predicates_hold_def Let_def)

lemma verify_rows_Equals:
  assumes "\<forall>pred \<in> set preds. predicate_condition pred = Equals"
  shows "verify_rows segment_at left lrows right rrows preds ids lsel rsel
           = Inr (lsel @ map ((!) lrows)
                           (filter (\<lambda>i. predicates_hold segment_at left right preds
                                           (lrows ! i, rrows ! i)) ids),
                  rsel @ map ((!) rrows)
                           (filter (\<lambda>i. predicates_hold segment_at left right preds
                                           (lrows ! i, rrows ! i)) ids))"
  by (induction ids arbitrary: lsel rsel)
     (simp_all add: row_pair_satisfies_predicates_Equals [OF assms] Let_def)

lemma zip_as_index_map:
  "length xs = length ys \<Longrightarrow> zip xs ys = map (\<lambda>i. (xs ! i, ys ! i)) [0..<length xs]"
  by (rule nth_equalityI) simp_all

lemma filter_zip_by_index:
  assumes "length xs = length ys"
  shows "map fst (filter P (zip xs ys)) = map ((!) xs) (filter (\<lambda>i. P (xs ! i, ys ! i)) [0..<length xs])"
    and "map snd (filter P (zip xs ys)) = map ((!) ys) (filter (\<lambda>i. P (xs ! i, ys ! i)) [0..<length xs])"
  by (simp_all add: zip_as_index_map [OF assms] filter_map comp_def)

lemma apply_additional_join_predicates_filter:
  assumes "join_predicates \<noteq> []"
    and "\<forall>pred \<in> set join_predicates. predicate_condition pred = Equals"
    and "length lrows = length rrows"
  shows "apply_additional_join_predicates segment_at left lrows right rrows join_predicates
           = Inr (map fst (filter (predicates_hold segment_at left right join_predicates)
                                   (zip lrows rrows)),
                  map snd (filter (predicates_hold segment_at left right join_predicates)
                                   (zip lrows rrows)))"
  using assms(1,3)
  by (simp add: apply_additional_join_predicates_def verify_rows_Equals [OF assms(2)]
      filter_zip_by_index [OF assms(3)])

text \<open>
  The filter \<open>_apply_additional_join_predicates\<close> is written for two position lists of
  the same length: with the lists of a semi or anti join, where only the right list is
  filled, it fails its first assertion.
\<close>

lemma apply_additional_join_predicates_right_only:
  "right_rows \<noteq> [] \<Longrightarrow>
     apply_additional_join_predicates segment_at left [] right right_rows join_predicates
       = Inl DebugAssertFailed"
  by (simp add: apply_additional_join_predicates_def)

subsection \<open>Hash join: additional predicates in the probe phase\<close>

lemma candidate_pairs_snd:
  "pair \<in> set (candidate_pairs hashtable probe_row) \<Longrightarrow> snd pair = snd probe_row"
  by (auto simp: candidate_pairs_def)

lemma candidate_pairs_fst:
  "pair \<in> set (candidate_pairs hashtable probe_row) \<Longrightarrow> fst pair \<in> snd ` set hashtable"
  by (force simp: candidate_pairs_def)

lemma primary_hash_match_iff:
  "pair \<in> set (primary_hash_match hashtable radix_right) \<longleftrightarrow>
     (\<exists>probe_row \<in> set radix_right. pair \<in> set (candidate_pairs hashtable probe_row))"
  by (auto simp: primary_hash_match_def)

lemma surviving_pairs_iff:
  "pair \<in> set (surviving_pairs segment_at hashtable left right preds probe_row) \<longleftrightarrow>
     pair \<in> set (candidate_pairs hashtable probe_row)
     \<and> predicates_hold segment_at left right preds pair"
  by (simp add: surviving_pairs_def)

lemma surviving_pairs_empty_iff:
  "surviving_pairs segment_at hashtable left right preds probe_row = [] \<longleftrightarrow>
     \<not> (\<exists>build_row. (build_row, snd probe_row) \<in> set (candidate_pairs hashtable probe_row)
            \<and> predicates_hold segment_at left right preds (build_row, snd probe_row))"
proof -
  have "surviving_pairs segment_at hashtable left right preds probe_row = [] \<longleftrightarrow>
          (\<forall>pair \<in> set (candidate_pairs hashtable probe_row).
             \<not> predicates_hold segment_at left right preds pair)"
    by (simp add: surviving_pairs_def filter_empty_conv)
  also have "\<dots> \<longleftrightarrow> \<not> (\<exists>build_row. (build_row, snd probe_row) \<in> set (candidate_pairs hashtable probe_row)
            \<and> predicates_hold segment_at left right preds (build_row, snd probe_row))"
    using candidate_pairs_snd [of _ hashtable probe_row] by (metis prod.collapse)
  finally show ?thesis .
qed

lemma candidates_of_probe_row:
  assumes "distinct (map snd radix_right)" and "probe_row \<in> set radix_right"
  shows "(build_row, snd probe_row) \<in> set (primary_hash_match hashtable radix_right) \<longleftrightarrow>
           (build_row, snd probe_row) \<in> set (candidate_pairs hashtable probe_row)"
proof
  assume "(build_row, snd probe_row) \<in> set (primary_hash_match hashtable radix_right)"
  then obtain other where other: "other \<in> set radix_right"
    and mem: "(build_row, snd probe_row) \<in> set (candidate_pairs hashtable other)"
    by (auto simp: primary_hash_match_iff)
  from mem have "snd other = snd probe_row"
    using candidate_pairs_snd by fastforce
  with assms other have "other = probe_row"
    by (meson distinct_map inj_onD)
  with mem show "(build_row, snd probe_row) \<in> set (candidate_pairs hashtable probe_row)"
    by simp
next
  assume "(build_row, snd probe_row) \<in> set (candidate_pairs hashtable probe_row)"
  with assms(2) show "(build_row, snd probe_row) \<in> set (primary_hash_match hashtable radix_right)"
    by (auto simp: primary_hash_match_iff)
qed

lemma probe_pairs:
  assumes eq: "\<forall>pred \<in> set preds. predicate_condition pred = Equals"
    and build: "\<forall>row \<in> set hashtable. snd row \<noteq> NULL_ROW_ID"
    and probe: "\<forall>row \<in> set radix_right. snd row \<noteq> NULL_ROW_ID"
    and cand: "pair \<in> set (primary_hash_match hashtable radix_right)"
  shows "\<exists>left_pos_list right_pos_list.
           probe segment_at radix_right hashtable mode left right preds
             = Inr (left_pos_list, right_pos_list)
         \<and> length left_pos_list = length right_pos_list
         \<and> (pair \<in> set (zip left_pos_list right_pos_list)
              \<longleftrightarrow> predicates_hold segment_at left right preds pair)"
proof -
  define matches where "matches = surviving_pairs segment_at hashtable left right preds"
  define emit where "emit = (\<lambda>probe_row.
      if matches probe_row = [] \<and> (mode = Left \<or> mode = Right \<or> mode = Outer)
      then [(NULL_ROW_ID, snd probe_row)] else matches probe_row)"
  define unmatched where "unmatched =
      (if mode = Outer
       then map (\<lambda>build_row. (snd build_row, NULL_ROW_ID))
                (filter (\<lambda>build_row. \<forall>probe_row \<in> set radix_right.
                           (snd build_row, snd probe_row) \<notin> set (matches probe_row))
                        hashtable)
       else [])"
  define pairs where "pairs = concat (map emit radix_right) @ unmatched"
  have no_violation: "\<not> (\<exists>pred \<in> set preds. predicate_condition pred \<noteq> Equals)"
    using eq by blast
  have run: "probe segment_at radix_right hashtable mode left right preds
               = Inr (map fst pairs, map snd pairs)"
    by (simp only: probe_def Let_def no_violation if_False pairs_def unmatched_def emit_def
          matches_def)
  from cand obtain probe_row where pr: "probe_row \<in> set radix_right"
    and mem: "pair \<in> set (candidate_pairs hashtable probe_row)"
    by (auto simp: primary_hash_match_iff)
  from mem build have fst_ok: "fst pair \<noteq> NULL_ROW_ID"
    using candidate_pairs_fst by fastforce
  from mem pr probe have snd_ok: "snd pair \<noteq> NULL_ROW_ID"
    using candidate_pairs_snd by fastforce
  have not_unmatched: "pair \<notin> set unmatched"
    unfolding unmatched_def using snd_ok by auto
  have emitted: "pair \<in> set (emit row) \<longleftrightarrow> pair \<in> set (matches row)" for row
    unfolding emit_def using fst_ok by auto
  have "pair \<in> set pairs \<longleftrightarrow> (\<exists>row \<in> set radix_right. pair \<in> set (matches row))"
    unfolding pairs_def using not_unmatched emitted by auto
  also have "\<dots> \<longleftrightarrow> predicates_hold segment_at left right preds pair"
    unfolding matches_def using pr mem by (auto simp: surviving_pairs_iff)
  finally have kept: "pair \<in> set (zip (map fst pairs) (map snd pairs))
                  \<longleftrightarrow> predicates_hold segment_at left right preds pair"
    by (simp only: zip_map_fst_snd)
  have len: "length (map fst pairs) = length (map snd pairs)"
    by simp
  from run len kept show ?thesis
    by blast
qed

lemma probe_semi_anti_rows:
  assumes eq: "\<forall>pred \<in> set preds. predicate_condition pred = Equals"
    and dist: "distinct (map snd radix_right)"
    and cand: "pair \<in> set (primary_hash_match hashtable radix_right)"
  shows "\<exists>right_pos_list.
           probe_semi_anti segment_at radix_right hashtable mode left right preds
             = Inr right_pos_list
         \<and> (snd pair \<in> set right_pos_list \<longleftrightarrow>
              ((\<exists>build_row. (build_row, snd pair) \<in> set (primary_hash_match hashtable radix_right)
                   \<and> predicates_hold segment_at left right preds (build_row, snd pair))
               = (mode = Semi)))"
proof -
  let ?matches = "surviving_pairs segment_at hashtable left right preds"
  let ?kept = "filter (\<lambda>probe_row. (?matches probe_row \<noteq> []) = (mode = Semi)) radix_right"
  have no_violation: "\<not> (\<exists>pred \<in> set preds. predicate_condition pred \<noteq> Equals)"
    using eq by blast
  have run: "probe_semi_anti segment_at radix_right hashtable mode left right preds
               = Inr (map snd ?kept)"
    by (simp only: probe_semi_anti_def Let_def no_violation if_False)
  from cand obtain probe_row where pr: "probe_row \<in> set radix_right"
    and mem: "pair \<in> set (candidate_pairs hashtable probe_row)"
    by (auto simp: primary_hash_match_iff)
  from mem have p: "snd pair = snd probe_row"
    by (rule candidate_pairs_snd)
  have only: "row = probe_row" if "row \<in> set radix_right" "snd row = snd probe_row" for row
    using that pr dist by (meson distinct_map inj_onD)
  have "snd pair \<in> set (map snd ?kept) \<longleftrightarrow> (?matches probe_row \<noteq> []) = (mode = Semi)"
    unfolding p using pr only by auto
  also have "?matches probe_row \<noteq> [] \<longleftrightarrow>
      (\<exists>build_row. (build_row, snd pair) \<in> set (primary_hash_match hashtable radix_right)
          \<and> predicates_hold segment_at left right preds (build_row, snd pair))"
    unfolding p surviving_pairs_empty_iff candidates_of_probe_row [OF dist pr] by simp
  finally show ?thesis
    using run by blast
qed

text \<open>
  C1. With a non-empty list of additional join predicates, all of them equalities, the
  probe phase of the hash join returns in every join mode, and a candidate pair of the
  primary hash match is kept iff every additional predicate finds the two cited column
  values equal under strict equality (NULL equals nothing, so a pair with a NULL on either
  side of a predicate is removed). In the modes that emit pairs, the pair is among the
  pairs of the two position lists iff it passes all predicates. A semi join emits the
  probe row of the pair iff some candidate pair of this probe row passes all predicates,
  and an anti join emits it iff none does.
\<close>

theorem additional_predicates_in_every_mode:
  assumes "join_predicates \<noteq> []"
    and "\<forall>pred \<in> set join_predicates. predicate_condition pred = Equals"
    and "\<forall>row \<in> set hashtable. snd row \<noteq> NULL_ROW_ID"
    and "\<forall>row \<in> set radix_right. snd row \<noteq> NULL_ROW_ID"
    and "distinct (map snd radix_right)"
    and "pair \<in> set (primary_hash_match hashtable radix_right)"
  shows "\<exists>left_pos_list right_pos_list.
           JoinHashImpl_probe_phase segment_at radix_right hashtable mode left right
               join_predicates
             = Inr (left_pos_list, right_pos_list)
         \<and> (mode \<noteq> Semi \<and> mode \<noteq> Anti \<longrightarrow>
               length left_pos_list = length right_pos_list
               \<and> (pair \<in> set (zip left_pos_list right_pos_list)
                    \<longleftrightarrow> predicates_hold segment_at left right join_predicates pair))
         \<and> (mode = Semi \<longrightarrow>
               (snd pair \<in> set right_pos_list \<longleftrightarrow>
                  (\<exists>build_row. (build_row, snd pair) \<in> set (primary_hash_match hashtable radix_right)
                      \<and> predicates_hold segment_at left right join_predicates
                            (build_row, snd pair))))
         \<and> (mode = Anti \<longrightarrow>
               (snd pair \<in> set right_pos_list \<longleftrightarrow>
                  \<not> (\<exists>build_row. (build_row, snd pair) \<in> set (primary_hash_match hashtable radix_right)
                      \<and> predicates_hold segment_at left right join_predicates
                            (build_row, snd pair))))"
proof (cases "mode = Semi \<or> mode = Anti")
  case True
  from probe_semi_anti_rows [OF assms(2,5,6), of segment_at mode left right]
  obtain right_pos_list where
    run: "probe_semi_anti segment_at radix_right hashtable mode left right join_predicates
            = Inr right_pos_list"
    and kept: "snd pair \<in> set right_pos_list \<longleftrightarrow>
              ((\<exists>build_row. (build_row, snd pair) \<in> set (primary_hash_match hashtable radix_right)
                   \<and> predicates_hold segment_at left right join_predicates (build_row, snd pair))
               = (mode = Semi))"
    by blast
  have "JoinHashImpl_probe_phase segment_at radix_right hashtable mode left right
          join_predicates = Inr ([], right_pos_list)"
    using True by (simp add: JoinHashImpl_probe_phase_def run)
  with True kept show ?thesis
    by auto
next
  case False
  from probe_pairs [OF assms(2,3,4,6), of segment_at mode left right]
  obtain left_pos_list right_pos_list where
    "probe segment_at radix_right hashtable mode left right join_predicates
       = Inr (left_pos_list, right_pos_list)"
    "length left_pos_list = length right_pos_list"
    "pair \<in> set (zip left_pos_list right_pos_list)
       \<longleftrightarrow> predicates_hold segment_at left right join_predicates pair"
    by blast
  with False show ?thesis
    by (auto simp: JoinHashImpl_probe_phase_def)
qed

lemmas probe_model =
  JoinHashImpl_probe_phase_def probe_def probe_semi_anti_def surviving_pairs_def
  candidate_pairs_def primary_hash_match_def predicates_hold_def variant_equal_def
  example_build_rows_def example_probe_rows_def example_build_table_def
  example_probe_table_def row_id_def NULL_ROW_ID_def INVALID_CHUNK_ID_def
  INVALID_CHUNK_OFFSET_def Let_def

theorem additional_predicates_in_every_mode_witness:
  "JoinHashImpl_probe_phase value_segment_at example_probe_rows example_build_rows Left
       example_build_table example_probe_table
       [\<lparr>column_id_pair = (1, 1), predicate_condition = Equals\<rparr>]
     = Inr ([row_id 0 0, NULL_ROW_ID, NULL_ROW_ID, NULL_ROW_ID],
            [row_id 0 0, row_id 0 1, row_id 0 2, row_id 1 0])
   \<and> JoinHashImpl_probe_phase value_segment_at example_probe_rows example_build_rows Semi
       example_build_table example_probe_table
       [\<lparr>column_id_pair = (1, 1), predicate_condition = Equals\<rparr>]
     = Inr ([], [row_id 0 0])
   \<and> JoinHashImpl_probe_phase value_segment_at example_probe_rows example_build_rows Anti
       example_build_table example_probe_table
       [\<lparr>column_id_pair = (1, 1), predicate_condition = Equals\<rparr>]
     = Inr ([], [row_id 0 1, row_id 0 2, row_id 1 0])
   \<and> primary_hash_match example_build_rows example_probe_rows
     = [(row_id 0 0, row_id 0 0), (row_id 0 1, row_id 0 0), (row_id 0 2, row_id 0 1),
        (row_id 0 0, row_id 1 0), (row_id 0 1, row_id 1 0)]
   \<and> predicates_hold value_segment_at example_build_table example_probe_table
       [\<lparr>column_id_pair = (1, 1), predicate_condition = Equals\<rparr>] (row_id 0 0, row_id 0 0)
   \<and> \<not> predicates_hold value_segment_at example_build_table example_probe_table
       [\<lparr>column_id_pair = (1, 1), predicate_condition = Equals\<rparr>] (row_id 0 1, row_id 0 0)
   \<and> \<not> (\<exists>build_row. (build_row, row_id 1 0)
                \<in> set (primary_hash_match example_build_rows example_probe_rows)
            \<and> predicates_hold value_segment_at example_build_table example_probe_table
                 [\<lparr>column_id_pair = (1, 1), predicate_condition = Equals\<rparr>]
                 (build_row, row_id 1 0))"
proof -
  let ?preds = "[\<lparr>column_id_pair = (1, 1), predicate_condition = Equals\<rparr>]"
  let ?phase = "\<lambda>mode. JoinHashImpl_probe_phase value_segment_at example_probe_rows
                          example_build_rows mode example_build_table example_probe_table ?preds"
  have left: "?phase Left = Inr ([row_id 0 0, NULL_ROW_ID, NULL_ROW_ID, NULL_ROW_ID],
                                 [row_id 0 0, row_id 0 1, row_id 0 2, row_id 1 0])"
    by (simp add: probe_model)
  have semi: "?phase Semi = Inr ([], [row_id 0 0])"
    by (simp add: probe_model)
  have anti: "?phase Anti = Inr ([], [row_id 0 1, row_id 0 2, row_id 1 0])"
    by (simp add: probe_model)
  have cands: "primary_hash_match example_build_rows example_probe_rows
     = [(row_id 0 0, row_id 0 0), (row_id 0 1, row_id 0 0), (row_id 0 2, row_id 0 1),
        (row_id 0 0, row_id 1 0), (row_id 0 1, row_id 1 0)]"
    by (simp add: probe_model)
  have h1: "?preds \<noteq> []" and h2: "\<forall>pred \<in> set ?preds. predicate_condition pred = Equals"
    by simp_all
  have h3: "\<forall>row \<in> set example_build_rows. snd row \<noteq> NULL_ROW_ID"
    and h4: "\<forall>row \<in> set example_probe_rows. snd row \<noteq> NULL_ROW_ID"
    and h5: "distinct (map snd example_probe_rows)"
    by (simp_all add: probe_model)
  have c1: "(row_id 0 0, row_id 0 0) \<in> set (primary_hash_match example_build_rows example_probe_rows)"
    and c2: "(row_id 0 1, row_id 0 0) \<in> set (primary_hash_match example_build_rows example_probe_rows)"
    and c3: "(row_id 0 0, row_id 1 0) \<in> set (primary_hash_match example_build_rows example_probe_rows)"
    by (simp_all add: cands)
  have ne: "row_id 0 0 \<noteq> NULL_ROW_ID" "row_id 0 1 \<noteq> NULL_ROW_ID" "row_id 0 1 \<noteq> row_id 0 0"
    "row_id 0 2 \<noteq> row_id 1 0" "row_id 0 1 \<noteq> row_id 1 0" "row_id 1 0 \<noteq> row_id 0 0"
    by (simp_all add: row_id_def NULL_ROW_ID_def INVALID_CHUNK_ID_def)
  note inst = additional_predicates_in_every_mode [OF h1 h2 h3 h4 h5,
                where segment_at = value_segment_at and left = example_build_table
                  and right = example_probe_table]
  from inst [OF c1, of Left] left
  have p1: "predicates_hold value_segment_at example_build_table example_probe_table ?preds
              (row_id 0 0, row_id 0 0)"
    by simp
  from inst [OF c2, of Left] left ne
  have p2: "\<not> predicates_hold value_segment_at example_build_table example_probe_table ?preds
              (row_id 0 1, row_id 0 0)"
    by auto
  from inst [OF c3, of Anti] anti
  have p3: "\<not> (\<exists>build_row. (build_row, row_id 1 0)
                \<in> set (primary_hash_match example_build_rows example_probe_rows)
            \<and> predicates_hold value_segment_at example_build_table example_probe_table ?preds
                 (build_row, row_id 1 0))"
    by simp
  from left semi anti cands p1 p2 p3 show ?thesis
    by (intro conjI)
qed

subsection \<open>Sort-merge join: the output position lists are aligned\<close>

subsection \<open>Rows of a table range\<close>

lemma run_length_pos: "s < length xs \<Longrightarrow> 0 < run_length s xs"
  by (cases "drop s xs") (auto simp: run_length_def hd_drop_conv_nth nth_via_drop)

lemma run_length_le: "s \<le> length xs \<Longrightarrow> s + run_length s xs \<le> length xs"
proof -
  assume s: "s \<le> length xs"
  have "length (takeWhile P (drop s xs)) \<le> length xs - s" for P
    using length_takeWhile_le [of P "drop s xs"] by simp
  from this [of "\<lambda>b. \<not> value_of (xs ! s) < value_of b"] s
  have "s + length (takeWhile (\<lambda>b. \<not> value_of (xs ! s) < value_of b) (drop s xs)) \<le> length xs"
    by linarith
  with s show ?thesis
    by (simp add: run_length_def)
qed

lemma run_value:
  assumes "sorted (map value_of xs)" and "s < length xs"
    and "s \<le> i" and "i < s + run_length s xs"
  shows "value_of (xs ! i) = value_of (xs ! s)"
proof -
  let ?Q = "\<lambda>b. \<not> value_of (xs ! s) < value_of b"
  from assms(2,3,4) have i: "i - s < length (takeWhile ?Q (drop s xs))"
    by (simp add: run_length_def)
  then have "takeWhile ?Q (drop s xs) ! (i - s) \<in> set (takeWhile ?Q (drop s xs))"
    by (rule nth_mem)
  then have "?Q (takeWhile ?Q (drop s xs) ! (i - s))"
    by (rule set_takeWhileD [THEN conjunct2])
  moreover have "takeWhile ?Q (drop s xs) ! (i - s) = drop s xs ! (i - s)"
    using i by (rule takeWhile_nth)
  moreover have len: "i < length xs"
    using assms(2,4) run_length_le [of s xs] by simp
  ultimately have "\<not> value_of (xs ! s) < value_of (xs ! i)"
    using assms(3) by simp
  moreover have "value_of (xs ! s) \<le> value_of (xs ! i)"
    using sorted_nth_mono [OF assms(1), of s i] assms(3) len by simp
  ultimately show ?thesis by simp
qed

lemma sorted_value_mono:
  assumes "sorted (map value_of xs)" and "s \<le> i" and "i < length xs"
  shows "value_of (xs ! s) \<le> value_of (xs ! i)"
  using sorted_nth_mono [OF assms(1), of s i] assms(2,3) by simp

lemma after_run_value:
  assumes "sorted (map value_of xs)" and "s < length xs"
    and "s + run_length s xs \<le> i" and "i < length xs"
  shows "value_of (xs ! s) < value_of (xs ! i)"
proof -
  let ?Q = "\<lambda>b. \<not> value_of (xs ! s) < value_of b"
  let ?k = "length (takeWhile ?Q (drop s xs))"
  from assms(2) have k: "run_length s xs = ?k"
    by (simp add: run_length_def)
  with assms(3,4) have "?k < length (drop s xs)" by simp
  then have "\<not> ?Q (drop s xs ! ?k)"
    by (rule nth_length_takeWhile)
  moreover have "s + ?k < length xs"
    using assms(3,4) k by simp
  ultimately have "value_of (xs ! s) < value_of (xs ! (s + ?k))"
    by simp
  also have "\<dots> \<le> value_of (xs ! i)"
    using sorted_value_mono [OF assms(1), of "s + ?k" i] assms(3,4) k by simp
  finally show ?thesis .
qed

lemma for_every_row_id_run:
  "for_every_row_id table (TableRange3 c s e) = map (\<lambda>i. row_id_of (table ! c ! i)) [s..<e]"
  by (simp add: for_every_row_id_def TableRange3_def)

lemma in_run_rows:
  assumes "r \<in> set (for_every_row_id table (TableRange3 c s e))"
    and "e \<le> length (table ! c)" and "c < length table"
  obtains i where "s \<le> i" and "i < e" and "(value_of (table ! c ! i), r) \<in> rows_of table"
proof -
  from assms(1) obtain i where i: "s \<le> i" "i < e" "r = row_id_of (table ! c ! i)"
    by (auto simp: for_every_row_id_run)
  with assms(2) have "table ! c ! i \<in> set (table ! c)" by simp
  with assms(3) have "table ! c ! i \<in> rows_of table"
    by (auto simp: rows_of_def intro!: bexI [of _ c])
  with i that show thesis by (metis prod.collapse)
qed

lemma for_every_row_id_tail:
  assumes "end_of_table table = Inr e"
  shows "for_every_row_id table (TablePosition_to \<lparr>cluster = c, index = s\<rparr> e)
           = concat (map (\<lambda>c'. map (\<lambda>i. row_id_of (table ! c' ! i))
                                      [(if c' = c then s else 0)..<length (table ! c')])
                         [c..<length table])"
proof -
  from assms have e: "e = \<lparr>cluster = length table - 1, index = length (table ! (length table - 1))\<rparr>"
    and ne: "table \<noteq> []"
    by (auto simp: end_of_table_def Let_def split: if_splits)
  from ne have suc: "Suc (length table - 1) = length table" by simp
  have "for_every_row_id table (TablePosition_to \<lparr>cluster = c, index = s\<rparr> e)
          = concat (map (\<lambda>c'.
              let start_index = (if c' = c then s else 0);
                  end_index = (if c' = length table - 1 then length (table ! (length table - 1))
                               else length (table ! c'))
              in map (\<lambda>i. row_id_of (table ! c' ! i)) [start_index..<end_index])
            [c..<length table])"
    unfolding for_every_row_id_def TablePosition_to_def e
    by (simp only: TableRange.select_convs TablePosition.select_convs suc)
  also have "\<dots> = concat (map (\<lambda>c'. map (\<lambda>i. row_id_of (table ! c' ! i))
                                      [(if c' = c then s else 0)..<length (table ! c')])
                         [c..<length table])"
    by (intro arg_cong [where f = concat] map_cong refl) (simp add: Let_def)
  finally show ?thesis .
qed

lemma in_tail_rows:
  assumes "r \<in> set (for_every_row_id table (TablePosition_to \<lparr>cluster = c, index = s\<rparr> e))"
    and "end_of_table table = Inr e"
  obtains i where "s \<le> i" and "i < length (table ! c)" and "c < length table"
        and "(value_of (table ! c ! i), r) \<in> rows_of table"
  | c' y where "c < c'" and "c' < length table" and "y \<in> set (table ! c')"
        and "(value_of y, r) \<in> rows_of table"
proof -
  from assms obtain c' i where c': "c \<le> c'" "c' < length table"
    and i: "(if c' = c then s else 0) \<le> i" "i < length (table ! c')"
    and r: "r = row_id_of (table ! c' ! i)"
    by (auto simp: for_every_row_id_tail)
  from c' i have mem: "table ! c' ! i \<in> set (table ! c')" "table ! c' ! i \<in> rows_of table"
    by (auto simp: rows_of_def intro!: bexI [of _ c'])
  show thesis
  proof (cases "c' = c")
    case True
    with c' i r mem that(1) show ?thesis by (metis prod.collapse)
  next
    case False
    with c' have "c < c'" by simp
    with c' r mem that(2) show ?thesis by (metis prod.collapse)
  qed
qed

subsection \<open>Aligned output lists\<close>

lemma aligned_emit_pairs:
  assumes "aligned P out" and "\<forall>(l, r) \<in> set pairs. P l r"
  shows "aligned P (emit_pairs c pairs out)"
proof (cases "c < length (output_pos_lists_left out)")
  case True
  have "list_all2 P (map fst pairs) (map snd pairs)"
    using assms(2) by (induction pairs) auto
  with assms(1) True show ?thesis
    by (auto simp: aligned_def emit_pairs_def nth_list_update list_all2_appendI)
next
  case False
  with assms(1) show ?thesis
    by (simp add: aligned_def emit_pairs_def list_update_beyond)
qed

lemma aligned_reset:
  assumes "aligned P out"
  shows "aligned P (out\<lparr>output_pos_lists_left := (output_pos_lists_left out)[c := []],
                        output_pos_lists_right := (output_pos_lists_right out)[c := []]\<rparr>)"
proof (cases "c < length (output_pos_lists_left out)")
  case True
  with assms show ?thesis
    by (auto simp: aligned_def nth_list_update)
next
  case False
  with assms show ?thesis
    by (simp add: aligned_def list_update_beyond)
qed

lemma aligned_lengths:
  assumes "aligned P out"
  shows "length (output_pos_lists_left out) = length (output_pos_lists_right out)"
    and "c < length (output_pos_lists_left out) \<Longrightarrow>
           length (output_pos_lists_left out ! c) = length (output_pos_lists_right out ! c)"
    and "c < length (output_pos_lists_left out) \<Longrightarrow> i < length (output_pos_lists_left out ! c) \<Longrightarrow>
           P (output_pos_lists_left out ! c ! i) (output_pos_lists_right out ! c ! i)"
  using assms by (auto simp: aligned_def list_all2_conv_all_nth)

subsection \<open>The pairs of a run join are join partners\<close>

lemma join_runs_eq:
  assumes "sm_mode impl \<noteq> Semi" and "sm_mode impl \<noteq> Anti"
  shows "join_runs impl lr rr cr out =
           (if sm_op impl \<in> {Equals, NotEquals, LessThan, LessThanEquals, GreaterThan,
                                GreaterThanEquals}
            then Inr (emit_pairs (cluster (range_start lr)) (join_runs_pairs impl lr rr cr) out)
            else Inl UnknownPredicateCondition)"
  by (simp add: join_runs_def join_runs_pairs_def Let_def
      emit_all_combinations_pairs [OF assms] emit_right_null_combinations_pairs
      emit_left_null_combinations_pairs emit_pairs_append)

lemma join_runs_as_pairs:
  assumes "sm_mode impl \<noteq> Semi" and "sm_mode impl \<noteq> Anti"
    and "join_runs impl lr rr cr out = Inr out'"
  shows "out' = emit_pairs (cluster (range_start lr)) (join_runs_pairs impl lr rr cr) out"
  using assms(3) unfolding join_runs_eq [OF assms(1,2)]
  by (simp split: if_splits)

lemma product_partner:
  assumes "\<And>l. l \<in> set ls \<Longrightarrow> \<exists>v. (v, l) \<in> rows_of L \<and> A v"
    and "\<And>r. r \<in> set rs \<Longrightarrow> \<exists>v. (v, r) \<in> rows_of R \<and> B v"
    and "\<And>a b. A a \<Longrightarrow> B b \<Longrightarrow> predicate_holds op a b"
  shows "\<forall>(l, r) \<in> set (List.product ls rs). join_partner op L R l r"
proof clarify
  fix l r
  assume "(l, r) \<in> set (List.product ls rs)"
  then have "l \<in> set ls" "r \<in> set rs" by auto
  then obtain a b where "(a, l) \<in> rows_of L" "A a" "(b, r) \<in> rows_of R" "B b"
    using assms(1,2) by blast
  with assms(3) show "join_partner op L R l r"
    unfolding join_partner_def by blast
qed

lemma run_rows_value:
  assumes "sorted (map value_of (T ! c))" and "c < length T" and "s < length (T ! c)"
    and "r \<in> set (for_every_row_id T (TableRange3 c s (s + run_length s (T ! c))))"
  shows "\<exists>v. (v, r) \<in> rows_of T \<and> v = value_of (T ! c ! s)"
proof -
  have "s + run_length s (T ! c) \<le> length (T ! c)"
    using assms(3) by (simp add: run_length_le)
  from assms(4) this assms(2) obtain i where i: "s \<le> i" "i < s + run_length s (T ! c)"
    and mem: "(value_of (T ! c ! i), r) \<in> rows_of T"
    by (rule in_run_rows)
  have "value_of (T ! c ! i) = value_of (T ! c ! s)"
    by (rule run_value [OF assms(1,3) i])
  with mem show ?thesis by auto
qed

lemma rest_rows_value:
  assumes "c < length T"
    and "r \<in> set (for_every_row_id T (TableRange3 c s (length (T ! c))))"
  shows "\<exists>v. (v, r) \<in> rows_of T \<and> v \<in> value_of ` set (T ! c)"
proof -
  from assms(2) _ assms(1) obtain i where i: "s \<le> i" "i < length (T ! c)"
    and mem: "(value_of (T ! c ! i), r) \<in> rows_of T"
    by (rule in_run_rows) simp
  from i have "value_of (T ! c ! i) \<in> value_of ` set (T ! c)"
    by simp
  with mem show ?thesis by blast
qed

lemma start_rows_value:
  assumes "sorted (map value_of (T ! c))" and "end_of_table T = Inr e"
    and "\<And>c' y. c < c' \<Longrightarrow> c' < length T \<Longrightarrow> y \<in> set (T ! c') \<Longrightarrow> w < value_of y"
    and "w \<le> value_of (T ! c ! s)"
    and "r \<in> set (for_every_row_id T (TablePosition_to \<lparr>cluster = c, index = s\<rparr> e))"
  shows "\<exists>v. (v, r) \<in> rows_of T \<and> w \<le> v"
  using assms(5,2)
proof (rule in_tail_rows)
  fix i
  assume "s \<le> i" "i < length (T ! c)" "(value_of (T ! c ! i), r) \<in> rows_of T"
  moreover from this have "value_of (T ! c ! s) \<le> value_of (T ! c ! i)"
    using sorted_value_mono [OF assms(1)] by blast
  ultimately show ?thesis
    using assms(4) by (meson order_trans)
next
  fix c' y
  assume "c < c'" "c' < length T" "y \<in> set (T ! c')" "(value_of y, r) \<in> rows_of T"
  then show ?thesis
    using assms(3) by (meson less_imp_le)
qed

lemma end_rows_value:
  assumes "sorted (map value_of (T ! c))" and "end_of_table T = Inr e"
    and "\<And>c' y. c < c' \<Longrightarrow> c' < length T \<Longrightarrow> y \<in> set (T ! c') \<Longrightarrow> value_of (T ! c ! s) < value_of y"
    and "s < length (T ! c)"
    and "r \<in> set (for_every_row_id T
                 (TablePosition_to \<lparr>cluster = c, index = s + run_length s (T ! c)\<rparr> e))"
  shows "\<exists>v. (v, r) \<in> rows_of T \<and> value_of (T ! c ! s) < v"
  using assms(5,2)
proof (rule in_tail_rows)
  fix i
  assume "s + run_length s (T ! c) \<le> i" "i < length (T ! c)"
    "(value_of (T ! c ! i), r) \<in> rows_of T"
  then show ?thesis
    using after_run_value [OF assms(1,4)] by blast
next
  fix c' y
  assume "c < c'" "c' < length T" "y \<in> set (T ! c')" "(value_of y, r) \<in> rows_of T"
  then show ?thesis
    using assms(3) by blast
qed

lemma beyond_rows_value:
  assumes "end_of_table T = Inr e" and "length (T ! c) \<le> s"
    and "r \<in> set (for_every_row_id T (TablePosition_to \<lparr>cluster = c, index = s\<rparr> e))"
  shows "\<exists>c' y. c < c' \<and> c' < length T \<and> y \<in> set (T ! c') \<and> (value_of y, r) \<in> rows_of T"
  using assms(3,1)
proof (rule in_tail_rows)
  fix i
  assume "s \<le> i" "i < length (T ! c)"
  with assms(2) show ?thesis by simp
next
  fix c' y
  assume "c < c'" "c' < length T" "y \<in> set (T ! c')" "(value_of y, r) \<in> rows_of T"
  then show ?thesis by blast
qed

lemma pad_partner [simp]:
  "join_partner op L R l NULL_ROW_ID" "join_partner op L R NULL_ROW_ID r"
  by (simp_all add: join_partner_def)

lemma compare_cases:
  "compare a b = Less \<longleftrightarrow> a < b"
  "compare a b = Equal \<longleftrightarrow> a = b"
  "compare a b = Greater \<longleftrightarrow> b < a"
  by (auto simp: compare_def)

lemma TableRange3_sel [simp]:
  "range_start (TableRange3 c s e) = \<lparr>cluster = c, index = s\<rparr>"
  "range_end (TableRange3 c s e) = \<lparr>cluster = c, index = e\<rparr>"
  by (simp_all add: TableRange3_def)

lemma join_runs_pairs_loop_sound:
  fixes impl :: "('a::linorder) JoinSortMergeImpl"
  defines "L \<equiv> sorted_left_table impl" and "R \<equiv> sorted_right_table impl"
  assumes wc: "well_clustered impl" and c: "c < cluster_count impl"
    and ls: "ls < length (L ! c)" and rs: "rs < length (R ! c)"
  shows "\<forall>(l, r) \<in> set (join_runs_pairs impl
            (TableRange3 c ls (ls + run_length ls (L ! c)))
            (TableRange3 c rs (rs + run_length rs (R ! c)))
            (compare (value_of (L ! c ! ls)) (value_of (R ! c ! rs)))).
           join_partner (sm_op impl) L R l r"
proof -
  let ?lv = "value_of (L ! c ! ls)" and ?rv = "value_of (R ! c ! rs)"
  let ?op = "sm_op impl"
  let ?lrun = "for_every_row_id L (TableRange3 c ls (ls + run_length ls (L ! c)))"
  let ?rrun = "for_every_row_id R (TableRange3 c rs (rs + run_length rs (R ! c)))"
  let ?lstart = "for_every_row_id L
                   (TablePosition_to \<lparr>cluster = c, index = ls\<rparr> (end_of_left_table impl))"
  let ?rstart = "for_every_row_id R
                   (TablePosition_to \<lparr>cluster = c, index = rs\<rparr> (end_of_right_table impl))"
  let ?lafter = "for_every_row_id L
                   (TablePosition_to \<lparr>cluster = c, index = ls + run_length ls (L ! c)\<rparr>
                      (end_of_left_table impl))"
  let ?rafter = "for_every_row_id R
                   (TablePosition_to \<lparr>cluster = c, index = rs + run_length rs (R ! c)\<rparr>
                      (end_of_right_table impl))"
  from wc have len: "length L = cluster_count impl" "length R = cluster_count impl"
    and endL: "end_of_table L = Inr (end_of_left_table impl)"
    and endR: "end_of_table R = Inr (end_of_right_table impl)"
    by (simp_all add: well_clustered_def clustered_def L_def R_def)
  from wc c have sortedL: "sorted (map value_of (L ! c))" and sortedR: "sorted (map value_of (R ! c))"
    by (simp_all add: well_clustered_def clustered_def L_def R_def)
  have later: "value_of x < value_of y"
    if "?op \<noteq> Equals" "x \<in> set (L ! c) \<union> set (R ! c)" "c < c'" "c' < cluster_count impl"
       "y \<in> set (L ! c') \<union> set (R ! c')" for x y c'
    using wc that unfolding well_clustered_def clustered_def L_def R_def by blast
  have lmem: "L ! c ! ls \<in> set (L ! c)" and rmem: "R ! c ! rs \<in> set (R ! c)"
    using ls rs by simp_all
  have laterL: "?lv < value_of y"
    if "?op \<noteq> Equals" "c < c'" "c' < length L" "y \<in> set (L ! c')" for c' y
    using later [OF that(1), of "L ! c ! ls" c' y] lmem that len by simp
  have laterR: "?rv < value_of y"
    if "?op \<noteq> Equals" "c < c'" "c' < length R" "y \<in> set (R ! c')" for c' y
    using later [OF that(1), of "R ! c ! rs" c' y] rmem that len by simp
  have cL: "c < length L" and cR: "c < length R"
    using c len by simp_all
  have Lrun: "\<exists>v. (v, l) \<in> rows_of L \<and> v = ?lv" if "l \<in> set ?lrun" for l
    by (rule run_rows_value [OF sortedL cL ls that])
  have Rrun: "\<exists>v. (v, r) \<in> rows_of R \<and> v = ?rv" if "r \<in> set ?rrun" for r
    by (rule run_rows_value [OF sortedR cR rs that])
  have Lstart: "\<exists>v. (v, l) \<in> rows_of L \<and> ?lv \<le> v" if "?op \<noteq> Equals" "l \<in> set ?lstart" for l
    by (rule start_rows_value [OF sortedL endL laterL [OF that(1)] order_refl that(2)])
  have Rstart: "\<exists>v. (v, r) \<in> rows_of R \<and> ?rv \<le> v" if "?op \<noteq> Equals" "r \<in> set ?rstart" for r
    by (rule start_rows_value [OF sortedR endR laterR [OF that(1)] order_refl that(2)])
  have Lafter: "\<exists>v. (v, l) \<in> rows_of L \<and> ?lv < v" if "?op \<noteq> Equals" "l \<in> set ?lafter" for l
    by (rule end_rows_value [OF sortedL endL laterL [OF that(1)] ls that(2)])
  have Rafter: "\<exists>v. (v, r) \<in> rows_of R \<and> ?rv < v" if "?op \<noteq> Equals" "r \<in> set ?rafter" for r
    by (rule end_rows_value [OF sortedR endR laterR [OF that(1)] rs that(2)])
  consider (less) "?lv < ?rv" | (equal) "?lv = ?rv" | (greater) "?rv < ?lv"
    by (rule linorder_cases)
  then show ?thesis
  proof cases
    case less
    then have cr: "compare ?lv ?rv = Less" by (simp add: compare_cases)
    have f: "\<forall>(l, r) \<in> set (List.product ?lrun ?rstart). join_partner op' L R l r"
      if "?op = op'" "op' \<in> {NotEquals, LessThan, LessThanEquals}" for op'
    proof -
      from that have ne: "?op \<noteq> Equals" by auto
      show ?thesis
        by (rule product_partner [where A = "\<lambda>v. v = ?lv" and B = "\<lambda>v. ?rv \<le> v",
              OF Lrun Rstart [OF ne]])
           (use that less in auto)
    qed
    show ?thesis
      unfolding join_runs_pairs_def L_def [symmetric] R_def [symmetric]
      using f [of NotEquals] f [of LessThan] f [of LessThanEquals]
      by (auto simp: cr Let_def)
  next
    case equal
    then have cr: "compare ?lv ?rv = Equal" by (simp add: compare_cases)
    have 1: "\<forall>(l, r) \<in> set (List.product ?lrun ?rrun). join_partner Equals L R l r"
      by (rule product_partner [where A = "\<lambda>v. v = ?lv" and B = "\<lambda>v. v = ?rv",
            OF Lrun Rrun])
         (use equal in auto)
    have 2: "\<forall>(l, r) \<in> set (List.product ?lafter ?rrun). join_partner op' L R l r"
      if "?op = op'" "op' \<in> {NotEquals, GreaterThan}" for op'
    proof -
      from that have ne: "?op \<noteq> Equals" by auto
      show ?thesis
        by (rule product_partner [where A = "\<lambda>v. ?lv < v" and B = "\<lambda>v. v = ?rv",
              OF Lafter [OF ne] Rrun])
           (use that equal in auto)
    qed
    have 3: "\<forall>(l, r) \<in> set (List.product ?lrun ?rafter). join_partner op' L R l r"
      if "?op = op'" "op' \<in> {NotEquals, LessThan}" for op'
    proof -
      from that have ne: "?op \<noteq> Equals" by auto
      show ?thesis
        by (rule product_partner [where A = "\<lambda>v. v = ?lv" and B = "\<lambda>v. ?rv < v",
              OF Lrun Rafter [OF ne]])
           (use that equal in auto)
    qed
    have 4: "\<forall>(l, r) \<in> set (List.product ?lstart ?rrun). join_partner GreaterThanEquals L R l r"
      if "?op = GreaterThanEquals"
    proof -
      from that have ne: "?op \<noteq> Equals" by auto
      show ?thesis
        by (rule product_partner [where A = "\<lambda>v. ?lv \<le> v" and B = "\<lambda>v. v = ?rv",
              OF Lstart [OF ne] Rrun])
           (use that equal in auto)
    qed
    have 5: "\<forall>(l, r) \<in> set (List.product ?lrun ?rstart). join_partner LessThanEquals L R l r"
      if "?op = LessThanEquals"
    proof -
      from that have ne: "?op \<noteq> Equals" by auto
      show ?thesis
        by (rule product_partner [where A = "\<lambda>v. v = ?lv" and B = "\<lambda>v. ?rv \<le> v",
              OF Lrun Rstart [OF ne]])
           (use that equal in auto)
    qed
    show ?thesis
      unfolding join_runs_pairs_def L_def [symmetric] R_def [symmetric]
      using 1 2 [of NotEquals] 2 [of GreaterThan] 3 [of NotEquals] 3 [of LessThan] 4 5
      by (simp add: cr Let_def ball_Un)
  next
    case greater
    then have cr: "compare ?lv ?rv = Greater" by (simp add: compare_cases)
    have f: "\<forall>(l, r) \<in> set (List.product ?lstart ?rrun). join_partner op' L R l r"
      if "?op = op'" "op' \<in> {NotEquals, GreaterThan, GreaterThanEquals}" for op'
    proof -
      from that have ne: "?op \<noteq> Equals" by auto
      show ?thesis
        by (rule product_partner [where A = "\<lambda>v. ?lv \<le> v" and B = "\<lambda>v. v = ?rv",
              OF Lstart [OF ne] Rrun])
           (use that greater in auto)
    qed
    show ?thesis
      unfolding join_runs_pairs_def L_def [symmetric] R_def [symmetric]
      using f [of NotEquals] f [of GreaterThan] f [of GreaterThanEquals]
      by (auto simp: cr Let_def)
  qed
qed

lemma join_runs_pairs_rest_sound:
  fixes impl :: "('a::linorder) JoinSortMergeImpl"
  defines "L \<equiv> sorted_left_table impl" and "R \<equiv> sorted_right_table impl"
  assumes wc: "well_clustered impl" and c: "c < cluster_count impl"
  shows "length (R ! c) \<le> rs \<Longrightarrow>
           \<forall>(l, r) \<in> set (join_runs_pairs impl (TableRange3 c ls (length (L ! c)))
                              (TableRange3 c rs (length (R ! c))) Less).
             join_partner (sm_op impl) L R l r"
    and "length (L ! c) \<le> ls \<Longrightarrow>
           \<forall>(l, r) \<in> set (join_runs_pairs impl (TableRange3 c ls (length (L ! c)))
                              (TableRange3 c rs (length (R ! c))) Greater).
             join_partner (sm_op impl) L R l r"
proof -
  let ?op = "sm_op impl"
  let ?lrest = "for_every_row_id L (TableRange3 c ls (length (L ! c)))"
  let ?rrest = "for_every_row_id R (TableRange3 c rs (length (R ! c)))"
  let ?lbeyond = "for_every_row_id L
                    (TablePosition_to \<lparr>cluster = c, index = ls\<rparr> (end_of_left_table impl))"
  let ?rbeyond = "for_every_row_id R
                    (TablePosition_to \<lparr>cluster = c, index = rs\<rparr> (end_of_right_table impl))"
  from wc have len: "length L = cluster_count impl" "length R = cluster_count impl"
    and endL: "end_of_table L = Inr (end_of_left_table impl)"
    and endR: "end_of_table R = Inr (end_of_right_table impl)"
    by (simp_all add: well_clustered_def clustered_def L_def R_def)
  have cL: "c < length L" and cR: "c < length R"
    using c len by simp_all
  have later: "value_of x < value_of y"
    if "?op \<noteq> Equals" "x \<in> set (L ! c) \<union> set (R ! c)" "c < c'" "c' < cluster_count impl"
       "y \<in> set (L ! c') \<union> set (R ! c')" for x y c'
    using wc that unfolding well_clustered_def clustered_def L_def R_def by blast
  have Lrest: "\<exists>v. (v, l) \<in> rows_of L \<and> v \<in> value_of ` set (L ! c)" if "l \<in> set ?lrest" for l
    by (rule rest_rows_value [OF cL that])
  have Rrest: "\<exists>v. (v, r) \<in> rows_of R \<and> v \<in> value_of ` set (R ! c)" if "r \<in> set ?rrest" for r
    by (rule rest_rows_value [OF cR that])
  have Rbeyond: "\<exists>v. (v, r) \<in> rows_of R \<and> (\<forall>x \<in> set (L ! c). value_of x < v)"
    if ne: "?op \<noteq> Equals" and past: "length (R ! c) \<le> rs" and mem: "r \<in> set ?rbeyond" for r
  proof -
    obtain c' y where y: "c < c'" "c' < length R" "y \<in> set (R ! c')" "(value_of y, r) \<in> rows_of R"
      using beyond_rows_value [OF endR past mem] by blast
    have "value_of x < value_of y" if "x \<in> set (L ! c)" for x
      using later [OF ne, of x c' y] that y len by simp
    with y show ?thesis by blast
  qed
  have Lbeyond: "\<exists>v. (v, l) \<in> rows_of L \<and> (\<forall>x \<in> set (R ! c). value_of x < v)"
    if ne: "?op \<noteq> Equals" and past: "length (L ! c) \<le> ls" and mem: "l \<in> set ?lbeyond" for l
  proof -
    obtain c' y where y: "c < c'" "c' < length L" "y \<in> set (L ! c')" "(value_of y, l) \<in> rows_of L"
      using beyond_rows_value [OF endL past mem] by blast
    have "value_of x < value_of y" if "x \<in> set (R ! c)" for x
      using later [OF ne, of x c' y] that y len by simp
    with y show ?thesis by blast
  qed
  show "\<forall>(l, r) \<in> set (join_runs_pairs impl (TableRange3 c ls (length (L ! c)))
                              (TableRange3 c rs (length (R ! c))) Less).
             join_partner (sm_op impl) L R l r"
    if rs: "length (R ! c) \<le> rs"
  proof -
    have f: "\<forall>(l, r) \<in> set (List.product ?lrest ?rbeyond). join_partner op' L R l r"
      if "?op = op'" "op' \<in> {NotEquals, LessThan, LessThanEquals}" for op'
    proof -
      from that have ne: "?op \<noteq> Equals" by auto
      show ?thesis
        by (rule product_partner [where A = "\<lambda>v. v \<in> value_of ` set (L ! c)"
                and B = "\<lambda>v. \<forall>x \<in> set (L ! c). value_of x < v", OF Lrest Rbeyond [OF ne rs]])
           (use that in auto)
    qed
    show ?thesis
      unfolding join_runs_pairs_def L_def [symmetric] R_def [symmetric]
      using f [of NotEquals] f [of LessThan] f [of LessThanEquals]
      by (auto simp: Let_def)
  qed
  show "\<forall>(l, r) \<in> set (join_runs_pairs impl (TableRange3 c ls (length (L ! c)))
                              (TableRange3 c rs (length (R ! c))) Greater).
             join_partner (sm_op impl) L R l r"
    if ls: "length (L ! c) \<le> ls"
  proof -
    have f: "\<forall>(l, r) \<in> set (List.product ?lbeyond ?rrest). join_partner op' L R l r"
      if "?op = op'" "op' \<in> {NotEquals, GreaterThan, GreaterThanEquals}" for op'
    proof -
      from that have ne: "?op \<noteq> Equals" by auto
      show ?thesis
        by (rule product_partner [where A = "\<lambda>v. \<forall>x \<in> set (R ! c). value_of x < v"
                and B = "\<lambda>v. v \<in> value_of ` set (R ! c)", OF Lbeyond [OF ne ls] Rrest])
           (use that in auto)
    qed
    show ?thesis
      unfolding join_runs_pairs_def L_def [symmetric] R_def [symmetric]
      using f [of NotEquals] f [of GreaterThan] f [of GreaterThanEquals]
      by (auto simp: Let_def)
  qed
qed

subsection \<open>The merge keeps the output lists aligned\<close>

lemma run_is_current_0: "run_is_current xs 0 (0 + run_length 0 xs)"
  by (simp add: run_is_current_def)

lemma join_cluster_body_aligned:
  fixes impl :: "('a::linorder) JoinSortMergeImpl"
  assumes mode: "sm_mode impl \<noteq> Semi" "sm_mode impl \<noteq> Anti"
    and c: "c < cluster_count impl"
    and ls: "ls < length (sorted_left_table impl ! c)"
    and rs: "rs < length (sorted_right_table impl ! c)"
    and cur: "run_is_current (sorted_left_table impl ! c) ls le"
             "run_is_current (sorted_right_table impl ! c) rs re"
    and al: "aligned (partner_if_clustered impl) out"
    and body: "join_cluster_body impl c ls rs le re out = Inr (ls', rs', le', re', out')"
  shows "aligned (partner_if_clustered impl) out'"
    and "run_is_current (sorted_left_table impl ! c) ls' le'"
    and "run_is_current (sorted_right_table impl ! c) rs' re'"
proof -
  let ?cr = "compare (value_of (sorted_left_table impl ! c ! ls))
                     (value_of (sorted_right_table impl ! c ! rs))"
  from body obtain out1 where
    runs: "join_runs impl (TableRange3 c ls le) (TableRange3 c rs re) ?cr out = Inr out1"
    and st: "(ls', rs', le', re', out') =
       (if ?cr = Equal then
          (le, re, le + run_length le (sorted_left_table impl ! c),
           re + run_length re (sorted_right_table impl ! c), out1)
        else if ?cr = Less then
          (le, rs, le + run_length le (sorted_left_table impl ! c), re, out1)
        else (ls, re, le, re + run_length re (sorted_right_table impl ! c), out1))"
    by (auto simp: join_cluster_body_def Let_def split: sum.splits if_splits)
  from st have out': "out' = out1" by (auto split: if_splits)
  have le: "le = ls + run_length ls (sorted_left_table impl ! c)"
    and re: "re = rs + run_length rs (sorted_right_table impl ! c)"
    using cur by (simp_all add: run_is_current_def)
  have "out1 = emit_pairs c (join_runs_pairs impl (TableRange3 c ls le) (TableRange3 c rs re) ?cr) out"
    using join_runs_as_pairs [OF mode runs] by simp
  moreover have "\<forall>(l, r) \<in> set (join_runs_pairs impl (TableRange3 c ls le) (TableRange3 c rs re) ?cr).
                   partner_if_clustered impl l r"
    using join_runs_pairs_loop_sound [OF _ c ls rs]
    unfolding partner_if_clustered_def le re by blast
  ultimately show "aligned (partner_if_clustered impl) out'"
    using al out' by (simp add: aligned_emit_pairs)
  show "run_is_current (sorted_left_table impl ! c) ls' le'"
    using st cur by (auto simp: run_is_current_def split: if_splits)
  show "run_is_current (sorted_right_table impl ! c) rs' re'"
    using st cur by (auto simp: run_is_current_def split: if_splits)
qed

lemma join_cluster_loop_aligned:
  fixes impl :: "('a::linorder) JoinSortMergeImpl"
  assumes "sm_mode impl \<noteq> Semi" "sm_mode impl \<noteq> Anti" "c < cluster_count impl"
    and "run_is_current (sorted_left_table impl ! c) ls le"
    and "run_is_current (sorted_right_table impl ! c) rs re"
    and "aligned (partner_if_clustered impl) out"
    and "join_cluster_loop impl c ls rs le re out = Inr (ls', rs', out')"
  shows "aligned (partner_if_clustered impl) out'
         \<and> \<not> (ls' < length (sorted_left_table impl ! c) \<and> rs' < length (sorted_right_table impl ! c))"
  using assms
proof (induction impl c ls rs le re out rule: join_cluster_loop.induct)
  case (1 impl c ls rs le re out)
  note loop_eq = join_cluster_loop.simps [of impl c ls rs le re out]
  show ?case
  proof (cases "ls < length (sorted_left_table impl ! c) \<and> rs < length (sorted_right_table impl ! c)")
    case False
    then have "join_cluster_loop impl c ls rs le re out = Inr (ls, rs, out)"
      by (subst loop_eq) (simp only: if_False)
    with "1.prems"(7) have "ls' = ls" "rs' = rs" "out' = out"
      by (simp_all del: join_cluster_loop.simps)
    with False "1.prems"(6) show ?thesis
      by (simp del: join_cluster_loop.simps)
  next
    case True
    then have eq: "join_cluster_loop impl c ls rs le re out =
      (case join_cluster_body impl c ls rs le re out of
         Inl e \<Rightarrow> Inl e
       | Inr (ls1, rs1, le1, re1, out1) \<Rightarrow> join_cluster_loop impl c ls1 rs1 le1 re1 out1)"
      by (subst loop_eq) (simp only: if_True simp_thms)
    obtain ls1 rs1 le1 re1 out1 where
      body: "join_cluster_body impl c ls rs le re out = Inr (ls1, rs1, le1, re1, out1)"
      using "1.prems"(7) unfolding eq
      by (cases "join_cluster_body impl c ls rs le re out")
         (auto simp del: join_cluster_loop.simps)
    have rest: "join_cluster_loop impl c ls1 rs1 le1 re1 out1 = Inr (ls', rs', out')"
      using "1.prems"(7) unfolding eq body
      by (simp only: sum.case prod.case)
    from True have ls: "ls < length (sorted_left_table impl ! c)"
      and rs: "rs < length (sorted_right_table impl ! c)" by simp_all
    note step = join_cluster_body_aligned
      [OF "1.prems"(1,2,3) ls rs "1.prems"(4,5,6) body]
    show ?thesis
      by (rule "1.IH" [OF True body refl refl refl refl "1.prems"(1,2,3) step(2,3,1) rest])
  qed
qed

lemma join_cluster_aligned:
  fixes impl :: "('a::linorder) JoinSortMergeImpl"
  assumes mode: "sm_mode impl \<noteq> Semi" "sm_mode impl \<noteq> Anti" and c: "c < cluster_count impl"
    and al: "aligned (partner_if_clustered impl) out"
    and run: "join_cluster impl c out = Inr out'"
  shows "aligned (partner_if_clustered impl) out'"
proof -
  let ?L = "sorted_left_table impl ! c" and ?R = "sorted_right_table impl ! c"
  from run obtain ls rs out1 where
    loop: "join_cluster_loop impl c 0 0 (0 + run_length 0 ?L) (0 + run_length 0 ?R) out
             = Inr (ls, rs, out1)"
    and fin: "(if ls < length ?L
               then join_runs impl (TableRange3 c ls (length ?L)) (TableRange3 c rs (length ?R)) Less out1
               else if rs < length ?R
               then join_runs impl (TableRange3 c ls (length ?L)) (TableRange3 c rs (length ?R)) Greater out1
               else Inr out1) = Inr out'"
    using mode
    by (auto simp: join_cluster_def Let_def simp del: join_cluster_loop.simps split: sum.splits)
  from join_cluster_loop_aligned [OF mode c run_is_current_0 run_is_current_0 al loop]
  have al1: "aligned (partner_if_clustered impl) out1"
    and exit: "\<not> (ls < length ?L \<and> rs < length ?R)" by simp_all
  show ?thesis
  proof (cases "ls < length ?L")
    case True
    with exit have rs: "length ?R \<le> rs" by simp
    from True fin have
      "out' = emit_pairs c (join_runs_pairs impl (TableRange3 c ls (length ?L))
                              (TableRange3 c rs (length ?R)) Less) out1"
      using join_runs_as_pairs [OF mode] by force
    moreover have "\<forall>(l, r) \<in> set (join_runs_pairs impl (TableRange3 c ls (length ?L))
                              (TableRange3 c rs (length ?R)) Less). partner_if_clustered impl l r"
      using join_runs_pairs_rest_sound(1) [OF _ c rs]
      unfolding partner_if_clustered_def by blast
    ultimately show ?thesis
      using al1 by (simp add: aligned_emit_pairs)
  next
    case False
    show ?thesis
    proof (cases "rs < length ?R")
      case True
      from False have ls: "length ?L \<le> ls" by simp
      from False True fin have
        "out' = emit_pairs c (join_runs_pairs impl (TableRange3 c ls (length ?L))
                                (TableRange3 c rs (length ?R)) Greater) out1"
        using join_runs_as_pairs [OF mode] by force
      moreover have "\<forall>(l, r) \<in> set (join_runs_pairs impl (TableRange3 c ls (length ?L))
                                (TableRange3 c rs (length ?R)) Greater). partner_if_clustered impl l r"
        using join_runs_pairs_rest_sound(2) [OF _ c ls]
        unfolding partner_if_clustered_def by blast
      ultimately show ?thesis
        using al1 by (simp add: aligned_emit_pairs)
    next
      case rs: False
      with False fin al1 show ?thesis by simp
    qed
  qed
qed

lemma perform_join_clusters_aligned:
  fixes impl :: "('a::linorder) JoinSortMergeImpl"
  assumes mode: "sm_mode impl \<noteq> Semi" "sm_mode impl \<noteq> Anti"
    and "\<forall>c \<in> set cs. c < cluster_count impl"
    and "aligned (partner_if_clustered impl) out"
    and "perform_join_clusters impl cs out = Inr out'"
  shows "aligned (partner_if_clustered impl) out'"
  using assms(3-)
proof (induction cs arbitrary: out)
  case Nil
  then show ?case by simp
next
  case (Cons c cs)
  let ?out0 = "out\<lparr>output_pos_lists_left := (output_pos_lists_left out)[c := []],
                    output_pos_lists_right := (output_pos_lists_right out)[c := []]\<rparr>"
  have al0: "aligned (partner_if_clustered impl) ?out0"
    using Cons.prems(2) by (rule aligned_reset)
  from Cons.prems(1) have c: "c < cluster_count impl" and cs: "\<forall>c \<in> set cs. c < cluster_count impl"
    by simp_all
  from Cons.prems(3) consider
      (skip) "perform_join_clusters impl cs ?out0 = Inr out'"
    | (run) out1 where "join_cluster impl c ?out0 = Inr out1"
        "perform_join_clusters impl cs out1 = Inr out'"
    by (auto simp: Let_def split: if_splits sum.splits)
  then show ?case
  proof cases
    case skip
    then show ?thesis using Cons.IH [OF cs al0] by simp
  next
    case run
    have "aligned (partner_if_clustered impl) out1"
      by (rule join_cluster_aligned [OF mode c al0 run(1)])
    then show ?thesis using Cons.IH [OF cs _ run(2)] by simp
  qed
qed

lemma pads_partner_if_clustered:
  "\<forall>(l, r) \<in> set (map (Pair NULL_ROW_ID) rs). partner_if_clustered impl l r"
  "\<forall>(l, r) \<in> set (map (\<lambda>l. (l, NULL_ROW_ID)) ls). partner_if_clustered impl l r"
  by (auto simp: partner_if_clustered_def)

lemma left_outer_non_equi_join_aligned:
  assumes "aligned (partner_if_clustered impl) out"
    and "left_outer_non_equi_join impl out = Inr out'"
  shows "aligned (partner_if_clustered impl) out'"
  using assms
  by (auto simp: left_outer_non_equi_join_def emit_left_null_combinations_pairs
        aligned_emit_pairs pads_partner_if_clustered
      split: sum.splits option.splits if_splits)

lemma right_outer_non_equi_join_aligned:
  assumes "aligned (partner_if_clustered impl) out"
    and "right_outer_non_equi_join impl out = Inr out'"
  shows "aligned (partner_if_clustered impl) out'"
  using assms
  by (auto simp: right_outer_non_equi_join_def emit_right_null_combinations_pairs
        aligned_emit_pairs pads_partner_if_clustered
      split: sum.splits option.splits if_splits)

lemma perform_join_aligned:
  fixes impl :: "('a::linorder) JoinSortMergeImpl"
  assumes mode: "sm_mode impl \<noteq> Semi" "sm_mode impl \<noteq> Anti"
    and al: "aligned (partner_if_clustered impl) out"
    and run: "perform_join impl out = Inr out'"
  shows "aligned (partner_if_clustered impl) out'"
proof -
  from run obtain out1 out2 where
    1: "perform_join_clusters impl [0..<cluster_count impl] out = Inr out1"
    and 2: "(if (sm_mode impl = Left \<or> sm_mode impl = Outer) \<and> sm_op impl \<noteq> Equals
             then left_outer_non_equi_join impl out1 else Inr out1) = Inr out2"
    and 3: "(if (sm_mode impl = Right \<or> sm_mode impl = Outer) \<and> sm_op impl \<noteq> Equals
             then right_outer_non_equi_join impl out2 else Inr out2) = Inr out'"
    by (auto simp: perform_join_def split: sum.splits)
  have a1: "aligned (partner_if_clustered impl) out1"
    by (rule perform_join_clusters_aligned [OF mode _ al 1]) simp
  have a2: "aligned (partner_if_clustered impl) out2"
    using 2 a1 left_outer_non_equi_join_aligned [of impl out1 out2]
    by (auto split: if_splits)
  show ?thesis
    using 3 a2 right_outer_non_equi_join_aligned [of impl out2 out']
    by (auto split: if_splits)
qed

lemma aligned_snoc:
  assumes "aligned P out" and "list_all2 P ls rs"
  shows "aligned P (out\<lparr>output_pos_lists_left := output_pos_lists_left out @ [ls],
                        output_pos_lists_right := output_pos_lists_right out @ [rs]\<rparr>)"
  using assms by (auto simp: aligned_def nth_append)

lemma null_rows_aligned:
  assumes "\<And>l. P l NULL_ROW_ID" and "\<And>r. P NULL_ROW_ID r"
  shows "list_all2 P (ls @ map (\<lambda>_. NULL_ROW_ID) rs) (map (\<lambda>_. NULL_ROW_ID) ls @ rs)"
proof (rule list_all2_appendI)
  show "list_all2 P ls (map (\<lambda>_. NULL_ROW_ID) ls)"
    by (simp add: list_all2_conv_all_nth assms(1))
  show "list_all2 P (map (\<lambda>_. NULL_ROW_ID) rs) rs"
    by (simp add: list_all2_conv_all_nth assms(2))
qed

lemma aligned_nth:
  assumes "aligned P out"
  shows "length (output_pos_lists_left out) = length (output_pos_lists_right out)"
    and "c < length (output_pos_lists_left out) \<Longrightarrow>
           length (output_pos_lists_left out ! c) = length (output_pos_lists_right out ! c)"
    and "c < length (output_pos_lists_left out) \<Longrightarrow> i < length (output_pos_lists_left out ! c) \<Longrightarrow>
           P (output_pos_lists_left out ! c ! i) (output_pos_lists_right out ! c ! i)"
  using assms by (auto simp: aligned_def list_all2_conv_all_nth)

lemma aligned_empty:
  "aligned P \<lparr>output_pos_lists_left = replicate n [], output_pos_lists_right = replicate n []\<rparr>"
  by (simp add: aligned_def)

lemma null_patch_aligned:
  assumes "aligned (partner_if_clustered impl) out"
  shows "aligned (partner_if_clustered impl)
           (out\<lparr>output_pos_lists_left := output_pos_lists_left out
                    @ [(if a then nl else []) @ (if b then map (\<lambda>_. NULL_ROW_ID) nr else [])],
                 output_pos_lists_right := output_pos_lists_right out
                    @ [(if a then map (\<lambda>_. NULL_ROW_ID) nl else []) @ (if b then nr else [])]\<rparr>)"
proof (rule aligned_snoc [OF assms])
  have "list_all2 (partner_if_clustered impl)
          ((if a then nl else []) @ map (\<lambda>_. NULL_ROW_ID) (if b then nr else []))
          (map (\<lambda>_. NULL_ROW_ID) (if a then nl else []) @ (if b then nr else []))"
    by (rule null_rows_aligned) (simp_all add: partner_if_clustered_def)
  then show "list_all2 (partner_if_clustered impl)
          ((if a then nl else []) @ (if b then map (\<lambda>_. NULL_ROW_ID) nr else []))
          ((if a then map (\<lambda>_. NULL_ROW_ID) nl else []) @ (if b then nr else []))"
    by (simp split: if_splits)
qed

lemma JoinSortMergeImpl_on_execute_aligned:
  fixes so :: "('a::linorder) RadixClusterOutput"
  assumes mode: "mode \<noteq> Semi" "mode \<noteq> Anti"
    and run: "JoinSortMergeImpl_on_execute op mode n col so = Inr out"
  shows "aligned (\<lambda>l r. clustered op n (clusters_left so) (clusters_right so)
                    \<longrightarrow> join_partner op (clusters_left so) (clusters_right so) l r) out"
proof -
  from run obtain end_left end_right where
    endL: "end_of_table (clusters_left so) = Inr end_left"
    and endR: "end_of_table (clusters_right so) = Inr end_right"
    by (auto simp: JoinSortMergeImpl_on_execute_def Let_def split: sum.splits)
  define impl where "impl =
    \<lparr>sorted_left_table = clusters_left so, sorted_right_table = clusters_right so,
      null_rows_left = output_null_rows_left so, null_rows_right = output_null_rows_right so,
      left_column = col, sm_op = op, sm_mode = mode, cluster_count = n,
      end_of_left_table = end_left, end_of_right_table = end_right\<rparr>"
  define out0 where "out0 =
    \<lparr>output_pos_lists_left = replicate n [], output_pos_lists_right = replicate n ([] :: RowID list)\<rparr>"
  have sel: "sm_mode impl = mode" "sm_op impl = op" "cluster_count impl = n"
    "sorted_left_table impl = clusters_left so" "sorted_right_table impl = clusters_right so"
    "end_of_left_table impl = end_left" "end_of_right_table impl = end_right"
    "null_rows_left impl = output_null_rows_left so"
    "null_rows_right impl = output_null_rows_right so"
    by (simp_all add: impl_def)
  have P: "partner_if_clustered impl =
    (\<lambda>l r. clustered op n (clusters_left so) (clusters_right so)
              \<longrightarrow> join_partner op (clusters_left so) (clusters_right so) l r)"
    by (simp add: partner_if_clustered_def well_clustered_def sel endL endR fun_eq_iff)
  from run obtain out1 where
    merge: "perform_join impl out0 = Inr out1"
    and patch: "out =
      (if (mode = Left \<or> mode = Outer) \<or> (mode = Right \<or> mode = Outer) then
         out1\<lparr>output_pos_lists_left := output_pos_lists_left out1
                 @ [(if mode = Left \<or> mode = Outer then output_null_rows_left so else [])
                    @ (if mode = Right \<or> mode = Outer
                       then map (\<lambda>_. NULL_ROW_ID) (output_null_rows_right so) else [])],
              output_pos_lists_right := output_pos_lists_right out1
                 @ [(if mode = Left \<or> mode = Outer
                     then map (\<lambda>_. NULL_ROW_ID) (output_null_rows_left so) else [])
                    @ (if mode = Right \<or> mode = Outer then output_null_rows_right so else [])]\<rparr>
       else out1)"
    unfolding JoinSortMergeImpl_on_execute_def Let_def endL endR sum.case
      impl_def [symmetric] out0_def [symmetric] sel
    by (cases "perform_join impl out0") (auto split: if_splits)
  have "aligned (partner_if_clustered impl) out0"
    unfolding out0_def by (rule aligned_empty)
  then have a1: "aligned (partner_if_clustered impl) out1"
    using merge mode by (intro perform_join_aligned [of impl out0 out1]) (simp_all add: sel)
  have "aligned (partner_if_clustered impl) out"
    unfolding patch using a1 null_patch_aligned [OF a1] by (simp only: if_split) blast
  then show ?thesis
    unfolding P .
qed

text \<open>
  C10. In a mode other than Semi and Anti, the output of the sort-merge join (after the
  merge and the patch that appends the rows with a NULL join value in the outer modes)
  has as many left position lists as right position lists, the two lists of every
  output cluster have the same length, and, when the clusters handed to the merge are
  sorted and (for a predicate other than equality) range-clustered, the entries at the
  same index of the two lists are join partners: row ids of a left row and a right row
  whose values satisfy the predicate, or one of them the padding \<open>NULL_ROW_ID\<close>.
\<close>

theorem sort_merge_output_lists_aligned:
  fixes so :: "('a::linorder) RadixClusterOutput"
  assumes "mode \<noteq> Semi" and "mode \<noteq> Anti"
    and "JoinSortMergeImpl_on_execute op mode n col so = Inr out"
  shows "length (output_pos_lists_left out) = length (output_pos_lists_right out)
         \<and> (\<forall>c < length (output_pos_lists_left out).
              length (output_pos_lists_left out ! c) = length (output_pos_lists_right out ! c)
              \<and> (clustered op n (clusters_left so) (clusters_right so) \<longrightarrow>
                   (\<forall>i < length (output_pos_lists_left out ! c).
                      join_partner op (clusters_left so) (clusters_right so)
                        (output_pos_lists_left out ! c ! i)
                        (output_pos_lists_right out ! c ! i))))"
  using aligned_nth [OF JoinSortMergeImpl_on_execute_aligned [OF assms]]
  by blast

theorem sort_merge_output_lists_aligned_witness:
  "JoinSortMergeImpl_on_execute GreaterThan Outer 1 [[Some 1, Some 3]]
     (one_cluster_output [1, 3] [2, 4])
     = Inr \<lparr>output_pos_lists_left = [[row_id 0 1, NULL_ROW_ID, row_id 0 0], []],
            output_pos_lists_right = [[row_id 0 0, row_id 0 1, NULL_ROW_ID], []]\<rparr>
   \<and> clustered GreaterThan 1 [single_chunk [1, 3]] [single_chunk [2, 4 :: nat]]
   \<and> join_partner GreaterThan [single_chunk [1, 3]] [single_chunk [2, 4 :: nat]]
         (row_id 0 1) (row_id 0 0)
   \<and> join_partner GreaterThan [single_chunk [1, 3]] [single_chunk [2, 4 :: nat]]
         NULL_ROW_ID (row_id 0 1)
   \<and> join_partner GreaterThan [single_chunk [1, 3]] [single_chunk [2, 4 :: nat]]
         (row_id 0 0) NULL_ROW_ID"
proof -
  let ?so = "one_cluster_output [1, 3] [2, 4]"
  let ?out = "\<lparr>output_pos_lists_left = [[row_id 0 1, NULL_ROW_ID, row_id 0 0], []],
               output_pos_lists_right = [[row_id 0 0, row_id 0 1, NULL_ROW_ID], []]\<rparr>"
  have run: "JoinSortMergeImpl_on_execute GreaterThan Outer 1 [[Some 1, Some 3]] ?so = Inr ?out"
    by (simp add: run_model)
  have so: "clusters_left ?so = [single_chunk [1, 3]]" "clusters_right ?so = [single_chunk [2, 4]]"
    by (simp_all add: one_cluster_output_def)
  have cl: "clustered GreaterThan 1 [single_chunk [1, 3]] [single_chunk [2, 4 :: nat]]"
    by (simp add: clustered_def single_chunk_def upt_rec)
  have mode: "Outer \<noteq> Semi" "Outer \<noteq> Anti"
    by simp_all
  note inst = sort_merge_output_lists_aligned [OF mode run, unfolded so]
  from inst cl have "\<forall>i < 3. join_partner GreaterThan [single_chunk [1, 3]] [single_chunk [2, 4 :: nat]]
         ([row_id 0 1, NULL_ROW_ID, row_id 0 0] ! i) ([row_id 0 0, row_id 0 1, NULL_ROW_ID] ! i)"
    by force
  from this [rule_format, of 0] this [rule_format, of 1] this [rule_format, of 2] run cl
  show ?thesis
    by (simp del: pad_partner)
qed

subsection \<open>Anti join: the read through a dangling reference\<close>

lemma anti_merge_loop_reads_first_match:
  "\<exists>e. anti_merge_loop col (input # rest) (m # matches) positions = Inl e"
  by (simp add: read_semi_join_value_def split: option.splits)

lemma remove_row_ids_from_materialized_segment_returns:
  assumes "remove_row_ids_from_materialized_segment col matches input_segment = Inr positions"
  shows "matches = [] \<and> positions = map row_id_of input_segment"
proof (cases matches)
  case Nil
  with assms show ?thesis
    by (simp add: remove_row_ids_from_materialized_segment_def)
next
  case (Cons m rest)
  with assms show ?thesis
    by (cases input_segment)
       (simp_all add: remove_row_ids_from_materialized_segment_def read_semi_join_value_def
          split: option.splits if_splits)
qed

text \<open>
  C8 fails on the code, by a slip in the anti join. For the left column 1, 2, 3 and the
  right column 2, 3, 3, 4, joined on equality in one cluster, the semi join returns the
  rows of 2 and 3. The anti join computes the same semi result and then anti-merges the
  left cluster against it: its first comparison reads the value of the first match
  through the dangling reference, so the anti join has no defined result there. Only
  when the semi result of a cluster is empty (left column 1, 3 and right column 2, 4)
  does the anti join return without that read, with every row of the left cluster.
\<close>

theorem anti_join_reads_dangling_reference:
  "JoinSortMergeImpl_on_execute Equals Semi 1 [[Some 1, Some 2, Some 3]]
     (one_cluster_output [1, 2, 3] [2, 3, 3, 4])
     = Inr \<lparr>output_pos_lists_left = [[row_id 0 1, row_id 0 2]],
            output_pos_lists_right = [[]]\<rparr>
   \<and> JoinSortMergeImpl_on_execute Equals Anti 1 [[Some 1, Some 2, Some 3]]
       (one_cluster_output [1, 2, 3] [2, 3, 3, 4])
     = Inl DanglingReference
   \<and> JoinSortMergeImpl_on_execute Equals Anti 1 [[Some 1, Some 3]]
       (one_cluster_output [1, 3] [2, 4])
     = Inr \<lparr>output_pos_lists_left = [[row_id 0 0, row_id 0 1]],
            output_pos_lists_right = [[]]\<rparr>"
  by (simp add: run_model read_semi_join_value_def)

end
